(* ===== verification/Prelude.thy ===== *)
theory Prelude
  imports Main "HOL-Library.Word"
begin

text \<open>
  Shared vocabulary of the development: the machine exceptions of the emulator
  (\<open>src/src/libriscv/lib/libriscv/types.hpp\<close>), fallible and state-changing
  computations as values, and arithmetic on unsigned machine integers that are
  kept as natural numbers with their wrap-around written out.  Every component
  theory builds on this one.
\<close>

named_theorems wrap_simps \<open>elimination of wrap-around when the operands are in range\<close>

section \<open>Machine exceptions\<close>

datatype exceptions =
    ILLEGAL_OPCODE
  | ILLEGAL_OPERATION
  | PROTECTION_FAULT
  | EXECUTION_SPACE_PROTECTION_FAULT
  | MISALIGNED_INSTRUCTION
  | UNIMPLEMENTED_INSTRUCTION_LENGTH
  | UNIMPLEMENTED_INSTRUCTION
  | UNHANDLED_SYSCALL
  | OUT_OF_MEMORY
  | INVALID_ALIGNMENT
  | DEADLOCK_REACHED
  | MAX_INSTRUCTIONS_REACHED
  | FEATURE_DISABLED
  | INVALID_PROGRAM
  | SYSTEM_CALL_FAILED
  | EXECUTION_LOOP_DETECTED
  | UNKNOWN_EXCEPTION

text \<open>
  A thrown exception carries its type and one data word.  The text message is
  for the log only and is left out.
\<close>

datatype machine_exception = MachineException (exc_type: exceptions) (exc_data: nat)

text \<open>
  A throwing operation on a state \<open>'s\<close> returns the exception or the result,
  together with the state it leaves behind: C++ objects keep the updates made
  before a throw.
\<close>

type_synonym ('a, 's) thrown = "(machine_exception + 'a) \<times> 's"

section \<open>Unsigned arithmetic with explicit wrap-around\<close>

definition add64 :: "nat \<Rightarrow> nat \<Rightarrow> nat" where
  "add64 a b = (a + b) mod 2 ^ 64"

definition sub64 :: "nat \<Rightarrow> nat \<Rightarrow> nat" where
  "sub64 a b = (a + (2 ^ 64 - b mod 2 ^ 64)) mod 2 ^ 64"

definition add32 :: "nat \<Rightarrow> nat \<Rightarrow> nat" where
  "add32 a b = (a + b) mod 2 ^ 32"

definition sub32 :: "nat \<Rightarrow> nat \<Rightarrow> nat" where
  "sub32 a b = (a + (2 ^ 32 - b mod 2 ^ 32)) mod 2 ^ 32"

lemma add64_exact [wrap_simps]: "a + b < 2 ^ 64 \<Longrightarrow> add64 a b = a + b"
  by (simp add: add64_def)

lemma add32_exact [wrap_simps]: "a + b < 2 ^ 32 \<Longrightarrow> add32 a b = a + b"
  by (simp add: add32_def)

lemma sub64_exact [wrap_simps]:
  assumes "b \<le> a" and "a < 2 ^ 64"
  shows "sub64 a b = a - b"
proof -
  have "a + (2 ^ 64 - b mod 2 ^ 64) = (a - b) + 2 ^ 64"
    using assms by simp
  moreover have "((a - b) + 2 ^ 64) mod 2 ^ 64 = a - b"
    using assms by (subst mod_add_self2) simp
  ultimately show ?thesis
    by (simp only: sub64_def)
qed

lemma sub32_exact [wrap_simps]:
  assumes "b \<le> a" and "a < 2 ^ 32"
  shows "sub32 a b = a - b"
proof -
  have "a + (2 ^ 32 - b mod 2 ^ 32) = (a - b) + 2 ^ 32"
    using assms by simp
  moreover have "((a - b) + 2 ^ 32) mod 2 ^ 32 = a - b"
    using assms by (subst mod_add_self2) simp
  ultimately show ?thesis
    by (simp only: sub32_def)
qed

lemma add64_less [simplified, simp]: "add64 a b < 2 ^ 64"
  by (simp add: add64_def)

lemma sub64_less [simplified, simp]: "sub64 a b < 2 ^ 64"
  by (simp add: sub64_def)

text \<open>\<open>x & ~(2^k - 1)\<close> and the rounding \<open>(x + 2^k - 1) & ~(2^k - 1)\<close>.\<close>

definition align_down :: "nat \<Rightarrow> nat \<Rightarrow> nat" where
  "align_down k x = x div 2 ^ k * 2 ^ k"

lemma align_down_le [simp]: "align_down k x \<le> x"
  by (simp add: align_down_def)

lemma align_down_dvd [simp]: "2 ^ k dvd align_down k x"
  by (simp add: align_down_def)

lemma align_down_gt: "x < align_down k x + 2 ^ k"
proof -
  have "x mod 2 ^ k < 2 ^ k"
    by simp
  then show ?thesis
    unfolding align_down_def using div_mult_mod_eq [of x "2 ^ k"] by linarith
qed

lemma align_down_mono: "x \<le> y \<Longrightarrow> align_down k x \<le> align_down k y"
  by (simp add: align_down_def div_le_mono)

section \<open>Sequences of operations\<close>

text \<open>Running a sequence of operations; an operation that throws leaves the state it had reached.\<close>

fun run_ops :: "('op \<Rightarrow> 's \<Rightarrow> ('r, 's) thrown option) \<Rightarrow> 'op list \<Rightarrow> 's \<Rightarrow> 's option" where
  "run_ops step [] s = Some s"
| "run_ops step (x # xs) s = (case step x s of None \<Rightarrow> None | Some (r, s') \<Rightarrow> run_ops step xs s')"

end
