(* ===== verification/Arena.thy ===== *)
theory Arena
  imports Prelude
begin

text \<open>
  The guest heap allocator of \<open>src/src/libriscv/lib/libriscv/native_heap.hpp\<close>.

  The arena keeps its bookkeeping outside the guest: a slab of \<open>ArenaChunk\<close>
  records linked by slab indices into an address-ordered doubly linked list that
  starts at slot 0, a free list of recycled slots threaded through \<open>next\<close>, and a
  hash map from guest addresses to slots.  The C++ vector is a function from
  indices with its length kept in \<open>m_slab_len\<close>; guest addresses are
  \<open>uint32_t\<close> and sizes \<open>size_t\<close>, kept as naturals with the wrap-around of
  each operation written out.  The list walks are \<open>while\<close> loops in the source
  and partial functions here: \<open>None\<close> is a walk that never ends.
\<close>

section \<open>State\<close>

definition NO_CHUNK :: nat where
  "NO_CHUNK = 4294967295"

record ArenaChunk =
  ch_next :: nat
  ch_prev :: nat
  ch_size :: nat
  ch_free :: bool
  ch_data :: nat

record Arena =
  m_chunk_slab :: "nat \<Rightarrow> ArenaChunk"
  m_slab_len :: nat
  m_slab_top :: nat
  m_slab_free :: nat
  m_used_chunk_map :: "nat \<rightharpoonup> nat"
  m_max_chunks :: nat
  m_allocation_counter :: nat
  m_deallocation_counter :: nat

definition default_chunk :: ArenaChunk where
  "default_chunk = \<lparr> ch_next = NO_CHUNK, ch_prev = NO_CHUNK, ch_size = 0, ch_free = False, ch_data = 0 \<rparr>"

definition slab :: "Arena \<Rightarrow> nat \<Rightarrow> ArenaChunk" where
  "slab a idx = m_chunk_slab a idx"

definition slab_upd :: "nat \<Rightarrow> (ArenaChunk \<Rightarrow> ArenaChunk) \<Rightarrow> Arena \<Rightarrow> Arena" where
  "slab_upd idx f a = a\<lparr>m_chunk_slab := (m_chunk_slab a)(idx := f (m_chunk_slab a idx))\<rparr>"

section \<open>Construction\<close>

text \<open>\<open>Arena(PointerType arena_base, PointerType arena_end)\<close>\<close>

definition Arena_ctor :: "nat \<Rightarrow> nat \<Rightarrow> Arena" where
  "Arena_ctor arena_base arena_end =
    \<lparr> m_chunk_slab = (\<lambda>_. default_chunk)
        (0 := \<lparr> ch_next = NO_CHUNK, ch_prev = NO_CHUNK,
               ch_size = sub32 arena_end arena_base, ch_free = True, ch_data = arena_base \<rparr>),
      m_slab_len = 4000,
      m_slab_top = 1,
      m_slab_free = NO_CHUNK,
      m_used_chunk_map = (\<lambda>_. None),
      m_max_chunks = 4000,
      m_allocation_counter = 0,
      m_deallocation_counter = 0 \<rparr>"

definition transfer :: "Arena \<Rightarrow> Arena \<Rightarrow> Arena" where
  "transfer self dest = dest\<lparr>
      m_chunk_slab := m_chunk_slab self,
      m_slab_len := m_slab_len self,
      m_slab_top := m_slab_top self,
      m_slab_free := m_slab_free self,
      m_used_chunk_map := m_used_chunk_map self,
      m_max_chunks := m_max_chunks self,
      m_allocation_counter := m_allocation_counter self,
      m_deallocation_counter := m_deallocation_counter self\<rparr>"

definition set_max_chunks :: "nat \<Rightarrow> Arena \<Rightarrow> Arena" where
  "set_max_chunks new_max a = a\<lparr>m_max_chunks := new_max\<rparr>"

section \<open>Slab management\<close>

definition new_chunk ::
  "nat \<Rightarrow> nat \<Rightarrow> nat \<Rightarrow> bool \<Rightarrow> nat \<Rightarrow> Arena \<Rightarrow> (nat, Arena) thrown" where
  "new_chunk nxt prv sz f d a =
    (let mk = (\<lambda>_. \<lparr> ch_next = nxt, ch_prev = prv, ch_size = sz, ch_free = f, ch_data = d \<rparr>) in
     if m_slab_free a \<noteq> NO_CHUNK then
       let idx = m_slab_free a;
           a1 = a\<lparr>m_slab_free := ch_next (slab a idx)\<rparr>
       in (Inr idx, slab_upd idx mk a1)
     else if m_slab_top a \<ge> m_max_chunks a then
       (Inl (MachineException INVALID_PROGRAM (m_max_chunks a)), a)
     else
       let idx = m_slab_top a;
           a1 = a\<lparr>m_slab_top := add32 (m_slab_top a) 1\<rparr>
       in (Inr idx, slab_upd idx mk a1))"

definition free_chunk :: "nat \<Rightarrow> Arena \<Rightarrow> Arena" where
  "free_chunk idx a =
    (let a1 = slab_upd idx (\<lambda>c. c\<lparr>ch_next := m_slab_free a\<rparr>) a
     in a1\<lparr>m_slab_free := idx\<rparr>)"

section \<open>Lookup\<close>

definition begin_find_used :: "nat \<Rightarrow> Arena \<Rightarrow> nat" where
  "begin_find_used ptr a = (case m_used_chunk_map a ptr of Some idx \<Rightarrow> idx | None \<Rightarrow> NO_CHUNK)"

partial_function (option) find_free_from :: "Arena \<Rightarrow> nat \<Rightarrow> nat \<Rightarrow> nat option" where
  "find_free_from a sz idx =
    (if idx = NO_CHUNK then Some NO_CHUNK
     else if ch_free (slab a idx) \<and> ch_size (slab a idx) \<ge> sz then Some idx
     else find_free_from a sz (ch_next (slab a idx)))"

definition find_free :: "nat \<Rightarrow> Arena \<Rightarrow> nat option" where
  "find_free sz a = find_free_from a sz 0"

section \<open>Chunk operations\<close>

definition merge_next :: "nat \<Rightarrow> Arena \<Rightarrow> Arena" where
  "merge_next idx a =
    (let nidx = ch_next (slab a idx);
         a1 = slab_upd idx (\<lambda>c. c\<lparr>ch_size := add64 (ch_size c) (ch_size (slab a nidx))\<rparr>) a;
         a2 = slab_upd idx (\<lambda>c. c\<lparr>ch_next := ch_next (slab a1 nidx)\<rparr>) a1;
         nn = ch_next (slab a2 idx);
         a3 = (if nn \<noteq> NO_CHUNK then slab_upd nn (\<lambda>c. c\<lparr>ch_prev := idx\<rparr>) a2 else a2)
     in free_chunk nidx a3)"

definition split_next :: "nat \<Rightarrow> nat \<Rightarrow> Arena \<Rightarrow> (unit, Arena) thrown" where
  "split_next idx sz a =
    (if ch_size (slab a idx) > sz then
       (case new_chunk (ch_next (slab a idx)) idx (sub64 (ch_size (slab a idx)) sz) True
               (add32 (ch_data (slab a idx)) (sz mod 2 ^ 32)) a of
          (Inl e, a1) \<Rightarrow> (Inl e, a1)
        | (Inr newIdx, a1) \<Rightarrow>
            let nn = ch_next (slab a1 idx);
                a2 = (if nn \<noteq> NO_CHUNK then slab_upd nn (\<lambda>c. c\<lparr>ch_prev := newIdx\<rparr>) a1 else a1);
                a3 = slab_upd idx (\<lambda>c. c\<lparr>ch_next := newIdx\<rparr>) a2
            in (Inr (), slab_upd idx (\<lambda>c. c\<lparr>ch_size := sz\<rparr>) a3))
     else (Inr (), slab_upd idx (\<lambda>c. c\<lparr>ch_size := sz\<rparr>) a))"

text \<open>The two \<open>assert\<close>s of \<open>subsume_next\<close> are guarded by its only caller, \<open>realloc\<close>.\<close>

definition subsume_next :: "nat \<Rightarrow> nat \<Rightarrow> Arena \<Rightarrow> Arena" where
  "subsume_next idx newlen a =
    (let nidx = ch_next (slab a idx) in
     if add64 (ch_size (slab a idx)) (ch_size (slab a nidx)) < newlen then a
     else
       let subsume = sub64 newlen (ch_size (slab a idx));
           a1 = slab_upd nidx (\<lambda>c. c\<lparr>ch_size := sub64 (ch_size c) subsume\<rparr>) a;
           a2 = slab_upd nidx (\<lambda>c. c\<lparr>ch_data := add32 (ch_data c) (subsume mod 2 ^ 32)\<rparr>) a1;
           a3 = slab_upd idx (\<lambda>c. c\<lparr>ch_size := newlen\<rparr>) a2
       in if ch_size (slab a3 nidx) = 0 then
            let a4 = slab_upd idx (\<lambda>c. c\<lparr>ch_next := ch_next (slab a3 nidx)\<rparr>) a3;
                nn = ch_next (slab a4 idx);
                a5 = (if nn \<noteq> NO_CHUNK then slab_upd nn (\<lambda>c. c\<lparr>ch_prev := idx\<rparr>) a4 else a4)
            in free_chunk nidx a5
          else a3)"

definition internal_free :: "nat \<Rightarrow> Arena \<Rightarrow> Arena" where
  "internal_free idx a =
    (let a1 = a\<lparr>m_deallocation_counter := add32 (m_deallocation_counter a) 1\<rparr>;
         a2 = a1\<lparr>m_used_chunk_map := (m_used_chunk_map a1)(ch_data (slab a1 idx) := None)\<rparr>;
         a3 = slab_upd idx (\<lambda>c. c\<lparr>ch_free := True\<rparr>) a2;
         nx = ch_next (slab a3 idx);
         a4 = (if nx \<noteq> NO_CHUNK \<and> ch_free (slab a3 nx) then merge_next idx a3 else a3);
         pidx = ch_prev (slab a4 idx)
     in if pidx \<noteq> NO_CHUNK \<and> ch_free (slab a4 pidx) then merge_next pidx a4 else a4)"

section \<open>Public allocator operations\<close>

definition word_align :: "nat \<Rightarrow> nat" where
  "word_align sz = align_down 4 (add64 sz 15)"

definition fixup_size :: "nat \<Rightarrow> nat" where
  "fixup_size sz = max 16 (word_align sz)"

text \<open>Marking the chunk used and entering it in the map, the common tail of both allocation paths.\<close>

definition claim_chunk :: "nat \<Rightarrow> Arena \<Rightarrow> (nat, Arena) thrown" where
  "claim_chunk idx a =
    (let a1 = slab_upd idx (\<lambda>c. c\<lparr>ch_free := False\<rparr>) a;
         p = ch_data (slab a1 idx)
     in (Inr p, a1\<lparr>m_used_chunk_map := (m_used_chunk_map a1)(p \<mapsto> idx)\<rparr>))"

definition split_and_claim :: "nat \<Rightarrow> nat \<Rightarrow> Arena \<Rightarrow> (nat, Arena) thrown" where
  "split_and_claim idx len a =
    (case split_next idx len a of
       (Inl e, a1) \<Rightarrow> (Inl e, a1)
     | (Inr _, a1) \<Rightarrow> claim_chunk idx a1)"

definition arena_malloc :: "nat \<Rightarrow> Arena \<Rightarrow> (nat, Arena) thrown option" where
  "arena_malloc sz a =
    (let len = fixup_size sz in
     case find_free len a of
       None \<Rightarrow> None
     | Some idx \<Rightarrow>
         let a1 = a\<lparr>m_allocation_counter := add32 (m_allocation_counter a) 1\<rparr> in
         Some (if idx \<noteq> NO_CHUNK then split_and_claim idx len a1 else (Inr 0, a1)))"

partial_function (option) seq_alloc_loop :: "nat \<Rightarrow> Arena \<Rightarrow> nat \<Rightarrow> (nat, Arena) thrown option" where
  "seq_alloc_loop objectsize a idx0 =
    (case find_free_from a objectsize idx0 of
       None \<Rightarrow> None
     | Some idx \<Rightarrow>
       (if idx = NO_CHUNK then Some (Inr 0, a)
        else
          let ch = slab a idx;
              lastb = sub64 (add64 (ch_data ch) objectsize) 1
          in if align_down 12 (ch_data ch) \<noteq> align_down 12 lastb then
               let boundary = align_down 12 lastb mod 2 ^ 32 in
               if boundary < ch_data ch then Some (Inl (MachineException INVALID_PROGRAM boundary), a)
               else
                 let remaining = sub32 boundary (ch_data ch) in
                 if sub64 (ch_size ch) remaining < objectsize then
                   (if ch_next ch = NO_CHUNK then Some (Inr 0, a)
                    else seq_alloc_loop objectsize a (ch_next ch))
                 else
                   (case split_next idx remaining a of
                      (Inl e, a1) \<Rightarrow> Some (Inl e, a1)
                    | (Inr _, a1) \<Rightarrow> Some (split_and_claim (ch_next (slab a1 idx)) objectsize a1))
             else Some (split_and_claim idx objectsize a)))"

definition seq_alloc_aligned :: "nat \<Rightarrow> nat \<Rightarrow> bool \<Rightarrow> Arena \<Rightarrow> (nat, Arena) thrown option" where
  "seq_alloc_aligned sz alignment arena_is_flat a =
    (if arena_is_flat then arena_malloc sz a
     else
       let objectsize = fixup_size sz;
           a1 = a\<lparr>m_allocation_counter := add32 (m_allocation_counter a) 1\<rparr>
       in if objectsize > 4096 then Some (Inl (MachineException INVALID_PROGRAM objectsize), a1)
          else seq_alloc_loop objectsize a1 0)"

text \<open>
  The callback registered with \<open>on_unknown_realloc\<close> is an argument of
  \<open>realloc\<close>; it may itself allocate from the arena.
\<close>

definition arena_realloc ::
  "(nat \<Rightarrow> nat \<Rightarrow> Arena \<Rightarrow> (nat \<times> nat, Arena) thrown option) \<Rightarrow> nat \<Rightarrow> nat \<Rightarrow> Arena
    \<Rightarrow> (nat \<times> nat, Arena) thrown option" where
  "arena_realloc unknown ptr newsize0 a =
    (if ptr = 0 then
       map_option (\<lambda>(r, a1). (map_sum id (\<lambda>p. (p, 0)) r, a1)) (arena_malloc newsize0 a)
     else
       let idx = begin_find_used ptr a in
       if idx = NO_CHUNK then unknown ptr newsize0 a
       else
         let newsize = fixup_size newsize0 in
         if ch_size (slab a idx) \<ge> newsize then Some (Inr (ch_data (slab a idx), 0), a)
         else
           let old_len = ch_size (slab a idx);
               nx = ch_next (slab a idx);
               a1 = (if nx \<noteq> NO_CHUNK \<and> ch_free (slab a nx) then subsume_next idx newsize a else a)
           in if nx \<noteq> NO_CHUNK \<and> ch_free (slab a nx) \<and> ch_size (slab a1 idx) \<ge> newsize
              then Some (Inr (ch_data (slab a1 idx), 0), a1)
              else
                case arena_malloc newsize a1 of
                  None \<Rightarrow> None
                | Some (Inl e, a2) \<Rightarrow> Some (Inl e, a2)
                | Some (Inr newptr, a2) \<Rightarrow>
                    (if newptr \<noteq> 0 then Some (Inr (newptr, old_len), internal_free idx a2)
                     else Some (Inr (0, 0), a2)))"

definition arena_size :: "nat \<Rightarrow> bool \<Rightarrow> Arena \<Rightarrow> nat" where
  "arena_size ptr allow_free a =
    (let idx = begin_find_used ptr a in
     if idx = NO_CHUNK then 0
     else if ch_free (slab a idx) \<and> \<not> allow_free then 0
     else ch_size (slab a idx))"

text \<open>
  The callback registered with \<open>on_unknown_free\<close> gets the pointer and the chunk
  (or nothing); it does not touch the arena.
\<close>

definition arena_free :: "(nat \<Rightarrow> ArenaChunk option \<Rightarrow> int) \<Rightarrow> nat \<Rightarrow> Arena \<Rightarrow> int \<times> Arena" where
  "arena_free unknown ptr a =
    (let idx = begin_find_used ptr a in
     if idx = NO_CHUNK then (unknown ptr None, a)
     else if ch_free (slab a idx) then (unknown ptr (Some (slab a idx)), a)
     else (0, internal_free idx a))"

text \<open>The default callbacks of a fresh arena.\<close>

definition default_unknown_free :: "nat \<Rightarrow> ArenaChunk option \<Rightarrow> int" where
  "default_unknown_free ptr ch = - 1"

definition default_unknown_realloc :: "nat \<Rightarrow> nat \<Rightarrow> Arena \<Rightarrow> (nat \<times> nat, Arena) thrown option" where
  "default_unknown_realloc ptr newsize a = Some (Inr (0, 0), a)"

section \<open>Walks over the chunk list\<close>

partial_function (option) fold_chunks :: "Arena \<Rightarrow> (ArenaChunk \<Rightarrow> nat \<Rightarrow> nat) \<Rightarrow> nat \<Rightarrow> nat \<Rightarrow> nat option" where
  "fold_chunks a f idx acc =
    (if idx = NO_CHUNK then Some acc
     else fold_chunks a f (ch_next (slab a idx)) (f (slab a idx) acc))"

definition high_watermark :: "Arena \<Rightarrow> nat option" where
  "high_watermark a =
    fold_chunks a (\<lambda>ch hwm. if \<not> ch_free ch then max hwm (add32 (ch_data ch) (ch_size ch mod 2 ^ 32)) else hwm)
      0 (ch_data (slab a 0))"

definition bytes_free :: "Arena \<Rightarrow> nat option" where
  "bytes_free a = fold_chunks a (\<lambda>ch total. if ch_free ch then add64 total (ch_size ch) else total) 0 0"

definition bytes_used :: "Arena \<Rightarrow> nat option" where
  "bytes_used a = fold_chunks a (\<lambda>ch total. if \<not> ch_free ch then add64 total (ch_size ch) else total) 0 0"

definition chunks_used :: "Arena \<Rightarrow> nat" where
  "chunks_used a = m_slab_top a"

end
