(* ===== verification/Arena_Correct.thy ===== *)
theory Arena_Correct
  imports Arena
begin

text \<open>
  Correctness of the guest heap allocator.  The linked slab of \<^verbatim>\<open>Arena\<close> is
  abstracted to the address-ordered list of blocks it stands for: a tiling of
  the arena's address range by blocks that are live or free.  Each operation
  of the code is shown to implement an operation on that list, and the guarantees a
  guest relies on (disjointness, bounds, alignment, conservation of bytes) are
  proved from the tiling.
\<close>

named_theorems arena_frame \<open>chunk-list segments are unaffected by updates elsewhere\<close>

section \<open>Linked segments\<close>

definition hd_or :: "nat \<Rightarrow> nat list \<Rightarrow> nat" where
  "hd_or n xs = (case xs of [] \<Rightarrow> n | x # _ \<Rightarrow> x)"

definition last_or :: "nat \<Rightarrow> nat list \<Rightarrow> nat" where
  "last_or p xs = (if xs = [] then p else last xs)"

lemma hd_or_simps [simp]:
  "hd_or n [] = n" "hd_or n (x # xs) = x" "hd_or n (xs @ ys) = hd_or (hd_or n ys) xs"
  by (auto simp: hd_or_def split: list.splits)

lemma last_or_simps [simp]:
  "last_or p [] = p" "last_or p (x # xs) = last_or x xs" "last_or p (xs @ ys) = last_or (last_or p xs) ys"
  by (auto simp: last_or_def)

text \<open>
  \<open>lseg s p xs n\<close>: the chunks \<open>xs\<close> are linked in this order, the first has
  predecessor \<open>p\<close> and the last has successor \<open>n\<close>.
\<close>

fun lseg :: "(nat \<Rightarrow> ArenaChunk) \<Rightarrow> nat \<Rightarrow> nat list \<Rightarrow> nat \<Rightarrow> bool" where
  "lseg s p [] n \<longleftrightarrow> True"
| "lseg s p (i # is) n \<longleftrightarrow> ch_prev (s i) = p \<and> ch_next (s i) = hd_or n is \<and> lseg s i is n"

text \<open>The list of recycled slots is linked through \<open>next\<close> only.\<close>

fun flist :: "(nat \<Rightarrow> ArenaChunk) \<Rightarrow> nat \<Rightarrow> nat list \<Rightarrow> bool" where
  "flist s h [] \<longleftrightarrow> h = NO_CHUNK"
| "flist s h (i # is) \<longleftrightarrow> h = i \<and> flist s (ch_next (s i)) is"

lemma lseg_append [simp]:
  "lseg s p (xs @ ys) n \<longleftrightarrow> lseg s p xs (hd_or n ys) \<and> lseg s (last_or p xs) ys n"
  by (induction xs arbitrary: p) auto

lemma lseg_cong [arena_frame]:
  "(\<And>j. j \<in> set xs \<Longrightarrow> ch_prev (s' j) = ch_prev (s j) \<and> ch_next (s' j) = ch_next (s j)) \<Longrightarrow>
    lseg s' p xs n \<longleftrightarrow> lseg s p xs n"
  by (induction xs arbitrary: p) auto

lemma flist_cong [arena_frame]:
  "(\<And>j. j \<in> set xs \<Longrightarrow> ch_next (s' j) = ch_next (s j)) \<Longrightarrow> flist s' h xs \<longleftrightarrow> flist s h xs"
  by (induction xs arbitrary: h) auto

lemma lseg_upd_other [simp]: "i \<notin> set xs \<Longrightarrow> lseg (s(i := c)) p xs n \<longleftrightarrow> lseg s p xs n"
  by (rule lseg_cong) auto

lemma flist_upd_other [simp]: "i \<notin> set xs \<Longrightarrow> flist (s(i := c)) h xs \<longleftrightarrow> flist s h xs"
  by (rule flist_cong) auto

text \<open>Linking a new slot behind \<open>i\<close>, and unlinking the slot behind \<open>i\<close>.\<close>

lemma lseg_insert:
  assumes "lseg s p (xs @ i # ys) n" and "distinct (xs @ i # ys)"
    and "ch_prev (s' j) = i" and "ch_next (s' j) = hd_or n ys"
    and "ch_next (s' i) = j" and "ch_prev (s' i) = ch_prev (s i)"
    and "\<And>k. k \<in> set xs \<union> set ys \<Longrightarrow> ch_next (s' k) = ch_next (s k)"
    and "\<And>k. k \<in> set xs \<union> set (tl ys) \<Longrightarrow> ch_prev (s' k) = ch_prev (s k)"
    and "ys \<noteq> [] \<Longrightarrow> ch_prev (s' (hd ys)) = j"
  shows "lseg s' p (xs @ i # j # ys) n"
  using assms by (cases ys) (auto simp: lseg_cong [of _ s' s])

lemma lseg_remove:
  assumes "lseg s p (xs @ i # j # ys) n" and "distinct (xs @ i # ys)"
    and "ch_next (s' i) = hd_or n ys" and "ch_prev (s' i) = ch_prev (s i)"
    and "\<And>k. k \<in> set xs \<union> set ys \<Longrightarrow> ch_next (s' k) = ch_next (s k)"
    and "\<And>k. k \<in> set xs \<union> set (tl ys) \<Longrightarrow> ch_prev (s' k) = ch_prev (s k)"
    and "ys \<noteq> [] \<Longrightarrow> ch_prev (s' (hd ys)) = i"
  shows "lseg s' p (xs @ i # ys) n"
  using assms by (cases ys) (auto simp: lseg_cong [of _ s' s])

section \<open>Blocks\<close>

datatype block = Block (b_addr: nat) (b_size: nat) (b_free: bool)

definition chunk_block :: "ArenaChunk \<Rightarrow> block" where
  "chunk_block c = Block (ch_data c) (ch_size c) (ch_free c)"

lemma chunk_block_sel [simp]:
  "b_addr (chunk_block c) = ch_data c" "b_size (chunk_block c) = ch_size c" "b_free (chunk_block c) = ch_free c"
  by (simp_all add: chunk_block_def)

lemma chunk_block_link [simp]:
  "chunk_block (c\<lparr>ch_next := n\<rparr>) = chunk_block c" "chunk_block (c\<lparr>ch_prev := n\<rparr>) = chunk_block c"
  by (simp_all add: chunk_block_def)

definition blocks :: "(nat \<Rightarrow> ArenaChunk) \<Rightarrow> nat list \<Rightarrow> block list" where
  "blocks s is = map (chunk_block \<circ> s) is"

lemma blocks_simps [simp]:
  "blocks s [] = []" "blocks s (i # is) = chunk_block (s i) # blocks s is"
  "blocks s (xs @ ys) = blocks s xs @ blocks s ys"
  by (simp_all add: blocks_def)

lemma blocks_upd_other [simp]: "i \<notin> set xs \<Longrightarrow> blocks (s(i := c)) xs = blocks s xs"
  by (auto simp: blocks_def)

text \<open>\<open>tiles lo bs hi\<close>: the blocks cover \<open>[lo, hi)\<close> in order, without gaps, none of them empty.\<close>

fun tiles :: "nat \<Rightarrow> block list \<Rightarrow> nat \<Rightarrow> bool" where
  "tiles lo [] hi \<longleftrightarrow> lo = hi"
| "tiles lo (b # bs) hi \<longleftrightarrow> b_addr b = lo \<and> 0 < b_size b \<and> tiles (lo + b_size b) bs hi"

lemma tiles_le: "tiles lo bs hi \<Longrightarrow> lo \<le> hi"
  by (induction bs arbitrary: lo) fastforce+

lemma tiles_append: "tiles lo (xs @ ys) hi \<longleftrightarrow> (\<exists>mid. tiles lo xs mid \<and> tiles mid ys hi)"
  by (induction xs arbitrary: lo) auto

lemma tiles_mem:
  "tiles lo bs hi \<Longrightarrow> b \<in> set bs \<Longrightarrow> lo \<le> b_addr b \<and> 0 < b_size b \<and> b_addr b + b_size b \<le> hi"
proof (induction bs arbitrary: lo)
  case (Cons c bs)
  then show ?case
    using tiles_le [of "lo + b_size c" bs hi] by fastforce
qed simp

lemma tiles_sum: "tiles lo bs hi \<Longrightarrow> lo + sum_list (map b_size bs) = hi"
  by (induction bs arbitrary: lo) fastforce+

text \<open>Different blocks of a tiling occupy disjoint ranges.\<close>

definition b_range :: "block \<Rightarrow> nat set" where
  "b_range b = {b_addr b ..< b_addr b + b_size b}"

lemma tiles_disjoint:
  assumes "tiles lo bs hi" and "b \<in> set bs" and "c \<in> set bs" and "b \<noteq> c"
  shows "b_range b \<inter> b_range c = {}"
  using assms
proof (induction bs arbitrary: lo)
  case (Cons d bs)
  then show ?case
    using tiles_mem [of "lo + b_size d" bs hi] by (fastforce simp: b_range_def)
qed simp

lemma tiles_addr_inj:
  "tiles lo bs hi \<Longrightarrow> b \<in> set bs \<Longrightarrow> c \<in> set bs \<Longrightarrow> b_addr b = b_addr c \<Longrightarrow> b = c"
  using tiles_disjoint [of lo bs hi b c] tiles_mem [of lo bs hi b] tiles_mem [of lo bs hi c]
  by (force simp: b_range_def)

lemma tiles_distinct: "tiles lo bs hi \<Longrightarrow> distinct (map b_addr bs)"
proof (induction bs arbitrary: lo)
  case (Cons d bs)
  then show ?case
    using tiles_mem [of "lo + b_size d" bs hi] by fastforce
qed simp

lemma tiles_other_addr:
  assumes "tiles lo (xs @ b # ys) hi" and "c \<in> set xs \<union> set ys"
  shows "b_addr c \<noteq> b_addr b"
proof -
  have "b_addr b \<notin> b_addr ` (set xs \<union> set ys)"
    using tiles_distinct [OF assms(1)] by auto
  then show ?thesis
    using assms(2) by (metis image_eqI)
qed

section \<open>Representation invariant\<close>

text \<open>
  \<open>arena_shape a is fl\<close>: \<open>is\<close> are the slots of the address-ordered list, which starts at
  slot 0, and \<open>fl\<close> those of the recycling list.  Together they are all the slots
  handed out, none of them twice, and all lie inside the slab vector.
\<close>

definition arena_shape :: "Arena \<Rightarrow> nat list \<Rightarrow> nat list \<Rightarrow> bool" where
  "arena_shape a is fl \<longleftrightarrow>
     lseg (m_chunk_slab a) NO_CHUNK is NO_CHUNK \<and> flist (m_chunk_slab a) (m_slab_free a) fl \<and>
     distinct (is @ fl) \<and> set (is @ fl) = {..< m_slab_top a} \<and> is \<noteq> [] \<and> hd is = 0 \<and>
     m_slab_top a \<le> m_slab_len a \<and> m_max_chunks a \<le> m_slab_len a \<and> m_slab_len a < NO_CHUNK"

definition used_map_ok :: "Arena \<Rightarrow> nat list \<Rightarrow> bool" where
  "used_map_ok a is \<longleftrightarrow>
     (\<forall>p i. m_used_chunk_map a p = Some i \<longleftrightarrow>
        i \<in> set is \<and> \<not> ch_free (m_chunk_slab a i) \<and> ch_data (m_chunk_slab a i) = p)"

definition arena_rel :: "nat \<Rightarrow> nat \<Rightarrow> Arena \<Rightarrow> nat list \<Rightarrow> nat list \<Rightarrow> bool" where
  "arena_rel base lim a is fl \<longleftrightarrow>
     arena_shape a is fl \<and> used_map_ok a is \<and>
     tiles base (blocks (m_chunk_slab a) is) lim \<and>
     (\<forall>i \<in> set is. 16 dvd ch_data (m_chunk_slab a i)) \<and> 0 < base \<and> lim < 2 ^ 32"

lemma shape_not_NO_CHUNK:
  "arena_shape a is fl \<Longrightarrow> i \<in> set is \<union> set fl \<Longrightarrow> i \<noteq> NO_CHUNK"
  unfolding arena_shape_def by (metis lessThan_iff not_less_iff_gr_or_eq order_le_less_trans set_append)

lemma shape_NO_CHUNK_notin: "arena_shape a is fl \<Longrightarrow> NO_CHUNK \<notin> set is \<and> NO_CHUNK \<notin> set fl"
  using shape_not_NO_CHUNK by blast

lemma shapeD:
  assumes "arena_shape a is fl"
  shows "lseg (m_chunk_slab a) NO_CHUNK is NO_CHUNK" and "flist (m_chunk_slab a) (m_slab_free a) fl"
    and "distinct (is @ fl)" and "set (is @ fl) = {..< m_slab_top a}" and "is \<noteq> []" and "hd is = 0"
    and "m_slab_top a \<le> m_slab_len a" and "m_max_chunks a \<le> m_slab_len a" and "m_slab_len a < NO_CHUNK"
  using assms by (simp_all add: arena_shape_def)

lemma shape_distinct: "arena_shape a is fl \<Longrightarrow> distinct is"
  by (simp add: arena_shape_def)

lemma flist_NO_CHUNK: "flist s h fl \<Longrightarrow> NO_CHUNK \<notin> set fl \<Longrightarrow> h \<noteq> NO_CHUNK \<longleftrightarrow> fl \<noteq> []"
  by (cases fl) auto

section \<open>Slab primitives\<close>

lemma new_chunk_cases:
  assumes sh: "arena_shape a is fl"
  obtains (full) "new_chunk n p sz f d a = (Inl (MachineException INVALID_PROGRAM (m_max_chunks a)), a)"
      and "fl = []" and "m_max_chunks a \<le> m_slab_top a"
    | (fresh) j a' fl' where "new_chunk n p sz f d a = (Inr j, a')"
      and "m_chunk_slab a' = (m_chunk_slab a)
             (j := \<lparr> ch_next = n, ch_prev = p, ch_size = sz, ch_free = f, ch_data = d \<rparr>)"
      and "j \<notin> set is" and "j \<notin> set fl'" and "distinct (is @ fl')" and "j \<noteq> NO_CHUNK"
      and "flist (m_chunk_slab a') (m_slab_free a') fl'"
      and "insert j (set (is @ fl')) = {..< m_slab_top a'}"
      and "m_slab_top a' \<le> m_slab_len a'" and "m_slab_len a' = m_slab_len a"
      and "m_max_chunks a' = m_max_chunks a" and "m_used_chunk_map a' = m_used_chunk_map a"
proof (cases fl)
  case Nil
  then have free: "m_slab_free a = NO_CHUNK"
    using sh by (simp add: arena_shape_def)
  show ?thesis
  proof (cases "m_max_chunks a \<le> m_slab_top a")
    case True
    then show ?thesis
      using full Nil free by (simp add: new_chunk_def)
  next
    case False
    let ?j = "m_slab_top a"
    let ?a' = "slab_upd ?j (\<lambda>_. \<lparr> ch_next = n, ch_prev = p, ch_size = sz, ch_free = f, ch_data = d \<rparr>)
                 (a\<lparr>m_slab_top := ?j + 1\<rparr>)"
    have lt: "?j + 1 < 2 ^ 32" "?j \<noteq> NO_CHUNK"
      using sh False by (simp_all add: arena_shape_def NO_CHUNK_def)
    show ?thesis
    proof (rule fresh)
      show "new_chunk n p sz f d a = (Inr ?j, ?a')"
        using free False lt by (simp add: new_chunk_def Let_def add32_exact)
      show "insert ?j (set (is @ [])) = {..< m_slab_top ?a'}"
        using sh Nil by (simp add: arena_shape_def slab_upd_def lessThan_Suc)
    qed (use sh Nil free False lt in \<open>simp_all add: arena_shape_def slab_upd_def\<close>)
  qed
next
  case (Cons j fl')
  let ?a' = "slab_upd j (\<lambda>_. \<lparr> ch_next = n, ch_prev = p, ch_size = sz, ch_free = f, ch_data = d \<rparr>)
               (a\<lparr>m_slab_free := ch_next (m_chunk_slab a j)\<rparr>)"
  have free: "m_slab_free a = j"
    using sh Cons by (simp add: arena_shape_def)
  have nn: "j \<noteq> NO_CHUNK"
    using shape_not_NO_CHUNK [OF sh, of j] Cons by simp
  show ?thesis
  proof (rule fresh)
    show "new_chunk n p sz f d a = (Inr j, ?a')"
      using free nn by (simp add: new_chunk_def Let_def slab_def)
    show "j \<notin> set fl'"
      using sh Cons by (simp add: arena_shape_def)
  qed (use sh Cons free nn in \<open>simp_all add: arena_shape_def slab_upd_def\<close>)
qed

lemma slab_upd_id: "f (m_chunk_slab a i) = m_chunk_slab a i \<Longrightarrow> slab_upd i f a = a"
  by (simp add: slab_upd_def)

section \<open>Splitting and claiming a chunk\<close>

text \<open>Splitting inserts one slot behind the chunk; every other chunk keeps its block.\<close>

lemma split_next_cases:
  assumes sh: "arena_shape a (xs @ i # ys) fl"
    and n: "n < ch_size (m_chunk_slab a i)"
    and sz: "ch_size (m_chunk_slab a i) < 2 ^ 64"
    and d: "ch_data (m_chunk_slab a i) + n < 2 ^ 32"
  obtains (full) "split_next i n a = (Inl (MachineException INVALID_PROGRAM (m_max_chunks a)), a)"
      and "fl = []" and "m_max_chunks a \<le> m_slab_top a"
    | (split) j a' fl' where "split_next i n a = (Inr (), a')"
      and "arena_shape a' (xs @ i # j # ys) fl'"
      and "chunk_block (m_chunk_slab a' i) = Block (ch_data (m_chunk_slab a i)) n (ch_free (m_chunk_slab a i))"
      and "chunk_block (m_chunk_slab a' j) =
             Block (ch_data (m_chunk_slab a i) + n) (ch_size (m_chunk_slab a i) - n) True"
      and "\<And>k. k \<in> set (xs @ ys) \<Longrightarrow> chunk_block (m_chunk_slab a' k) = chunk_block (m_chunk_slab a k)"
      and "m_used_chunk_map a' = m_used_chunk_map a"
proof -
  let ?s = "m_chunk_slab a"
  have dn: "add32 (ch_data (?s i)) (n mod 4294967296) = ch_data (?s i) + n"
    using d by (simp add: add32_exact)
  have sn: "sub64 (ch_size (?s i)) n = ch_size (?s i) - n"
    using n sz by (simp add: sub64_exact)
  have next_i: "ch_next (?s i) = hd_or NO_CHUNK ys"
    using sh by (simp add: arena_shape_def)
  show ?thesis
    using sh
  proof (cases rule: new_chunk_cases [where n = "hd_or NO_CHUNK ys" and p = i and sz = "ch_size (?s i) - n"
        and f = True and d = "ch_data (?s i) + n"])
    case full
    then show ?thesis
      using that(1) n by (simp add: split_next_def slab_def dn sn next_i)
  next
    case (fresh j a1 fl')
    define a' where "a' = slab_upd i (\<lambda>c. c\<lparr>ch_size := n\<rparr>) (slab_upd i (\<lambda>c. c\<lparr>ch_next := j\<rparr>)
      (if hd_or NO_CHUNK ys \<noteq> NO_CHUNK
       then slab_upd (hd_or NO_CHUNK ys) (\<lambda>c. c\<lparr>ch_prev := j\<rparr>) a1 else a1))"
    have ij: "i \<noteq> j" and ii: "i \<noteq> NO_CHUNK" and yn: "NO_CHUNK \<notin> set ys"
      using fresh(3) shape_NO_CHUNK_notin [OF sh] by auto
    have eq: "split_next i n a = (Inr (), a')"
      using n ij by (simp add: split_next_def slab_def dn sn next_i fresh(1,2) Let_def a'_def)
    have dist: "distinct (xs @ i # ys)" "j \<notin> set (xs @ i # ys)"
      using sh fresh(3) by (auto simp: arena_shape_def)
    have tl: "k \<in> set (tl ys) \<Longrightarrow> ys \<noteq> [] \<and> k \<noteq> hd ys \<and> k \<in> set ys" for k
      using dist by (cases ys) auto
    have sl: "m_chunk_slab a' k = (if k = i then (m_chunk_slab a i)\<lparr>ch_next := j, ch_size := n\<rparr>
        else if k = j then m_chunk_slab a1 j
        else if ys \<noteq> [] \<and> k = hd ys then (m_chunk_slab a k)\<lparr>ch_prev := j\<rparr>
        else m_chunk_slab a k)" for k
      using yn ij dist by (cases ys) (auto simp: slab_upd_def fresh(2) a'_def)
    have seg: "lseg (m_chunk_slab a') NO_CHUNK (xs @ i # j # ys) NO_CHUNK"
    proof (rule lseg_insert)
      show "lseg ?s NO_CHUNK (xs @ i # ys) NO_CHUNK"
        using sh by (simp add: arena_shape_def)
    qed (use dist ij tl in \<open>auto simp: sl fresh(2)\<close>)
    have meta: "m_slab_free a' = m_slab_free a1" "m_slab_top a' = m_slab_top a1" "m_slab_len a' = m_slab_len a1"
      "m_max_chunks a' = m_max_chunks a1" "m_used_chunk_map a' = m_used_chunk_map a1"
      by (simp_all add: slab_upd_def a'_def)
    have fl: "flist (m_chunk_slab a') (m_slab_free a1) fl' \<longleftrightarrow> flist (m_chunk_slab a1) (m_slab_free a1) fl'"
      using fresh(4,5) by (intro flist_cong) (auto simp: sl fresh(2))
    have sh': "arena_shape a' (xs @ i # j # ys) fl'"
      unfolding arena_shape_def meta fl using seg fresh(3-11) sh by (auto simp: arena_shape_def hd_append)
    show ?thesis
      using eq sh'
    proof (rule that(2))
      show "chunk_block (m_chunk_slab a' k) = chunk_block (?s k)" if "k \<in> set (xs @ ys)" for k
        using that dist by (auto simp: sl)
    qed (use ij meta fresh(2,12) in \<open>simp_all add: sl chunk_block_def\<close>)
  qed
qed

text \<open>What an allocation does to the tiling: first fit, and the rest of the block stays free.\<close>

definition carve :: "nat \<Rightarrow> block \<Rightarrow> block list" where
  "carve n b = Block (b_addr b) n False #
     (if n < b_size b then [Block (b_addr b + n) (b_size b - n) True] else [])"

fun spec_alloc :: "nat \<Rightarrow> block list \<Rightarrow> (nat \<times> block list) option" where
  "spec_alloc n [] = None"
| "spec_alloc n (b # bs) =
    (if b_free b \<and> n \<le> b_size b then Some (b_addr b, carve n b @ bs)
     else map_option (apsnd (Cons b)) (spec_alloc n bs))"

lemma spec_alloc_split:
  "spec_alloc n bs = Some (p, bs') \<Longrightarrow>
    \<exists>xs b ys. bs = xs @ b # ys \<and> b_free b \<and> n \<le> b_size b \<and> p = b_addr b \<and> bs' = xs @ carve n b @ ys"
proof (induction bs arbitrary: bs')
  case (Cons c bs)
  show ?case
  proof (cases "b_free c \<and> n \<le> b_size c")
    case True
    then show ?thesis
      using Cons.prems by (metis append_Nil option.inject prod.inject spec_alloc.simps(2))
  next
    case False
    then obtain r where "spec_alloc n bs = Some (p, r)" "bs' = c # r"
      using Cons.prems by auto
    then show ?thesis
      using Cons.IH by (metis append_Cons)
  qed
qed simp

lemma spec_alloc_None: "spec_alloc n bs = None \<longleftrightarrow> (\<forall>b \<in> set bs. b_free b \<longrightarrow> b_size b < n)"
  by (induction bs) auto

lemma tiles_carve:
  assumes "0 < n" and "n \<le> b_size b"
  shows "tiles lo (carve n b @ bs) hi \<longleftrightarrow> tiles lo (b # bs) hi"
  using assms by (auto simp: carve_def)

lemma relD:
  assumes "arena_rel base lim a is fl"
  shows "arena_shape a is fl" and "used_map_ok a is" and "tiles base (blocks (m_chunk_slab a) is) lim"
    and "\<And>i. i \<in> set is \<Longrightarrow> 16 dvd ch_data (m_chunk_slab a i)" and "0 < base" and "lim < 2 ^ 32"
  using assms by (auto simp: arena_rel_def)

lemma rel_chunk_bounds:
  assumes "arena_rel base lim a is fl" and "i \<in> set is"
  shows "base \<le> ch_data (m_chunk_slab a i)" and "0 < ch_size (m_chunk_slab a i)"
    and "ch_data (m_chunk_slab a i) + ch_size (m_chunk_slab a i) \<le> lim"
    and "ch_size (m_chunk_slab a i) < 2 ^ 32" and "ch_size (m_chunk_slab a i) < 2 ^ 64"
proof -
  have "chunk_block (m_chunk_slab a i) \<in> set (blocks (m_chunk_slab a) is)"
    using assms(2) by (simp add: blocks_def)
  then show b: "base \<le> ch_data (m_chunk_slab a i)" "0 < ch_size (m_chunk_slab a i)"
    "ch_data (m_chunk_slab a i) + ch_size (m_chunk_slab a i) \<le> lim"
    using tiles_mem [OF relD(3) [OF assms(1)]] by fastforce+
  then show "ch_size (m_chunk_slab a i) < 2 ^ 32" "ch_size (m_chunk_slab a i) < 2 ^ 64"
    using relD(6) [OF assms(1)] by simp_all
qed

lemma rel_data_inj:
  assumes "tiles base (blocks s is) lim" and "distinct is" and "i \<in> set is" and "j \<in> set is" and "ch_data (s i) = ch_data (s j)"
  shows "i = j"
proof -
  have "distinct (map (ch_data \<circ> s) is)"
    using tiles_distinct [OF assms(1)] by (simp add: blocks_def comp_def)
  then show ?thesis
    using assms by (auto simp: distinct_map inj_on_def)
qed

text \<open>The map of live addresses is determined by the chunk list: it needs to be right at the slots that changed.\<close>

lemma used_map_okI:
  assumes "tiles base (blocks (m_chunk_slab a') is') lim" and "distinct is'"
    and "\<And>i. i \<in> set is' \<Longrightarrow> \<not> ch_free (m_chunk_slab a' i) \<Longrightarrow>
           m_used_chunk_map a' (ch_data (m_chunk_slab a' i)) = Some i"
    and "\<And>p i. m_used_chunk_map a' p = Some i \<Longrightarrow>
           i \<in> set is' \<and> \<not> ch_free (m_chunk_slab a' i) \<and> ch_data (m_chunk_slab a' i) = p"
  shows "used_map_ok a' is'"
  using assms unfolding used_map_ok_def by blast

lemma find_free_from_correct:
  assumes "lseg (m_chunk_slab a) p ys NO_CHUNK" and "NO_CHUNK \<notin> set ys"
  shows "find_free_from a n (hd_or NO_CHUNK ys) =
    Some (case List.find (\<lambda>i. ch_free (m_chunk_slab a i) \<and> n \<le> ch_size (m_chunk_slab a i)) ys of
            None \<Rightarrow> NO_CHUNK | Some i \<Rightarrow> i)"
  using assms
proof (induction ys arbitrary: p)
  case Nil
  then show ?case
    by (subst find_free_from.simps) simp
next
  case (Cons i ys)
  then show ?case
    by (subst find_free_from.simps) (auto simp: slab_def)
qed

text \<open>
  Claiming a free chunk that already has the right size, and splitting a free
  chunk in two free ones, both keep the invariant.
\<close>

lemma claim_chunk_rel:
  assumes rel: "arena_rel base lim a is fl" and i: "i \<in> set is" and free: "ch_free (m_chunk_slab a i)"
  obtains a' where "claim_chunk i a = (Inr (ch_data (m_chunk_slab a i)), a')"
    and "arena_rel base lim a' is fl"
    and "\<And>k. m_chunk_slab a' k = (if k = i then (m_chunk_slab a i)\<lparr>ch_free := False\<rparr> else m_chunk_slab a k)"
proof -
  define a' where "a' = (slab_upd i (\<lambda>c. c\<lparr>ch_free := False\<rparr>) a)
    \<lparr>m_used_chunk_map := (m_used_chunk_map a)(ch_data (m_chunk_slab a i) \<mapsto> i)\<rparr>"
  have sl: "m_chunk_slab a' k = (if k = i then (m_chunk_slab a i)\<lparr>ch_free := False\<rparr> else m_chunk_slab a k)" for k
    by (simp add: a'_def slab_upd_def)
  have eq: "claim_chunk i a = (Inr (ch_data (m_chunk_slab a i)), a')"
    by (simp add: claim_chunk_def a'_def slab_upd_def slab_def Let_def)
  have "lseg (m_chunk_slab a') NO_CHUNK is NO_CHUNK = lseg (m_chunk_slab a) NO_CHUNK is NO_CHUNK"
    by (rule lseg_cong) (simp add: sl)
  moreover have "flist (m_chunk_slab a') (m_slab_free a) fl = flist (m_chunk_slab a) (m_slab_free a) fl"
    by (rule flist_cong) (simp add: sl)
  ultimately have sh: "arena_shape a' is fl"
    using relD(1) [OF rel] by (simp add: arena_shape_def a'_def slab_upd_def)
  have til: "tiles lo (blocks (m_chunk_slab a') js) lim = tiles lo (blocks (m_chunk_slab a) js) lim" for lo js
    by (induction js arbitrary: lo) (auto simp: sl)
  have dist: "distinct is"
    using relD(1) [OF rel] by (simp add: arena_shape_def)
  have um: "m_used_chunk_map a' = (m_used_chunk_map a)(ch_data (m_chunk_slab a i) \<mapsto> i)"
    by (simp add: a'_def)
  have ok: "used_map_ok a is"
    by (rule relD(2) [OF rel])
  have "used_map_ok a' is"
  proof (rule used_map_okI)
    show "tiles base (blocks (m_chunk_slab a') is) lim"
      using relD(3) [OF rel] by (simp add: til)
    fix k assume k: "k \<in> set is" "\<not> ch_free (m_chunk_slab a' k)"
    show "m_used_chunk_map a' (ch_data (m_chunk_slab a' k)) = Some k"
      using k ok rel_data_inj [OF relD(3) [OF rel] dist k(1) i] by (auto simp: um sl used_map_ok_def)
  next
    fix p k assume k: "m_used_chunk_map a' p = Some k"
    show "k \<in> set is \<and> \<not> ch_free (m_chunk_slab a' k) \<and> ch_data (m_chunk_slab a' k) = p"
      using k ok i by (auto simp: um sl used_map_ok_def split: if_splits)
  qed (rule dist)
  then have "arena_rel base lim a' is fl"
    using rel sh by (auto simp: arena_rel_def til sl)
  then show ?thesis
    using that eq sl by blast
qed

lemma split_next_rel:
  assumes rel: "arena_rel base lim a (xs @ i # ys) fl" and free: "ch_free (m_chunk_slab a i)"
    and n: "0 < n" "n < ch_size (m_chunk_slab a i)" "16 dvd n"
  obtains (full) "split_next i n a = (Inl (MachineException INVALID_PROGRAM (m_max_chunks a)), a)"
      and "fl = []" and "m_max_chunks a \<le> m_slab_top a"
    | (split) j a' fl' where "split_next i n a = (Inr (), a')"
      and "arena_rel base lim a' (xs @ i # j # ys) fl'"
      and "chunk_block (m_chunk_slab a' i) = Block (ch_data (m_chunk_slab a i)) n True"
      and "chunk_block (m_chunk_slab a' j) =
             Block (ch_data (m_chunk_slab a i) + n) (ch_size (m_chunk_slab a i) - n) True"
      and "blocks (m_chunk_slab a') xs = blocks (m_chunk_slab a) xs"
      and "blocks (m_chunk_slab a') ys = blocks (m_chunk_slab a) ys"
proof -
  let ?s = "m_chunk_slab a"
  have bd: "ch_size (?s i) < 2 ^ 64" "ch_data (?s i) + n < 2 ^ 32"
    using rel_chunk_bounds [OF rel, of i] n relD(6) [OF rel] by simp_all
  show ?thesis
  proof (cases rule: split_next_cases [OF relD(1) [OF rel] n(2) bd])
    case 1
    then show ?thesis
      by (rule full)
  next
    case (2 j a' fl')
    have dist: "distinct (xs @ i # j # ys)"
      by (rule shape_distinct [OF 2(2)])
    have bl: "blocks (m_chunk_slab a') xs = blocks ?s xs" "blocks (m_chunk_slab a') ys = blocks ?s ys"
      using 2(5) by (simp_all add: blocks_def)
    have til: "tiles base (blocks (m_chunk_slab a') (xs @ i # j # ys)) lim"
      using relD(3) [OF rel] n by (simp add: bl 2(3,4) tiles_append)
    have ij: "ch_data (m_chunk_slab a' i) = ch_data (?s i)" "ch_free (m_chunk_slab a' i)"
      "ch_data (m_chunk_slab a' j) = ch_data (?s i) + n" "ch_free (m_chunk_slab a' j)"
      using 2(3,4) free by (simp_all add: chunk_block_def)
    have oth: "ch_data (m_chunk_slab a' k) = ch_data (?s k)" "ch_free (m_chunk_slab a' k) = ch_free (?s k)"
      if "k \<in> set xs \<union> set ys" for k
      using 2(5) [of k] that by (auto simp: chunk_block_def)
    have "used_map_ok a' (xs @ i # j # ys)"
    proof (rule used_map_okI [OF til dist])
      fix k assume "k \<in> set (xs @ i # j # ys)" "\<not> ch_free (m_chunk_slab a' k)"
      then show "m_used_chunk_map a' (ch_data (m_chunk_slab a' k)) = Some k"
        using relD(2) [OF rel] ij oth [of k] by (auto simp: used_map_ok_def 2(6))
    next
      fix p k assume "m_used_chunk_map a' p = Some k"
      then have "k \<in> set (xs @ i # ys) \<and> \<not> ch_free (?s k) \<and> ch_data (?s k) = p"
        using relD(2) [OF rel] by (simp add: used_map_ok_def 2(6))
      then show "k \<in> set (xs @ i # j # ys) \<and> \<not> ch_free (m_chunk_slab a' k) \<and> ch_data (m_chunk_slab a' k) = p"
        using free oth [of k] by auto
    qed
    moreover have "16 dvd ch_data (m_chunk_slab a' k)" if "k \<in> set (xs @ i # j # ys)" for k
      using that ij oth [of k] n(3) relD(4) [OF rel, of k] relD(4) [OF rel, of i] by auto
    ultimately have "arena_rel base lim a' (xs @ i # j # ys) fl'"
      using rel 2(2) til by (auto simp: arena_rel_def)
    then show ?thesis
      using split 2(1,3,4) free bl by simp
  qed
qed

lemma split_and_claim_rel:
  assumes rel: "arena_rel base lim a (xs @ i # ys) fl" and free: "ch_free (m_chunk_slab a i)"
    and n: "0 < n" "n \<le> ch_size (m_chunk_slab a i)" "16 dvd n"
  obtains (full) "split_and_claim i n a = (Inl (MachineException INVALID_PROGRAM (m_max_chunks a)), a)"
      and "fl = []" and "m_max_chunks a \<le> m_slab_top a"
    | (claimed) a' is' fl' where "split_and_claim i n a = (Inr (ch_data (m_chunk_slab a i)), a')"
      and "arena_rel base lim a' is' fl'"
      and "blocks (m_chunk_slab a') is' = blocks (m_chunk_slab a) xs @
             carve n (chunk_block (m_chunk_slab a i)) @ blocks (m_chunk_slab a) ys"
proof (cases "n < ch_size (m_chunk_slab a i)")
  case True
  show ?thesis
  proof (cases rule: split_next_rel [OF rel free n(1) True n(3)])
    case 1
    then show ?thesis
      using full by (simp add: split_and_claim_def)
  next
    case (2 j a1 fl1)
    have i1: "ch_free (m_chunk_slab a1 i)" "ch_data (m_chunk_slab a1 i) = ch_data (m_chunk_slab a i)"
      "ch_size (m_chunk_slab a1 i) = n"
      using 2(3) by (simp_all add: chunk_block_def)
    have im: "i \<in> set (xs @ i # j # ys)"
      by simp
    have dist: "i \<notin> set xs" "i \<notin> set ys" "i \<noteq> j"
      using shape_distinct [OF relD(1) [OF 2(2)]] by auto
    obtain a' where c: "claim_chunk i a1 = (Inr (ch_data (m_chunk_slab a i)), a')"
      "arena_rel base lim a' (xs @ i # j # ys) fl1"
      "\<And>k. m_chunk_slab a' k = (if k = i then (m_chunk_slab a1 i)\<lparr>ch_free := False\<rparr> else m_chunk_slab a1 k)"
      using claim_chunk_rel [OF 2(2) im i1(1)] i1(2) by metis
    have "blocks (m_chunk_slab a') zs = blocks (m_chunk_slab a1) zs" if "i \<notin> set zs" for zs
      using that by (auto simp: blocks_def c(3))
    then have "blocks (m_chunk_slab a') (xs @ i # j # ys) = blocks (m_chunk_slab a) xs @
             carve n (chunk_block (m_chunk_slab a i)) @ blocks (m_chunk_slab a) ys"
      using dist True 2(3-6) by (simp add: c(3) carve_def chunk_block_def)
    then show ?thesis
      using claimed c(1,2) 2(1) by (simp add: split_and_claim_def)
  qed
next
  case False
  then have sz: "ch_size (m_chunk_slab a i) = n"
    using n(2) by simp
  have up: "split_next i n a = (Inr (), a)"
    using sz by (simp add: split_next_def slab_def slab_upd_id)
  have im: "i \<in> set (xs @ i # ys)"
    by simp
  have dist: "i \<notin> set xs" "i \<notin> set ys"
    using shape_distinct [OF relD(1) [OF rel]] by auto
  obtain a' where c: "claim_chunk i a = (Inr (ch_data (m_chunk_slab a i)), a')"
    "arena_rel base lim a' (xs @ i # ys) fl"
    "\<And>k. m_chunk_slab a' k = (if k = i then (m_chunk_slab a i)\<lparr>ch_free := False\<rparr> else m_chunk_slab a k)"
    using claim_chunk_rel [OF rel im free] by metis
  have "blocks (m_chunk_slab a') zs = blocks (m_chunk_slab a) zs" if "i \<notin> set zs" for zs
    using that by (auto simp: blocks_def c(3))
  then have "blocks (m_chunk_slab a') (xs @ i # ys) = blocks (m_chunk_slab a) xs @
             carve n (chunk_block (m_chunk_slab a i)) @ blocks (m_chunk_slab a) ys"
    using dist sz by (simp add: c(3) carve_def chunk_block_def)
  then show ?thesis
    using claimed c(1,2) up by (simp add: split_and_claim_def)
qed

section \<open>Allocation\<close>

lemma fixup_size_props: "0 < fixup_size n" "16 dvd fixup_size n" "16 \<le> fixup_size n"
proof -
  have "16 dvd word_align n"
    using align_down_dvd [of 4] by (simp add: word_align_def)
  then show "16 dvd fixup_size n"
    by (simp add: fixup_size_def max_def)
qed (simp_all add: fixup_size_def)

lemma fixup_size_ge: "n + 15 < 2 ^ 64 \<Longrightarrow> n \<le> fixup_size n"
  using align_down_gt [of "n + 15" 4] by (simp add: fixup_size_def word_align_def add64_exact)

lemma fixup_size_less: "n + 15 < 2 ^ 64 \<Longrightarrow> fixup_size n \<le> n + 16"
  by (simp add: fixup_size_def word_align_def add64_exact order_trans [OF align_down_le])

lemma rel_counter:
  "arena_rel base lim (a\<lparr>m_allocation_counter := k\<rparr>) is fl \<longleftrightarrow> arena_rel base lim a is fl"
  "arena_rel base lim (a\<lparr>m_deallocation_counter := k\<rparr>) is fl \<longleftrightarrow> arena_rel base lim a is fl"
  by (simp_all add: arena_rel_def arena_shape_def used_map_ok_def)

lemma find_split_blocks:
  "List.find (\<lambda>i. ch_free (s i) \<and> n \<le> ch_size (s i)) is = Some i \<Longrightarrow>
    \<exists>xs ys. is = xs @ i # ys \<and> ch_free (s i) \<and> n \<le> ch_size (s i) \<and>
      spec_alloc n (blocks s is) = Some (ch_data (s i), blocks s xs @ carve n (chunk_block (s i)) @ blocks s ys)"
proof (induction "is")
  case (Cons k ks)
  show ?case
  proof (cases "ch_free (s k) \<and> n \<le> ch_size (s k)")
    case True
    then show ?thesis
      using Cons.prems by (intro exI [of _ "[]"] exI [of _ ks]) auto
  next
    case False
    then obtain xs ys where "ks = xs @ i # ys" "ch_free (s i) \<and> n \<le> ch_size (s i)"
      "spec_alloc n (blocks s ks) = Some (ch_data (s i), blocks s xs @ carve n (chunk_block (s i)) @ blocks s ys)"
      using Cons by auto
    then show ?thesis
      using False by (intro exI [of _ "k # xs"] exI [of _ ys]) auto
  qed
qed simp

lemma find_None_blocks:
  "List.find (\<lambda>i. ch_free (s i) \<and> n \<le> ch_size (s i)) is = None \<Longrightarrow> spec_alloc n (blocks s is) = None"
  by (induction "is") (auto split: if_splits)

text \<open>
  \<open>malloc\<close> implements first-fit allocation on the tiling.  It throws only when
  a split is needed and all slab slots are taken; the arena is then as before,
  apart from the call counter.
\<close>

lemma find_free_rel:
  assumes rel: "arena_rel base lim a is fl"
  shows "find_free n a = Some (case List.find (\<lambda>i. ch_free (m_chunk_slab a i) \<and> n \<le> ch_size (m_chunk_slab a i)) is of
            None \<Rightarrow> NO_CHUNK | Some i \<Rightarrow> i)"
proof -
  have "hd_or NO_CHUNK is = 0"
    using relD(1) [OF rel] by (cases "is") (auto simp: arena_shape_def)
  then show ?thesis
    using find_free_from_correct [of a NO_CHUNK "is" n] relD(1) [OF rel] shape_NO_CHUNK_notin [OF relD(1) [OF rel]]
    by (simp add: find_free_def arena_shape_def)
qed

lemma arena_malloc_refines:
  assumes rel: "arena_rel base lim a is fl"
  defines "a1 \<equiv> a\<lparr>m_allocation_counter := add32 (m_allocation_counter a) 1\<rparr>"
  obtains (no_fit) "arena_malloc n a = Some (Inr 0, a1)" and "arena_rel base lim a1 is fl"
      and "spec_alloc (fixup_size n) (blocks (m_chunk_slab a) is) = None"
    | (full) "arena_malloc n a = Some (Inl (MachineException INVALID_PROGRAM (m_max_chunks a)), a1)"
      and "arena_rel base lim a1 is fl" and "fl = []" and "m_max_chunks a \<le> m_slab_top a"
      and "spec_alloc (fixup_size n) (blocks (m_chunk_slab a) is) \<noteq> None"
    | (ok) p a' is' fl' where "arena_malloc n a = Some (Inr p, a')" and "arena_rel base lim a' is' fl'"
      and "spec_alloc (fixup_size n) (blocks (m_chunk_slab a) is) = Some (p, blocks (m_chunk_slab a') is')"
proof (cases "List.find (\<lambda>i. ch_free (m_chunk_slab a i) \<and> fixup_size n \<le> ch_size (m_chunk_slab a i)) is")
  case None
  then show ?thesis
    using no_fit rel find_None_blocks [OF None]
    by (simp add: arena_malloc_def find_free_rel [OF rel] a1_def rel_counter)
next
  case (Some i)
  have s1: "m_chunk_slab a1 = m_chunk_slab a" and t1: "m_slab_top a1 = m_slab_top a" "m_max_chunks a1 = m_max_chunks a"
    and rel1: "arena_rel base lim a1 is fl"
    using rel by (simp_all add: a1_def rel_counter)
  obtain xs ys where i: "is = xs @ i # ys" "ch_free (m_chunk_slab a1 i)" "fixup_size n \<le> ch_size (m_chunk_slab a1 i)"
    "spec_alloc (fixup_size n) (blocks (m_chunk_slab a) is) = Some (ch_data (m_chunk_slab a i),
       blocks (m_chunk_slab a) xs @ carve (fixup_size n) (chunk_block (m_chunk_slab a i)) @ blocks (m_chunk_slab a) ys)"
    using find_split_blocks [OF Some] by (auto simp: s1)
  have "i \<noteq> NO_CHUNK"
    using shape_not_NO_CHUNK [OF relD(1) [OF rel], of i] i(1) by simp
  then have eq: "arena_malloc n a = Some (split_and_claim i (fixup_size n) a1)"
    by (simp add: arena_malloc_def find_free_rel [OF rel] Some a1_def)
  show ?thesis
  proof (cases rule: split_and_claim_rel [OF rel1 [unfolded i(1)] i(2) fixup_size_props(1) i(3) fixup_size_props(2)])
    case 1
    then show ?thesis
      using full eq i(4) rel1 t1 by simp
  next
    case (2 a' is' fl')
    then show ?thesis
      using ok eq i(4) by (simp add: s1)
  qed
qed

section \<open>Freeing\<close>

definition b_merge :: "block \<Rightarrow> block \<Rightarrow> block" where
  "b_merge b c = Block (b_addr b) (b_size b + b_size c) (b_free b)"

text \<open>Merging a chunk with its successor unlinks the successor and recycles its slot.\<close>

lemma merge_next_rel:
  assumes rel: "arena_rel base lim a (xs @ i # j # ys) fl"
    and free: "ch_free (m_chunk_slab a i)" "ch_free (m_chunk_slab a j)"
  shows "arena_rel base lim (merge_next i a) (xs @ i # ys) (j # fl)"
    and "blocks (m_chunk_slab (merge_next i a)) (xs @ i # ys) =
      blocks (m_chunk_slab a) xs @ b_merge (chunk_block (m_chunk_slab a i)) (chunk_block (m_chunk_slab a j)) #
      blocks (m_chunk_slab a) ys"
    and "ch_prev (m_chunk_slab (merge_next i a) i) = ch_prev (m_chunk_slab a i)"
    and "ch_free (m_chunk_slab (merge_next i a) i)"
    and "\<And>k. k \<in> set xs \<Longrightarrow> m_chunk_slab (merge_next i a) k = m_chunk_slab a k"
proof -
  let ?s = "m_chunk_slab a"
  let ?a' = "merge_next i a"
  have sh: "arena_shape a (xs @ i # j # ys) fl"
    by (rule relD(1) [OF rel])
  have dist: "distinct (xs @ i # j # ys)" "distinct (xs @ i # j # ys @ fl)"
    using shapeD(3) [OF sh] shape_distinct [OF sh] by simp_all
  have nx: "ch_next (?s i) = j" "ch_next (?s j) = hd_or NO_CHUNK ys"
    using sh by (simp_all add: arena_shape_def)
  have yn: "NO_CHUNK \<notin> set ys"
    using shape_NO_CHUNK_notin [OF sh] by simp
  have tl: "k \<in> set (tl ys) \<Longrightarrow> ys \<noteq> [] \<and> k \<noteq> hd ys \<and> k \<in> set ys" for k
    using dist by (cases ys) auto
  have adj: "ch_data (?s j) = ch_data (?s i) + ch_size (?s i)"
    using relD(3) [OF rel] by (auto simp: tiles_append)
  have szs: "add64 (ch_size (?s i)) (ch_size (?s j)) = ch_size (?s i) + ch_size (?s j)"
    using rel_chunk_bounds(4) [OF rel, of i] rel_chunk_bounds(4) [OF rel, of j] by (simp add: add64_exact)
  have sl: "m_chunk_slab ?a' k =
     (if k = i then (?s i)\<lparr>ch_next := hd_or NO_CHUNK ys, ch_size := ch_size (?s i) + ch_size (?s j)\<rparr>
      else if k = j then (?s j)\<lparr>ch_next := m_slab_free a\<rparr>
      else if ys \<noteq> [] \<and> k = hd ys then (?s k)\<lparr>ch_prev := i\<rparr> else ?s k)" for k
    using yn dist
    by (cases ys) (auto simp: merge_next_def Let_def free_chunk_def slab_upd_def slab_def nx szs)
  have meta: "m_slab_free ?a' = j" "m_slab_top ?a' = m_slab_top a" "m_slab_len ?a' = m_slab_len a"
    "m_max_chunks ?a' = m_max_chunks a" "m_used_chunk_map ?a' = m_used_chunk_map a"
    by (simp_all add: merge_next_def Let_def free_chunk_def slab_upd_def slab_def nx)
  have seg: "lseg (m_chunk_slab ?a') NO_CHUNK (xs @ i # ys) NO_CHUNK"
  proof (rule lseg_remove)
    show "lseg ?s NO_CHUNK (xs @ i # j # ys) NO_CHUNK"
      using sh by (simp add: arena_shape_def)
  qed (use dist tl in \<open>auto simp: sl\<close>)
  have "flist (m_chunk_slab ?a') (m_slab_free a) fl = flist ?s (m_slab_free a) fl"
    using dist(2) by (intro flist_cong) (auto simp: sl)
  then have flj: "flist (m_chunk_slab ?a') j (j # fl)"
    using shapeD(2) [OF sh] dist(1) by (simp add: sl)
  have sh': "arena_shape ?a' (xs @ i # ys) (j # fl)"
    unfolding arena_shape_def meta using seg flj dist shapeD(4-9) [OF sh]
    by (intro conjI) (auto simp: hd_append)
  have bl: "blocks (m_chunk_slab ?a') xs = blocks ?s xs" "blocks (m_chunk_slab ?a') ys = blocks ?s ys"
    using dist by (auto simp: blocks_def sl)
  then show "blocks (m_chunk_slab ?a') (xs @ i # ys) =
      blocks ?s xs @ b_merge (chunk_block (?s i)) (chunk_block (?s j)) # blocks ?s ys"
    by (simp add: sl b_merge_def chunk_block_def)
  then have til: "tiles base (blocks (m_chunk_slab ?a') (xs @ i # ys)) lim"
    using relD(3) [OF rel] by (simp add: tiles_append b_merge_def ac_simps)
  have um: "used_map_ok ?a' (xs @ i # ys)"
  proof (rule used_map_okI [OF til])
    fix k assume "k \<in> set (xs @ i # ys)" "\<not> ch_free (m_chunk_slab ?a' k)"
    then show "m_used_chunk_map ?a' (ch_data (m_chunk_slab ?a' k)) = Some k"
      using relD(2) [OF rel] free by (auto simp: used_map_ok_def sl meta split: if_splits)
  next
    fix p k assume "m_used_chunk_map ?a' p = Some k"
    then have "k \<in> set (xs @ i # j # ys) \<and> \<not> ch_free (?s k) \<and> ch_data (?s k) = p"
      using relD(2) [OF rel] by (simp add: used_map_ok_def meta)
    then show "k \<in> set (xs @ i # ys) \<and> \<not> ch_free (m_chunk_slab ?a' k) \<and> ch_data (m_chunk_slab ?a' k) = p"
      using free by (auto simp: sl)
  qed (use dist in simp)
  have "16 dvd ch_data (m_chunk_slab ?a' k)" if "k \<in> set (xs @ i # ys)" for k
    using that relD(4) [OF rel, of k] by (auto simp: sl)
  then show "arena_rel base lim ?a' (xs @ i # ys) (j # fl)"
    using rel sh' um til by (auto simp: arena_rel_def)
  show "ch_prev (m_chunk_slab ?a' i) = ch_prev (?s i)" "ch_free (m_chunk_slab ?a' i)"
    using free by (simp_all add: sl)
  show "m_chunk_slab ?a' k = ?s k" if "k \<in> set xs" for k
    using that dist by (auto simp: sl)
qed

text \<open>Marking a live chunk free and dropping it from the map.\<close>

definition release_chunk :: "nat \<Rightarrow> Arena \<Rightarrow> Arena" where
  "release_chunk i a = slab_upd i (\<lambda>c. c\<lparr>ch_free := True\<rparr>)
     (a\<lparr>m_deallocation_counter := add32 (m_deallocation_counter a) 1,
        m_used_chunk_map := (m_used_chunk_map a)(ch_data (m_chunk_slab a i) := None)\<rparr>)"

lemma release_slab:
  "m_chunk_slab (release_chunk i a) k = (if k = i then (m_chunk_slab a i)\<lparr>ch_free := True\<rparr> else m_chunk_slab a k)"
  by (simp add: release_chunk_def slab_upd_def)

lemma release_blocks:
  assumes "distinct (xs @ i # ys)"
  shows "blocks (m_chunk_slab (release_chunk i a)) xs = blocks (m_chunk_slab a) xs"
    and "blocks (m_chunk_slab (release_chunk i a)) ys = blocks (m_chunk_slab a) ys"
  using assms by (auto simp: blocks_def release_slab)

lemma release_chunk_rel:
  assumes rel: "arena_rel base lim a is fl" and i: "i \<in> set is" and live: "\<not> ch_free (m_chunk_slab a i)"
  shows "arena_rel base lim (release_chunk i a) is fl"
proof -
  let ?a' = "release_chunk i a"
  have sh: "arena_shape a is fl"
    by (rule relD(1) [OF rel])
  have "lseg (m_chunk_slab ?a') NO_CHUNK is NO_CHUNK = lseg (m_chunk_slab a) NO_CHUNK is NO_CHUNK"
    by (rule lseg_cong) (simp add: release_slab)
  moreover have "flist (m_chunk_slab ?a') (m_slab_free a) fl = flist (m_chunk_slab a) (m_slab_free a) fl"
    by (rule flist_cong) (simp add: release_slab)
  ultimately have sh': "arena_shape ?a' is fl"
    using sh by (simp add: arena_shape_def release_chunk_def slab_upd_def)
  have til: "tiles lo (blocks (m_chunk_slab ?a') js) lim = tiles lo (blocks (m_chunk_slab a) js) lim" for lo js
    by (induction js arbitrary: lo) (auto simp: release_slab)
  have um: "m_used_chunk_map ?a' = (m_used_chunk_map a)(ch_data (m_chunk_slab a i) := None)"
    by (simp add: release_chunk_def slab_upd_def)
  have "used_map_ok ?a' is"
  proof (rule used_map_okI)
    show "tiles base (blocks (m_chunk_slab ?a') is) lim"
      using relD(3) [OF rel] by (simp add: til)
    fix k assume k: "k \<in> set is" "\<not> ch_free (m_chunk_slab ?a' k)"
    show "m_used_chunk_map ?a' (ch_data (m_chunk_slab ?a' k)) = Some k"
      using k relD(2) [OF rel] rel_data_inj [OF relD(3) [OF rel] shape_distinct [OF sh] k(1) i]
      by (auto simp: um release_slab used_map_ok_def split: if_splits)
  next
    fix p k assume "m_used_chunk_map ?a' p = Some k"
    then show "k \<in> set is \<and> \<not> ch_free (m_chunk_slab ?a' k) \<and> ch_data (m_chunk_slab ?a' k) = p"
      using relD(2) [OF rel] by (auto simp: um release_slab used_map_ok_def split: if_splits)
  qed (rule shape_distinct [OF sh])
  then show ?thesis
    using rel sh' by (auto simp: arena_rel_def til release_slab)
qed

text \<open>What freeing does to the tiling: the block joins a free successor, then a free predecessor.\<close>

definition join_right :: "block \<Rightarrow> block list \<Rightarrow> block list" where
  "join_right b ys = (case ys of c # zs \<Rightarrow> if b_free c then b_merge b c # zs else b # ys | [] \<Rightarrow> [b])"

definition spec_release :: "block list \<Rightarrow> block \<Rightarrow> block list \<Rightarrow> block list" where
  "spec_release xs b ys =
    (let r = join_right (Block (b_addr b) (b_size b) True) ys in
     if xs \<noteq> [] \<and> b_free (last xs) then butlast xs @ b_merge (last xs) (hd r) # tl r else xs @ r)"

lemma internal_free_unfold:
  "internal_free i a =
    (let a3 = release_chunk i a;
         nx = ch_next (m_chunk_slab a i);
         a4 = (if nx \<noteq> NO_CHUNK \<and> ch_free (m_chunk_slab a3 nx) then merge_next i a3 else a3);
         pidx = ch_prev (m_chunk_slab a4 i)
     in if pidx \<noteq> NO_CHUNK \<and> ch_free (m_chunk_slab a4 pidx) then merge_next pidx a4 else a4)"
  by (simp add: internal_free_def release_chunk_def slab_def slab_upd_def Let_def)

lemma internal_free_left:
  assumes rel: "arena_rel base lim a (xs @ i # ys) fl" and free: "ch_free (m_chunk_slab a i)"
  defines "pidx \<equiv> ch_prev (m_chunk_slab a i)"
  defines "a' \<equiv> (if pidx \<noteq> NO_CHUNK \<and> ch_free (m_chunk_slab a pidx) then merge_next pidx a else a)"
  obtains is' fl' where "arena_rel base lim a' is' fl'"
    and "blocks (m_chunk_slab a') is' =
      (let bx = blocks (m_chunk_slab a) xs; b = chunk_block (m_chunk_slab a i); bys = blocks (m_chunk_slab a) ys in
       if bx \<noteq> [] \<and> b_free (last bx) then butlast bx @ b_merge (last bx) b # bys else bx @ b # bys)"
proof (cases xs rule: rev_cases)
  case Nil
  then have "pidx = NO_CHUNK"
    using shapeD(1) [OF relD(1) [OF rel]] by (simp add: pidx_def)
  then show ?thesis
    using that [of "xs @ i # ys" fl] rel Nil by (simp add: a'_def)
next
  case (snoc zs k)
  have pk: "pidx = k"
    using shapeD(1) [OF relD(1) [OF rel]] snoc by (simp add: pidx_def)
  have kn: "k \<noteq> NO_CHUNK"
    using shape_not_NO_CHUNK [OF relD(1) [OF rel], of k] snoc by simp
  have rel': "arena_rel base lim a (zs @ k # i # ys) fl"
    using rel snoc by simp
  show ?thesis
  proof (cases "ch_free (m_chunk_slab a k)")
    case True
    then have "a' = merge_next k a"
      using kn pk by (simp add: a'_def)
    then show ?thesis
      using that [of "zs @ k # ys" "i # fl"] merge_next_rel(1,2) [OF rel' True free] True snoc
      by (simp add: butlast_append)
  next
    case False
    then show ?thesis
      using that [of "xs @ i # ys" fl] rel snoc pk by (simp add: a'_def)
  qed
qed

lemma internal_free_rel:
  assumes rel: "arena_rel base lim a (xs @ i # ys) fl" and live: "\<not> ch_free (m_chunk_slab a i)"
  obtains is' fl' where "arena_rel base lim (internal_free i a) is' fl'"
    and "blocks (m_chunk_slab (internal_free i a)) is' =
      spec_release (blocks (m_chunk_slab a) xs) (chunk_block (m_chunk_slab a i)) (blocks (m_chunk_slab a) ys)"
proof -
  let ?a3 = "release_chunk i a"
  let ?nx = "ch_next (m_chunk_slab a i)"
  define a4 where "a4 = (if ?nx \<noteq> NO_CHUNK \<and> ch_free (m_chunk_slab ?a3 ?nx) then merge_next i ?a3 else ?a3)"
  have sh: "arena_shape a (xs @ i # ys) fl"
    by (rule relD(1) [OF rel])
  have rel3: "arena_rel base lim ?a3 (xs @ i # ys) fl"
    by (rule release_chunk_rel [OF rel _ live]) simp
  note bl3 = release_blocks [OF shape_distinct [OF sh], of a]
  have nx: "?nx = hd_or NO_CHUNK ys"
    using shapeD(1) [OF sh] by simp
  have free3: "ch_free (m_chunk_slab ?a3 i)"
    by (simp add: release_slab)
  have hy: "ys \<noteq> [] \<Longrightarrow> ch_free (m_chunk_slab ?a3 (hd ys)) = ch_free (m_chunk_slab a (hd ys))"
    using shape_distinct [OF sh] by (cases ys) (auto simp: release_slab)
  have "\<exists>zs fl4. arena_rel base lim a4 (xs @ i # zs) fl4 \<and> ch_free (m_chunk_slab a4 i) \<and>
      blocks (m_chunk_slab a4) xs = blocks (m_chunk_slab a) xs \<and>
      blocks (m_chunk_slab a4) (i # zs) =
        join_right (Block (ch_data (m_chunk_slab a i)) (ch_size (m_chunk_slab a i)) True) (blocks (m_chunk_slab a) ys)"
  proof (cases "ys \<noteq> [] \<and> ch_free (m_chunk_slab ?a3 (hd ys))")
    case True
    then obtain j zs where ys: "ys = j # zs" "ch_free (m_chunk_slab ?a3 j)"
      by (cases ys) auto
    have "a4 = merge_next i ?a3"
      using ys nx shape_not_NO_CHUNK [OF sh, of j] by (simp add: a4_def)
    moreover note m = merge_next_rel [OF rel3 [unfolded ys(1)] free3 ys(2)]
    moreover have "blocks (m_chunk_slab (merge_next i ?a3)) xs = blocks (m_chunk_slab a) xs"
      using m(5) bl3(1) by (simp add: blocks_def)
    ultimately show ?thesis
      using ys bl3 hy by - (rule exI [of _ zs], rule exI [of _ "j # fl"],
        auto simp: join_right_def release_slab chunk_block_def b_merge_def)
  next
    case False
    then have "a4 = ?a3"
      using nx by (cases ys) (auto simp: a4_def)
    moreover have "chunk_block (m_chunk_slab ?a3 i) =
        Block (ch_data (m_chunk_slab a i)) (ch_size (m_chunk_slab a i)) True"
      by (simp add: release_slab chunk_block_def)
    ultimately show ?thesis
      using rel3 free3 bl3 False hy by - (rule exI [of _ ys], rule exI [of _ fl], cases ys, auto simp: join_right_def)
  qed
  then obtain zs fl4 where r4: "arena_rel base lim a4 (xs @ i # zs) fl4" "ch_free (m_chunk_slab a4 i)"
      "blocks (m_chunk_slab a4) xs = blocks (m_chunk_slab a) xs"
      "blocks (m_chunk_slab a4) (i # zs) =
        join_right (Block (ch_data (m_chunk_slab a i)) (ch_size (m_chunk_slab a i)) True) (blocks (m_chunk_slab a) ys)"
    by blast
  have fin: "internal_free i a =
     (if ch_prev (m_chunk_slab a4 i) \<noteq> NO_CHUNK \<and> ch_free (m_chunk_slab a4 (ch_prev (m_chunk_slab a4 i)))
      then merge_next (ch_prev (m_chunk_slab a4 i)) a4 else a4)"
    by (simp add: internal_free_unfold a4_def Let_def)
  show ?thesis
  proof (rule internal_free_left [OF r4(1,2), folded fin])
    fix is' fl'
    assume rel': "arena_rel base lim (internal_free i a) is' fl'"
      and bl: "blocks (m_chunk_slab (internal_free i a)) is' =
        (let bx = blocks (m_chunk_slab a4) xs; b = chunk_block (m_chunk_slab a4 i); bys = blocks (m_chunk_slab a4) zs in
         if bx \<noteq> [] \<and> b_free (last bx) then butlast bx @ b_merge (last bx) b # bys else bx @ b # bys)"
    show thesis
    proof (rule that [OF rel'])
      show "blocks (m_chunk_slab (internal_free i a)) is' =
        spec_release (blocks (m_chunk_slab a) xs) (chunk_block (m_chunk_slab a i)) (blocks (m_chunk_slab a) ys)"
        by (simp add: bl spec_release_def r4(4) [symmetric] r4(3) Let_def)
    qed
  qed
qed

section \<open>Growing in place\<close>

text \<open>
  \<open>subsume_next\<close> first moves the border between the chunk and its free
  successor, then drops the successor if nothing of it is left.
\<close>

definition grown :: "nat \<Rightarrow> block \<Rightarrow> block \<Rightarrow> block list" where
  "grown n b c = Block (b_addr b) n (b_free b) #
     (if n < b_size b + b_size c then [Block (b_addr b + n) (b_size b + b_size c - n) (b_free c)] else [])"

lemma subsume_next_too_small:
  assumes "ch_size (slab a i) + ch_size (slab a (ch_next (slab a i))) < n" and "n < 2 ^ 64"
  shows "subsume_next i n a = a"
  using assms by (simp add: subsume_next_def Let_def add64_exact)

lemma subsume_next_slab:
  assumes rel: "arena_rel base lim a (xs @ i # j # ys) fl"
    and n: "ch_size (m_chunk_slab a i) < n" "n \<le> ch_size (m_chunk_slab a i) + ch_size (m_chunk_slab a j)"
  defines "rest \<equiv> ch_size (m_chunk_slab a i) + ch_size (m_chunk_slab a j) - n"
  shows "m_chunk_slab (subsume_next i n a) k =
     (if k = i then (if rest = 0 then (m_chunk_slab a i)\<lparr>ch_next := hd_or NO_CHUNK ys, ch_size := n\<rparr>
                     else (m_chunk_slab a i)\<lparr>ch_size := n\<rparr>)
      else if k = j then
        (let c = (m_chunk_slab a j)\<lparr>ch_size := rest, ch_data := ch_data (m_chunk_slab a i) + n\<rparr> in
         if rest = 0 then c\<lparr>ch_next := m_slab_free a\<rparr> else c)
      else if rest = 0 \<and> ys \<noteq> [] \<and> k = hd ys then (m_chunk_slab a k)\<lparr>ch_prev := i\<rparr> else m_chunk_slab a k)" (is "?sl k")
    and "m_slab_free (subsume_next i n a) = (if rest = 0 then j else m_slab_free a)"
    and "m_slab_top (subsume_next i n a) = m_slab_top a" and "m_slab_len (subsume_next i n a) = m_slab_len a"
    and "m_max_chunks (subsume_next i n a) = m_max_chunks a"
    and "m_used_chunk_map (subsume_next i n a) = m_used_chunk_map a"
proof -
  let ?s = "m_chunk_slab a"
  have sh: "arena_shape a (xs @ i # j # ys) fl"
    by (rule relD(1) [OF rel])
  have dist: "distinct (i # j # ys)"
    using shape_distinct [OF sh] by simp
  have nx: "ch_next (?s i) = j" "ch_next (?s j) = hd_or NO_CHUNK ys"
    using shapeD(1) [OF sh] by simp_all
  have yn: "NO_CHUNK \<notin> set ys"
    using shape_NO_CHUNK_notin [OF sh] by simp
  have adj: "ch_data (?s j) = ch_data (?s i) + ch_size (?s i)"
    using relD(3) [OF rel] by (auto simp: tiles_append)
  have bi: "ch_size (?s i) < 2 ^ 32" "ch_size (?s j) < 2 ^ 32" "ch_data (?s j) + ch_size (?s j) < 2 ^ 32"
    using rel_chunk_bounds [OF rel, of i] rel_chunk_bounds [OF rel, of j] relD(6) [OF rel] by simp_all
  have ar: "add64 (ch_size (?s i)) (ch_size (?s j)) = ch_size (?s i) + ch_size (?s j)"
    "sub64 n (ch_size (?s i)) = n - ch_size (?s i)"
    "sub64 (ch_size (?s j)) (n - ch_size (?s i)) = rest"
    "add32 (ch_data (?s j)) ((n - ch_size (?s i)) mod 4294967296) = ch_data (?s i) + n"
    using bi n adj by (simp_all add: add64_exact sub64_exact add32_exact rest_def)
  define a3 where "a3 = slab_upd i (\<lambda>c. c\<lparr>ch_size := n\<rparr>)
    (slab_upd j (\<lambda>c. c\<lparr>ch_size := rest, ch_data := ch_data (?s i) + n\<rparr>) a)"
  define a4 where "a4 = slab_upd i (\<lambda>c. c\<lparr>ch_next := hd_or NO_CHUNK ys\<rparr>) a3"
  have eq: "subsume_next i n a = (if rest = 0 then free_chunk j
      (if hd_or NO_CHUNK ys \<noteq> NO_CHUNK then slab_upd (hd_or NO_CHUNK ys) (\<lambda>c. c\<lparr>ch_prev := i\<rparr>) a4 else a4) else a3)"
    using dist n by (simp add: subsume_next_def Let_def slab_upd_def slab_def nx ar a3_def a4_def)
  have s3: "m_chunk_slab a3 k = (if k = i then (?s i)\<lparr>ch_size := n\<rparr>
      else if k = j then (?s j)\<lparr>ch_size := rest, ch_data := ch_data (?s i) + n\<rparr> else ?s k)"
    "m_slab_free a3 = m_slab_free a" for k
    using dist by (simp_all add: a3_def slab_upd_def)
  show "?sl k"
    using yn dist
    by (cases ys; cases "rest = 0") (auto simp: eq free_chunk_def slab_upd_def s3 a4_def)
  show "m_slab_free (subsume_next i n a) = (if rest = 0 then j else m_slab_free a)"
    "m_slab_top (subsume_next i n a) = m_slab_top a" "m_slab_len (subsume_next i n a) = m_slab_len a"
    "m_max_chunks (subsume_next i n a) = m_max_chunks a"
    "m_used_chunk_map (subsume_next i n a) = m_used_chunk_map a"
    using dist n by (simp_all add: subsume_next_def Let_def free_chunk_def slab_upd_def slab_def nx ar)
qed

lemma subsume_next_rel:
  assumes rel: "arena_rel base lim a (xs @ i # j # ys) fl"
    and st: "\<not> ch_free (m_chunk_slab a i)" "ch_free (m_chunk_slab a j)"
    and n: "ch_size (m_chunk_slab a i) < n" "n \<le> ch_size (m_chunk_slab a i) + ch_size (m_chunk_slab a j)" "16 dvd n"
  obtains is' fl' where "arena_rel base lim (subsume_next i n a) is' fl'"
    and "blocks (m_chunk_slab (subsume_next i n a)) is' = blocks (m_chunk_slab a) xs @
      grown n (chunk_block (m_chunk_slab a i)) (chunk_block (m_chunk_slab a j)) @ blocks (m_chunk_slab a) ys"
proof -
  let ?s = "m_chunk_slab a"
  let ?a' = "subsume_next i n a"
  define rest where "rest = ch_size (?s i) + ch_size (?s j) - n"
  note sl = subsume_next_slab(1) [OF rel n(1,2), folded rest_def]
  note meta = subsume_next_slab(2-6) [OF rel n(1,2), folded rest_def]
  define is' where "is' = (if rest = 0 then xs @ i # ys else xs @ i # j # ys)"
  define fl' where "fl' = (if rest = 0 then j # fl else fl)"
  have sh: "arena_shape a (xs @ i # j # ys) fl"
    by (rule relD(1) [OF rel])
  have dist: "distinct (xs @ i # j # ys)" "distinct (xs @ i # j # ys @ fl)"
    using shapeD(3) [OF sh] shape_distinct [OF sh] by simp_all
  have dist': "distinct is'" "distinct (is' @ fl')" "set (is' @ fl') = set (xs @ i # j # ys @ fl)"
    "set is' \<subseteq> set (xs @ i # j # ys)" "j \<in> set is' \<Longrightarrow> rest \<noteq> 0" "i \<in> set is'"
    using dist by (auto simp: is'_def fl'_def)
  have tl: "k \<in> set (tl ys) \<Longrightarrow> ys \<noteq> [] \<and> k \<noteq> hd ys \<and> k \<in> set ys" for k
    using dist(1) by (cases ys) auto
  have seg0: "lseg ?s NO_CHUNK (xs @ i # j # ys) NO_CHUNK"
    by (rule shapeD(1) [OF sh])
  have seg: "lseg (m_chunk_slab ?a') NO_CHUNK is' NO_CHUNK"
  proof (cases "rest = 0")
    case True
    have "lseg (m_chunk_slab ?a') NO_CHUNK (xs @ i # ys) NO_CHUNK"
      by (rule lseg_remove [OF seg0]) (use dist(1) tl True in \<open>auto simp: sl\<close>)
    then show ?thesis
      by (simp add: is'_def True)
  next
    case False
    have "lseg (m_chunk_slab ?a') NO_CHUNK (xs @ i # j # ys) NO_CHUNK = lseg ?s NO_CHUNK (xs @ i # j # ys) NO_CHUNK"
      by (rule lseg_cong) (use False in \<open>simp add: sl\<close>)
    then show ?thesis
      using seg0 False by (simp add: is'_def)
  qed
  have "flist (m_chunk_slab ?a') (m_slab_free a) fl = flist ?s (m_slab_free a) fl"
    using dist(2) by (intro flist_cong) (auto simp: sl)
  then have flj: "flist (m_chunk_slab ?a') (m_slab_free ?a') fl'"
    using shapeD(2) [OF sh] dist(1) by (simp add: sl meta fl'_def)
  have sh': "arena_shape ?a' is' fl'"
  proof -
    have "set (is' @ fl') = {..< m_slab_top a}"
      using dist'(3) shapeD(4) [OF sh] by simp
    moreover have "is' \<noteq> []" "hd is' = 0"
      using shapeD(6) [OF sh] by (cases xs; simp add: is'_def)+
    ultimately show ?thesis
      unfolding arena_shape_def meta(2-5) using seg flj dist'(2) shapeD(7-9) [OF sh]
      by (simp del: set_append distinct_append)
  qed
  have bl: "blocks (m_chunk_slab ?a') xs = blocks ?s xs" "blocks (m_chunk_slab ?a') ys = blocks ?s ys"
    using dist by (auto simp: blocks_def sl)
  have blk: "blocks (m_chunk_slab ?a') is' =
      blocks ?s xs @ grown n (chunk_block (?s i)) (chunk_block (?s j)) @ blocks ?s ys"
    using dist(1) n by (auto simp: is'_def bl sl grown_def chunk_block_def rest_def)
  have til: "tiles base (blocks (m_chunk_slab ?a') is') lim"
    using relD(3) [OF rel] n by (auto simp: blk tiles_append grown_def add.assoc)
  have um: "used_map_ok ?a' is'"
  proof (rule used_map_okI [OF til dist'(1)])
    fix k assume "k \<in> set is'" "\<not> ch_free (m_chunk_slab ?a' k)"
    then show "m_used_chunk_map ?a' (ch_data (m_chunk_slab ?a' k)) = Some k"
      using relD(2) [OF rel] st dist'(4,5) by (auto simp: used_map_ok_def sl meta Let_def split: if_splits)
  next
    fix p k assume "m_used_chunk_map ?a' p = Some k"
    then have "k \<in> set (xs @ i # j # ys) \<and> \<not> ch_free (?s k) \<and> ch_data (?s k) = p"
      using relD(2) [OF rel] by (simp add: used_map_ok_def meta)
    then show "k \<in> set is' \<and> \<not> ch_free (m_chunk_slab ?a' k) \<and> ch_data (m_chunk_slab ?a' k) = p"
      using st by (auto simp: sl is'_def)
  qed
  have "16 dvd ch_data (m_chunk_slab ?a' k)" if "k \<in> set is'" for k
    using that relD(4) [OF rel, of k] relD(4) [OF rel, of i] n(3) dist'(4) by (auto simp: sl Let_def)
  then have "arena_rel base lim ?a' is' fl'"
    using rel sh' um til by (auto simp: arena_rel_def)
  then show ?thesis
    using that blk by blast
qed

end
