(* ===== verification/Arena_Guest.thy ===== *)
theory Arena_Guest
  imports Arena_Correct
begin

text \<open>
  What the guest program sees of its heap allocator: the live allocations
  as a map from addresses to sizes.  The outcomes of \<open>malloc\<close>, \<open>free\<close>, \<open>realloc\<close> and
  \<open>seq_alloc_aligned\<close> are stated on that map, with termination of every list walk.
\<close>

section \<open>The guest's view\<close>

text \<open>
  The live allocations of an arena, from address to size, and the invariant
  with the slot lists hidden.
\<close>

definition live :: "Arena \<Rightarrow> nat \<rightharpoonup> nat" where
  "live a p = map_option (\<lambda>i. ch_size (m_chunk_slab a i)) (m_used_chunk_map a p)"

definition arena_inv :: "nat \<Rightarrow> nat \<Rightarrow> Arena \<Rightarrow> bool" where
  "arena_inv base lim a \<longleftrightarrow> (\<exists>is fl. arena_rel base lim a is fl)"

lemma live_iff:
  assumes "arena_rel base lim a is fl"
  shows "live a p = Some n \<longleftrightarrow> Block p n False \<in> set (blocks (m_chunk_slab a) is)"
  using relD(2) [OF assms]
  by (auto simp: live_def used_map_ok_def blocks_def chunk_block_def image_iff)

lemma live_counter [simp]: "live (a\<lparr>m_allocation_counter := k\<rparr>) = live a"
  by (simp add: live_def fun_eq_iff)

lemma map_eqI:
  assumes "\<And>p n. f p = Some n \<longleftrightarrow> g p = Some n"
  shows "f = g"
proof (rule ext)
  show "f p = g p" for p
    using assms [of p "the (f p)"] assms [of p "the (g p)"] by (cases "f p"; cases "g p") simp_all
qed

lemma live_carve_at:
  assumes "arena_rel base lim a is fl" and "arena_rel base lim a' is' fl'"
    and sp: "blocks (m_chunk_slab a) is = xs @ b # ys" "b_free b" "n \<le> b_size b" "p = b_addr b"
      "blocks (m_chunk_slab a') is' = xs @ carve n b @ ys"
  shows "live a' = (live a)(p \<mapsto> n)" and "live a p = None" and "base \<le> p" and "p + n \<le> lim"
    and "\<And>q m. live a q = Some m \<Longrightarrow> {q ..< q + m} \<inter> {p ..< p + n} = {}"
proof -
  have til: "tiles base (xs @ b # ys) lim"
    using relD(3) [OF assms(1)] sp(1) by simp
  have inb: "Block q m False \<in> set (xs @ b # ys)" "Block q m False \<noteq> b" if "live a q = Some m" for q m
    using that sp(2) unfolding live_iff [OF assms(1)] sp(1) by auto
  show "{q ..< q + m} \<inter> {p ..< p + n} = {}" if "live a q = Some m" for q m
  proof -
    have "{q ..< q + m} \<inter> {p ..< p + b_size b} = {}"
      using tiles_disjoint [OF til inb(1) [OF that] _ inb(2) [OF that]] by (simp add: b_range_def sp(4))
    moreover have "{p ..< p + n} \<subseteq> {p ..< p + b_size b}"
      using sp(3) by auto
    ultimately show ?thesis
      by blast
  qed
  have b: "base \<le> b_addr b" "0 < b_size b" "b_addr b + b_size b \<le> lim"
    using tiles_mem [OF til, of b] by auto
  then show "base \<le> p" "p + n \<le> lim"
    using sp(3,4) by auto
  show none: "live a p = None"
  proof (cases "live a p")
    case (Some m)
    then show ?thesis
      using tiles_addr_inj [OF til inb(1) [OF Some], of b] inb(2) [OF Some] sp(4) by simp
  qed
  have mem: "Block q m False \<in> set (xs @ carve n b @ ys) \<longleftrightarrow> (q = p \<and> m = n) \<or> Block q m False \<in> set (xs @ b # ys)" for q m
    using sp(2,4) by (auto simp: carve_def)
  have "live a' q = Some m \<longleftrightarrow> (q = p \<and> m = n) \<or> live a q = Some m" for q m
    unfolding live_iff [OF assms(1)] live_iff [OF assms(2)] sp(1,5) by (rule mem)
  then show "live a' = (live a)(p \<mapsto> n)"
    using none by (intro map_eqI) auto
qed

lemma live_carve:
  assumes "arena_rel base lim a is fl" and "arena_rel base lim a' is' fl'"
    and "spec_alloc n (blocks (m_chunk_slab a) is) = Some (p, blocks (m_chunk_slab a') is')"
  shows "live a' = (live a)(p \<mapsto> n)" and "live a p = None" and "base \<le> p" and "p + n \<le> lim"
    and "\<And>q m. live a q = Some m \<Longrightarrow> {q ..< q + m} \<inter> {p ..< p + n} = {}"
proof -
  obtain xs b ys where sp: "blocks (m_chunk_slab a) is = xs @ b # ys" "b_free b" "n \<le> b_size b" "p = b_addr b"
    "blocks (m_chunk_slab a') is' = xs @ carve n b @ ys"
    using spec_alloc_split [OF assms(3)] by blast
  note lc = live_carve_at [OF assms(1,2) sp]
  show "live a' = (live a)(p \<mapsto> n)" "live a p = None" "base \<le> p" "p + n \<le> lim"
    by (rule lc)+
  show "{q ..< q + m} \<inter> {p ..< p + n} = {}" if "live a q = Some m" for q m
    using that by (rule lc)
qed

lemma rel_inv: "arena_rel base lim a is fl \<Longrightarrow> arena_inv base lim a"
  by (auto simp: arena_inv_def)

text \<open>The ways a call of \<open>malloc\<close> can end, in terms of the live allocations.\<close>

lemma arena_malloc_cases:
  assumes "arena_inv base lim a"
  obtains (no_fit) a' where "arena_malloc n a = Some (Inr 0, a')" and "arena_inv base lim a'" and "live a' = live a"
    | (full) a' where "arena_malloc n a = Some (Inl (MachineException INVALID_PROGRAM (m_max_chunks a)), a')"
      and "arena_inv base lim a'" and "live a' = live a" and "m_max_chunks a \<le> m_slab_top a"
    | (ok) p a' where "arena_malloc n a = Some (Inr p, a')" and "arena_inv base lim a'"
      and "live a' = (live a)(p \<mapsto> fixup_size n)" and "live a p = None" and "0 < base" and "base \<le> p"
      and "p + fixup_size n \<le> lim" and "16 dvd p"
      and "\<And>q m. live a q = Some m \<Longrightarrow> {q ..< q + m} \<inter> {p ..< p + fixup_size n} = {}"
proof -
  obtain "is" fl where rel: "arena_rel base lim a is fl"
    using assms by (auto simp: arena_inv_def)
  show ?thesis
  proof (cases rule: arena_malloc_refines [OF rel, of n])
    case 1
    then show ?thesis
      using no_fit rel_inv by simp
  next
    case 2
    then show ?thesis
      using full rel_inv by simp
  next
    case (3 p a' is' fl')
    note lc = live_carve [OF rel 3(2,3)]
    have "Block p (fixup_size n) False \<in> set (blocks (m_chunk_slab a') is')"
      using live_iff [OF 3(2), of p "fixup_size n"] lc(1) by simp
    then have "16 dvd p"
      using relD(4) [OF 3(2)] by (auto simp: blocks_def chunk_block_def)
    then show ?thesis
      using ok [OF 3(1) rel_inv [OF 3(2)] lc(1,2) relD(5) [OF rel] lc(3,4)] lc(5) by blast
  qed
qed

lemma join_right_live:
  "b_free b \<Longrightarrow> Block q m False \<in> set (join_right b ys) \<longleftrightarrow> Block q m False \<in> set ys"
  by (auto simp: join_right_def b_merge_def split: list.splits)

lemma spec_release_live:
  "Block q m False \<in> set (spec_release xs b ys) \<longleftrightarrow> Block q m False \<in> set (xs @ ys)"
proof -
  let ?r = "join_right (Block (b_addr b) (b_size b) True) ys"
  have r: "?r \<noteq> []" "b_free (hd ?r)"
    by (auto simp: join_right_def b_merge_def split: list.splits)
  have mem: "Block q m False \<in> set ?r \<longleftrightarrow> Block q m False \<in> set ys"
    by (simp add: join_right_live)
  then have tl: "Block q m False \<in> set (tl ?r) \<longleftrightarrow> Block q m False \<in> set ys"
    using r by (cases ?r) auto
  have bl: "Block q m False \<in> set (butlast xs) \<longleftrightarrow> Block q m False \<in> set xs" if "xs \<noteq> []" "b_free (last xs)"
    using that by (cases xs rule: rev_cases) auto
  show ?thesis
    using mem tl bl by (auto simp: spec_release_def Let_def b_merge_def)
qed

lemma internal_free_live:
  assumes inv: "arena_inv base lim a" and u: "m_used_chunk_map a p = Some i"
  shows "arena_inv base lim (internal_free i a)" and "live (internal_free i a) = (live a)(p := None)"
    and "\<not> ch_free (m_chunk_slab a i)" and "ch_data (m_chunk_slab a i) = p" and "i \<noteq> NO_CHUNK"
proof -
  obtain "is" fl where rel: "arena_rel base lim a is fl"
    using inv by (auto simp: arena_inv_def)
  have i: "i \<in> set is" "\<not> ch_free (m_chunk_slab a i)" "ch_data (m_chunk_slab a i) = p"
    using relD(2) [OF rel] u by (auto simp: used_map_ok_def)
  then show "\<not> ch_free (m_chunk_slab a i)" "ch_data (m_chunk_slab a i) = p" "i \<noteq> NO_CHUNK"
    using shape_not_NO_CHUNK [OF relD(1) [OF rel]] by auto
  obtain xs ys where sp: "is = xs @ i # ys"
    using split_list [OF i(1)] by blast
  let ?a' = "internal_free i a"
  obtain is' fl' where r': "arena_rel base lim ?a' is' fl'"
    "blocks (m_chunk_slab ?a') is' = spec_release (blocks (m_chunk_slab a) xs) (chunk_block (m_chunk_slab a i)) (blocks (m_chunk_slab a) ys)"
    using internal_free_rel [OF rel [unfolded sp] i(2)] by blast
  show "arena_inv base lim ?a'"
    by (rule rel_inv [OF r'(1)])
  let ?b = "chunk_block (m_chunk_slab a i)"
  have til: "tiles base (blocks (m_chunk_slab a) xs @ ?b # blocks (m_chunk_slab a) ys) lim"
    using relD(3) [OF rel] sp by simp
  have nb: "q \<noteq> p" if "Block q m False \<in> set (blocks (m_chunk_slab a) xs @ blocks (m_chunk_slab a) ys)" for q m
    using tiles_distinct [OF til] that i(3) by force
  have lv: "live a q = Some m \<longleftrightarrow> Block q m False = ?b \<or> Block q m False \<in> set (blocks (m_chunk_slab a) xs @ blocks (m_chunk_slab a) ys)" for q m
    unfolding live_iff [OF rel] sp by auto
  have lv': "live ?a' q = Some m \<longleftrightarrow> Block q m False \<in> set (blocks (m_chunk_slab a) xs @ blocks (m_chunk_slab a) ys)" for q m
    unfolding live_iff [OF r'(1)] r'(2) by (rule spec_release_live)
  show "live ?a' = (live a)(p := None)"
  proof (rule map_eqI)
    fix q m
    show "live ?a' q = Some m \<longleftrightarrow> ((live a)(p := None)) q = Some m"
      using nb [of q m] lv [of q m] lv' [of q m] i(3) by (auto simp: chunk_block_def)
  qed
qed

lemma inv_used:
  assumes "arena_inv base lim a" and "m_used_chunk_map a p = Some i"
  shows "\<not> ch_free (m_chunk_slab a i)" and "ch_data (m_chunk_slab a i) = p" and "i \<noteq> NO_CHUNK"
  using internal_free_live(3-5) [OF assms] by blast+

lemma begin_find_used_live:
  assumes "arena_inv base lim a"
  shows "begin_find_used p a \<noteq> NO_CHUNK \<longleftrightarrow> live a p \<noteq> None"
    and "live a p = Some n \<Longrightarrow> m_used_chunk_map a p = Some (begin_find_used p a)"
    and "live a p = Some n \<Longrightarrow> ch_size (m_chunk_slab a (begin_find_used p a)) = n"
  using inv_used(3) [OF assms, of p] by (auto simp: begin_find_used_def live_def split: option.splits)

text \<open>Live regions are aligned, inside the arena and pairwise disjoint.\<close>

lemma inv_live_region:
  assumes "arena_inv base lim a" and "live a p = Some n"
  shows "base \<le> p" and "0 < n" and "p + n \<le> lim" and "16 dvd p" and "0 < p" and "lim < 2 ^ 32"
proof -
  obtain "is" fl where rel: "arena_rel base lim a is fl"
    using assms(1) by (auto simp: arena_inv_def)
  have b: "Block p n False \<in> set (blocks (m_chunk_slab a) is)"
    using assms(2) live_iff [OF rel] by simp
  then show "base \<le> p" "0 < n" "p + n \<le> lim"
    using tiles_mem [OF relD(3) [OF rel] b] by simp_all
  then show "0 < p" "lim < 2 ^ 32"
    using relD(5,6) [OF rel] by simp_all
  show "16 dvd p"
    using b relD(4) [OF rel] by (auto simp: blocks_def chunk_block_def)
qed

lemma inv_live_disjoint:
  assumes "arena_inv base lim a" and "live a p = Some n" and "live a q = Some m" and "p \<noteq> q"
  shows "{p ..< p + n} \<inter> {q ..< q + m} = {}"
proof -
  obtain "is" fl where rel: "arena_rel base lim a is fl"
    using assms(1) by (auto simp: arena_inv_def)
  show ?thesis
    using tiles_disjoint [OF relD(3) [OF rel], of "Block p n False" "Block q m False"] assms(2-4)
    by (simp add: live_iff [OF rel] b_range_def)
qed

lemma arena_free_live:
  assumes "arena_inv base lim a"
  shows "live a p = None \<Longrightarrow> arena_free unknown p a = (unknown p None, a)"
    and "live a p = Some n \<Longrightarrow> arena_free unknown p a = (0, internal_free (begin_find_used p a) a)"
  using begin_find_used_live [OF assms, of p] inv_used [OF assms, of p]
  by (auto simp: arena_free_def slab_def)

section \<open>Reallocation\<close>

lemma grown_live:
  assumes "\<not> b_free b" and "b_free c"
  shows "Block q m False \<in> set (xs @ grown n b c @ ys) \<longleftrightarrow>
    (q = b_addr b \<and> m = n) \<or> Block q m False \<in> set (xs @ ys)"
  using assms by (auto simp: grown_def)

lemma fixup_size_less64: "fixup_size n < 2 ^ 64"
proof -
  have "word_align n < 2 ^ 64"
    unfolding word_align_def by (rule order_le_less_trans [OF align_down_le]) simp
  then show ?thesis
    by (simp add: fixup_size_def)
qed

text \<open>Growing into a free successor that is large enough.\<close>

lemma subsume_next_live:
  assumes inv: "arena_inv base lim a" and u: "m_used_chunk_map a p = Some i"
    and nx: "ch_next (m_chunk_slab a i) \<noteq> NO_CHUNK" "ch_free (m_chunk_slab a (ch_next (m_chunk_slab a i)))"
    and n: "ch_size (m_chunk_slab a i) < n" "16 dvd n" "n < 2 ^ 64"
  obtains (small) "subsume_next i n a = a"
    | (grown) "arena_inv base lim (subsume_next i n a)" and "live (subsume_next i n a) = (live a)(p \<mapsto> n)"
      and "ch_size (m_chunk_slab (subsume_next i n a) i) = n" and "ch_data (m_chunk_slab (subsume_next i n a) i) = p"
proof -
  let ?s = "m_chunk_slab a"
  obtain "is" fl where rel: "arena_rel base lim a is fl"
    using inv by (auto simp: arena_inv_def)
  have i: "i \<in> set is" "\<not> ch_free (?s i)" "ch_data (?s i) = p"
    using relD(2) [OF rel] u by (auto simp: used_map_ok_def)
  obtain xs zs where sp0: "is = xs @ i # zs"
    using split_list [OF i(1)] by blast
  then obtain j ys where sp: "is = xs @ i # j # ys" "ch_next (?s i) = j"
    using shapeD(1) [OF relD(1) [OF rel]] nx(1) by (cases zs) auto
  note rel' = rel [unfolded sp(1)]
  have fj: "ch_free (?s j)"
    using nx(2) sp(2) by simp
  show ?thesis
  proof (cases "ch_size (?s i) + ch_size (?s j) < n")
    case True
    then show ?thesis
      using small subsume_next_too_small [of a i n] n(3) sp(2) by (simp add: slab_def)
  next
    case False
    then have le: "n \<le> ch_size (?s i) + ch_size (?s j)"
      by simp
    let ?a' = "subsume_next i n a"
    let ?bx = "blocks ?s xs" and ?by = "blocks ?s ys"
    obtain is' fl' where r': "arena_rel base lim ?a' is' fl'"
      "blocks (m_chunk_slab ?a') is' = ?bx @ grown n (chunk_block (?s i)) (chunk_block (?s j)) @ ?by"
      using subsume_next_rel [OF rel' i(2) fj n(1) le n(2)] by blast
    have til: "tiles base (?bx @ chunk_block (?s i) # chunk_block (?s j) # ?by) lim"
      using relD(3) [OF rel'] by simp
    have nb: "q \<noteq> p" if "Block q m False \<in> set (?bx @ ?by)" for q m
      using tiles_other_addr [OF til, of "Block q m False"] that i(3) by auto
    have lv: "live a q = Some m \<longleftrightarrow> (q = p \<and> m = ch_size (?s i)) \<or> Block q m False \<in> set (?bx @ ?by)" for q m
    proof -
      have "Block q m False \<noteq> chunk_block (?s j)" "Block q m False = chunk_block (?s i) \<longleftrightarrow> q = p \<and> m = ch_size (?s i)"
        using i(2,3) fj by (auto simp: chunk_block_def)
      then show ?thesis
        unfolding live_iff [OF rel'] by auto
    qed
    have lv': "live ?a' q = Some m \<longleftrightarrow> (q = p \<and> m = n) \<or> Block q m False \<in> set (?bx @ ?by)" for q m
      unfolding live_iff [OF r'(1)] r'(2) using grown_live [of "chunk_block (?s i)" "chunk_block (?s j)"] i fj by simp
    have "live ?a' = (live a)(p \<mapsto> n)"
    proof (rule map_eqI)
      fix q m
      show "live ?a' q = Some m \<longleftrightarrow> ((live a)(p \<mapsto> n)) q = Some m"
        using lv [of q m] lv' [of q m] nb [of q m] by auto
    qed
    moreover have "ch_size (m_chunk_slab ?a' i) = n" "ch_data (m_chunk_slab ?a' i) = p"
      using subsume_next_slab(1) [OF rel' n(1) le, of i] i(3) by (simp_all split: if_splits)
    ultimately show ?thesis
      using grown rel_inv [OF r'(1)] by blast
  qed
qed


lemma new_chunk_map: "m_used_chunk_map (snd (new_chunk n p sz f d a)) = m_used_chunk_map a"
  by (simp add: new_chunk_def Let_def slab_upd_def)

lemma split_next_map: "m_used_chunk_map (snd (split_next i n a)) = m_used_chunk_map a"
  using new_chunk_map [of "ch_next (slab a i)" i "sub64 (ch_size (slab a i)) n" True
      "add32 (ch_data (slab a i)) (n mod 2 ^ 32)" a]
  by (auto simp: split_next_def Let_def slab_upd_def split: prod.splits sum.splits)

lemma split_and_claim_map:
  "split_and_claim i n a = (Inr q, a') \<Longrightarrow> p \<noteq> q \<Longrightarrow> m_used_chunk_map a' p = m_used_chunk_map a p"
  using split_next_map [of i n a]
  by (auto simp: split_and_claim_def claim_chunk_def Let_def slab_upd_def split: prod.splits sum.splits)

lemma arena_malloc_map:
  "arena_malloc n a = Some (Inr q, a') \<Longrightarrow> p \<noteq> q \<Longrightarrow> m_used_chunk_map a' p = m_used_chunk_map a p"
  using split_and_claim_map [of _ "fixup_size n" "a\<lparr>m_allocation_counter := add32 (m_allocation_counter a) 1\<rparr>" q a' p]
  by (auto simp: arena_malloc_def Let_def split: option.splits if_splits)

text \<open>The ways a call of \<open>realloc\<close> on a live pointer can end.\<close>

lemma arena_realloc_cases:
  fixes newsize :: nat
  assumes inv: "arena_inv base lim a" and lv: "live a p = Some old" and p: "p \<noteq> 0"
  defines "n \<equiv> fixup_size newsize"
  obtains (fits) "arena_realloc unknown p newsize a = Some (Inr (p, 0), a)" and "n \<le> old"
    | (in_place) a' where "arena_realloc unknown p newsize a = Some (Inr (p, 0), a')" and "old < n"
      and "arena_inv base lim a'" and "live a' = (live a)(p \<mapsto> n)"
    | (moved) q a' where "arena_realloc unknown p newsize a = Some (Inr (q, old), a')" and "old < n"
      and "arena_inv base lim a'" and "live a' = (live a)(q \<mapsto> n, p := None)" and "q \<noteq> 0" and "live a q = None"
      and "\<And>r m. live a r = Some m \<Longrightarrow> {r ..< r + m} \<inter> {q ..< q + n} = {}"
    | (failed) a' where "arena_realloc unknown p newsize a = Some (Inr (0, 0), a')" and "old < n"
      and "arena_inv base lim a'" and "live a' = live a"
    | (full) a' where "arena_realloc unknown p newsize a = Some (Inl (MachineException INVALID_PROGRAM (m_max_chunks a)), a')"
      and "old < n" and "arena_inv base lim a'" and "live a' = live a"
proof -
  define i where "i = begin_find_used p a"
  have u: "m_used_chunk_map a p = Some i" and sz: "ch_size (m_chunk_slab a i) = old" and ni: "i \<noteq> NO_CHUNK"
    using begin_find_used_live [OF inv, of p] lv by (auto simp: i_def)
  have d: "ch_data (m_chunk_slab a i) = p"
    by (rule inv_used(2) [OF inv u])
  have ff: "fixup_size n = n"
  proof -
    have "16 dvd n" "n < 2 ^ 64" "16 \<le> n"
      using fixup_size_props fixup_size_less64 by (simp_all add: n_def)
    then obtain k where k: "n = 16 * k" "16 * k + 15 < 2 ^ 64"
      by (auto elim!: dvdE)
    then show ?thesis
      using \<open>16 \<le> n\<close> by (simp add: fixup_size_def word_align_def add64_exact align_down_def)
  qed
  define nx where "nx = ch_next (m_chunk_slab a i)"
  show ?thesis
  proof (cases "n \<le> old")
    case True
    then show ?thesis
      using fits p ni sz d by (simp add: arena_realloc_def i_def [symmetric] slab_def n_def)
  next
    case False
    then have lt: "ch_size (m_chunk_slab a i) < n" "old < n"
      using sz by simp_all
    have unf: "arena_realloc unknown p newsize a =
       (if nx \<noteq> NO_CHUNK \<and> ch_free (m_chunk_slab a nx) \<and> n \<le> ch_size (m_chunk_slab (subsume_next i n a) i)
        then Some (Inr (ch_data (m_chunk_slab (subsume_next i n a) i), 0), subsume_next i n a)
        else case arena_malloc n (if nx \<noteq> NO_CHUNK \<and> ch_free (m_chunk_slab a nx) then subsume_next i n a else a) of
             None \<Rightarrow> None
           | Some (Inl e, a2) \<Rightarrow> Some (Inl e, a2)
           | Some (Inr newptr, a2) \<Rightarrow>
              (if newptr \<noteq> 0 then Some (Inr (newptr, old), internal_free i a2) else Some (Inr (0, 0), a2)))"
      using p ni lt sz by (simp add: arena_realloc_def i_def [symmetric] slab_def n_def [symmetric] nx_def [symmetric] Let_def)
    have move: thesis if eq: "arena_realloc unknown p newsize a = (case arena_malloc n a of
             None \<Rightarrow> None
           | Some (Inl e, a2) \<Rightarrow> Some (Inl e, a2)
           | Some (Inr newptr, a2) \<Rightarrow>
              (if newptr \<noteq> 0 then Some (Inr (newptr, old), internal_free i a2) else Some (Inr (0, 0), a2)))"
    proof (cases rule: arena_malloc_cases [OF inv, of n])
      case (1 a')
      then show ?thesis
        using failed eq lt by simp
    next
      case (2 a')
      then show ?thesis
        using full eq lt by simp
    next
      case (3 q a')
      have qp: "q \<noteq> p" "q \<noteq> 0"
        using 3(4-6) lv by auto
      have u': "m_used_chunk_map a' p = Some i"
        using arena_malloc_map [OF 3(1)] qp u by auto
      have "live (internal_free i a') = (live a)(q \<mapsto> n, p := None)"
        using internal_free_live(2) [OF 3(2) u'] 3(3) ff by simp
      then show ?thesis
        using moved [of q "internal_free i a'"] eq 3(1,4,9) ff qp(2) lt(2) internal_free_live(1) [OF 3(2) u'] by simp
    qed
    show ?thesis
    proof (cases "nx \<noteq> NO_CHUNK \<and> ch_free (m_chunk_slab a nx)")
      case True
      then have t: "ch_next (m_chunk_slab a i) \<noteq> NO_CHUNK" "ch_free (m_chunk_slab a (ch_next (m_chunk_slab a i)))"
        by (simp_all add: nx_def)
      have n16: "16 dvd n" "n < 2 ^ 64"
        using fixup_size_props fixup_size_less64 by (simp_all add: n_def)
      show ?thesis
      proof (cases rule: subsume_next_live [OF inv u t lt(1) n16])
        case 1
        then show ?thesis
          using move unf lt True by simp
      next
        case 2
        then show ?thesis
          using in_place unf True lt by simp
      qed
    next
      case False
      then show ?thesis
        using move unf by auto
    qed
  qed
qed

section \<open>Page-contained allocation\<close>

text \<open>The region handed out by an allocation of \<open>n\<close> bytes at \<open>p\<close>.\<close>

definition fresh_region :: "nat \<Rightarrow> nat \<Rightarrow> Arena \<Rightarrow> nat \<Rightarrow> nat \<Rightarrow> Arena \<Rightarrow> bool" where
  "fresh_region base lim a p n a' \<longleftrightarrow>
     live a' = (live a)(p \<mapsto> n) \<and> live a p = None \<and> base \<le> p \<and> p + n \<le> lim \<and> 16 dvd p \<and>
     (\<forall>q m. live a q = Some m \<longrightarrow> {q ..< q + m} \<inter> {p ..< p + n} = {})"

lemma split_and_claim_live:
  assumes rel: "arena_rel base lim a (xs @ i # ys) fl" and free: "ch_free (m_chunk_slab a i)"
    and n: "0 < n" "n \<le> ch_size (m_chunk_slab a i)" "16 dvd n"
  obtains (full) e where "split_and_claim i n a = (Inl e, a)"
    | (claimed) a' where "split_and_claim i n a = (Inr (ch_data (m_chunk_slab a i)), a')"
      and "arena_inv base lim a'" and "fresh_region base lim a (ch_data (m_chunk_slab a i)) n a'"
proof (cases rule: split_and_claim_rel [OF rel free n])
  case 1
  then show ?thesis
    using full by blast
next
  case (2 a' is' fl')
  let ?p = "ch_data (m_chunk_slab a i)"
  have bl: "blocks (m_chunk_slab a) (xs @ i # ys) =
      blocks (m_chunk_slab a) xs @ chunk_block (m_chunk_slab a i) # blocks (m_chunk_slab a) ys"
    by simp
  note lc = live_carve_at [OF rel 2(2) bl _ _ _ 2(3), of ?p, unfolded chunk_block_sel, OF free n(2) refl]
  have "16 dvd ?p"
    using relD(4) [OF rel, of i] by simp
  then have "fresh_region base lim a ?p n a'"
    using lc unfolding fresh_region_def by blast
  then show ?thesis
    using claimed 2(1) rel_inv [OF 2(2)] by blast
qed

lemma same_page:
  assumes "4096 dvd p" and "0 < n" and "n \<le> (4096::nat)"
  shows "p div 4096 = (p + n - 1) div 4096"
  using assms by (auto elim!: dvdE)

lemma align_down_eq_div: "align_down 12 x = align_down 12 y \<longleftrightarrow> x div 4096 = y div 4096"
  by (simp add: align_down_def)

text \<open>Outcome of the search from any point of the chunk list.\<close>

definition seq_outcome :: "nat \<Rightarrow> nat \<Rightarrow> nat \<Rightarrow> Arena \<Rightarrow> (nat, Arena) thrown \<Rightarrow> bool" where
  "seq_outcome base lim n a out \<longleftrightarrow>
    (case out of (r, a') \<Rightarrow> arena_inv base lim a' \<and>
      (case r of
         Inl e \<Rightarrow> live a' = live a
       | Inr p \<Rightarrow> if p = 0 then live a' = live a
                  else fresh_region base lim a p n a' \<and> p div 4096 = (p + n - 1) div 4096))"

lemma seq_alloc_at:
  assumes rel: "arena_rel base lim a (xs @ i # ys) fl" and free: "ch_free (m_chunk_slab a i)"
    and n: "0 < n" "n \<le> 4096" "n \<le> ch_size (m_chunk_slab a i)" "16 dvd n"
    and page: "ch_data (m_chunk_slab a i) div 4096 = (ch_data (m_chunk_slab a i) + n - 1) div 4096"
  shows "seq_outcome base lim n a (split_and_claim i n a)"
proof (cases rule: split_and_claim_live [OF rel free n(1,3,4)])
  case (1 e)
  then show ?thesis
    using rel_inv [OF rel] by (simp add: seq_outcome_def)
next
  case (2 a')
  have "ch_data (m_chunk_slab a i) \<noteq> 0"
    using rel_chunk_bounds(1) [OF rel, of i] relD(5) [OF rel] by simp
  then show ?thesis
    using 2 page by (simp add: seq_outcome_def)
qed

lemma split_next_live:
  assumes rel: "arena_rel base lim a (xs @ i # ys) fl" and free: "ch_free (m_chunk_slab a i)"
    and n: "0 < n" "n < ch_size (m_chunk_slab a i)" "16 dvd n"
  obtains (full) e where "split_next i n a = (Inl e, a)"
    | (split) j a' fl' where "split_next i n a = (Inr (), a')"
      and "arena_rel base lim a' (xs @ i # j # ys) fl'"
      and "chunk_block (m_chunk_slab a' j) =
             Block (ch_data (m_chunk_slab a i) + n) (ch_size (m_chunk_slab a i) - n) True"
      and "live a' = live a"
proof (cases rule: split_next_rel [OF rel free n])
  case 1
  then show ?thesis
    using full by blast
next
  case (2 j a' fl')
  have "live a' q = Some m \<longleftrightarrow> live a q = Some m" for q m
  proof -
    have "Block q m False \<noteq> chunk_block (m_chunk_slab a i)"
      using free by (auto simp: chunk_block_def)
    then show ?thesis
      unfolding live_iff [OF rel] live_iff [OF 2(2)] by (simp add: 2(3-6))
  qed
  then show ?thesis
    using split 2(1,2,4) map_eqI [of "live a'" "live a"] by blast
qed

lemma seq_outcome_live: "live a1 = live a \<Longrightarrow> seq_outcome base lim n a1 out \<longleftrightarrow> seq_outcome base lim n a out"
  by (cases out; cases "fst out") (simp_all add: seq_outcome_def fresh_region_def)

lemma find_Some_split:
  "List.find P zs = Some i \<Longrightarrow> \<exists>us vs. zs = us @ i # vs \<and> P i"
proof (induction zs)
  case (Cons z zs)
  then show ?case
    by (cases "P z") (auto intro: exI [of _ "[]"], metis append_Cons)
qed simp

lemma seq_alloc_loop_correct:
  assumes rel: "arena_rel base lim a (ws @ zs) fl" and n: "0 < n" "n \<le> 4096" "16 dvd n"
  shows "\<exists>out. seq_alloc_loop n a (hd_or NO_CHUNK zs) = Some out \<and> seq_outcome base lim n a out"
  using rel
proof (induction "length zs" arbitrary: ws zs rule: less_induct)
  case less
  let ?s = "m_chunk_slab a"
  have sh: "arena_shape a (ws @ zs) fl"
    by (rule relD(1) [OF less.prems])
  have inv: "arena_inv base lim a"
    by (rule rel_inv [OF less.prems])
  have seg: "lseg ?s (last_or NO_CHUNK ws) zs NO_CHUNK" "NO_CHUNK \<notin> set zs"
    using shapeD(1) [OF sh] shape_NO_CHUNK_notin [OF sh] by auto
  note ff = find_free_from_correct [OF seg, of n]
  show ?case
  proof (cases "List.find (\<lambda>i. ch_free (?s i) \<and> n \<le> ch_size (?s i)) zs")
    case None
    then show ?thesis
      using ff inv by (subst seq_alloc_loop.simps) (simp add: seq_outcome_def)
  next
    case (Some i)
    obtain us ys where zs: "zs = us @ i # ys" and free: "ch_free (?s i)" and big: "n \<le> ch_size (?s i)"
      using find_Some_split [OF Some] by blast
    let ?d = "ch_data (?s i)"
    define xs where "xs = ws @ us"
    have rel: "arena_rel base lim a (xs @ i # ys) fl"
      using less.prems zs by (simp add: xs_def)
    have inn: "i \<noteq> NO_CHUNK"
      using seg(2) zs by auto
    have bd: "?d + ch_size (?s i) < 2 ^ 32" "16 dvd ?d"
      using rel_chunk_bounds(3) [OF rel, of i] relD(6) [OF rel] relD(4) [OF rel, of i] by simp_all
    have lastb: "sub64 (add64 ?d n) 1 = ?d + n - 1"
      using bd big n by (simp add: add64_exact sub64_exact)
    define boundary where "boundary = align_down 12 (?d + n - 1)"
    have ble: "boundary \<le> ?d + n - 1"
      unfolding boundary_def by (rule align_down_le)
    then have bmod: "boundary mod 4294967296 = boundary" "boundary \<le> ?d + n - 1"
      using bd(1) big n(1) by simp_all
    have fi: "find_free_from a n (hd_or NO_CHUNK zs) = Some i"
      using ff Some by simp
    show ?thesis
    proof (cases "align_down 12 ?d = boundary")
      case True
      then have "seq_alloc_loop n a (hd_or NO_CHUNK zs) = Some (split_and_claim i n a)"
        by (subst seq_alloc_loop.simps) (simp add: fi inn slab_def lastb Let_def boundary_def del: One_nat_def)
      moreover have "?d div 4096 = (?d + n - 1) div 4096"
        using True by (simp add: boundary_def align_down_eq_div)
      ultimately show ?thesis
        using seq_alloc_at [OF rel free n(1,2) big n(3)] by blast
    next
      case False
      define rem where "rem = boundary - ?d"
      have mono: "align_down 12 ?d \<le> boundary"
        using n(1) by (simp add: boundary_def align_down_mono)
      have dv: "4096 dvd boundary" "4096 dvd align_down 12 ?d"
        using align_down_dvd [of 12] by (simp_all add: boundary_def)
      have lt: "?d < boundary"
      proof -
        obtain k1 k2 where k: "boundary = 4096 * k1" "align_down 12 ?d = 4096 * k2"
          using dv by (auto elim!: dvdE)
        then have "align_down 12 ?d + 4096 \<le> boundary"
          using mono False by simp
        then show ?thesis
          using align_down_gt [of ?d 12] by simp
      qed
      have "16 dvd boundary"
        using dv(1) dvd_trans [of 16 4096 boundary] by simp
      then have rem: "0 < rem" "rem < n" "16 dvd rem" "sub32 boundary ?d = rem" "?d + rem = boundary"
        using lt bd bmod big by (simp_all add: rem_def sub32_exact dvd_diff_nat)
      have srem: "sub64 (ch_size (?s i)) rem = ch_size (?s i) - rem"
        using rem big bd by (simp add: sub64_exact)
      have nxt: "ch_next (?s i) = hd_or NO_CHUNK ys"
        using shapeD(1) [OF relD(1) [OF rel]] by simp
      have hn: "hd_or NO_CHUNK ys = NO_CHUNK \<longleftrightarrow> ys = []"
        using seg(2) zs by (cases ys) auto
      have unf: "seq_alloc_loop n a (hd_or NO_CHUNK zs) =
         (if ch_size (?s i) - rem < n then
            (if ys = [] then Some (Inr 0, a) else seq_alloc_loop n a (hd_or NO_CHUNK ys))
          else (case split_next i rem a of
              (Inl e, a1) \<Rightarrow> Some (Inl e, a1)
            | (Inr _, a1) \<Rightarrow> Some (split_and_claim (ch_next (slab a1 i)) n a1)))"
        using False lt inn hn
        by (subst seq_alloc_loop.simps)
          (simp add: fi slab_def lastb Let_def boundary_def [symmetric] bmod rem srem nxt del: One_nat_def)
      show ?thesis
      proof (cases "ch_size (?s i) - rem < n")
        case True
        have "arena_rel base lim a ((xs @ [i]) @ ys) fl" "length ys < length zs"
          using rel zs by simp_all
        then have "\<exists>out. seq_alloc_loop n a (hd_or NO_CHUNK ys) = Some out \<and> seq_outcome base lim n a out"
          using less.hyps by blast
        then show ?thesis
          using True unf inv by (cases "ys = []") (simp_all add: seq_outcome_def)
      next
        case False
        have lt2: "rem < ch_size (?s i)"
          using rem big by simp
        show ?thesis
        proof (cases rule: split_next_live [OF rel free rem(1) lt2 rem(3)])
          case (1 e)
          then show ?thesis
            using False unf inv by (simp add: seq_outcome_def)
        next
          case (2 j a1 fl1)
          have rel1: "arena_rel base lim a1 ((xs @ [i]) @ j # ys) fl1"
            using 2(2) by simp
          have j: "ch_free (m_chunk_slab a1 j)" "ch_data (m_chunk_slab a1 j) = boundary"
            "ch_size (m_chunk_slab a1 j) = ch_size (?s i) - rem"
            using 2(3) rem(5) by (simp_all add: chunk_block_def)
          have "ch_next (m_chunk_slab a1 i) = j"
            using shapeD(1) [OF relD(1) [OF 2(2)]] by simp
          then have eq: "seq_alloc_loop n a (hd_or NO_CHUNK zs) = Some (split_and_claim j n a1)"
            using False unf 2(1) by (simp add: slab_def)
          have "seq_outcome base lim n a1 (split_and_claim j n a1)"
            by (rule seq_alloc_at [OF rel1 j(1) n(1,2) _ n(3)])
              (use False j same_page [OF dv(1) n(1,2)] in simp_all)
          then show ?thesis
            using eq seq_outcome_live [OF 2(4)] by blast
        qed
      qed
    qed
  qed
qed

section \<open>Walks\<close>

lemma fold_chunks_correct:
  assumes "lseg (m_chunk_slab a) p ys NO_CHUNK" and "NO_CHUNK \<notin> set ys"
  shows "fold_chunks a f (hd_or NO_CHUNK ys) acc = Some (fold f (map (m_chunk_slab a) ys) acc)"
  using assms
proof (induction ys arbitrary: p acc)
  case Nil
  then show ?case
    by (subst fold_chunks.simps) simp
next
  case (Cons i ys)
  then show ?case
    using Cons.IH [of i "f (m_chunk_slab a i) acc"] by (subst fold_chunks.simps) (simp add: slab_def)
qed

lemma fold_chunks_rel:
  assumes rel: "arena_rel base lim a is fl"
  shows "fold_chunks a f 0 acc = Some (fold f (map (m_chunk_slab a) is) acc)"
proof -
  have "hd_or NO_CHUNK is = 0"
    using shapeD(5,6) [OF relD(1) [OF rel]] by (cases "is") auto
  then show ?thesis
    using fold_chunks_correct [OF shapeD(1) [OF relD(1) [OF rel]]] shape_NO_CHUNK_notin [OF relD(1) [OF rel]] by simp
qed

text \<open>Summing the sizes of some blocks of a tiling never wraps.\<close>

lemma fold_sum_sizes:
  assumes "acc + sum_list (map b_size (blocks s is)) < 2 ^ 64"
  shows "fold (\<lambda>ch t. if P (ch_free ch) then add64 t (ch_size ch) else t) (map s is) acc =
    acc + sum_list (map b_size (filter (\<lambda>b. P (b_free b)) (blocks s is)))"
  using assms
proof (induction "is" arbitrary: acc)
  case (Cons i ks)
  show ?case
  proof (cases "P (ch_free (s i))")
    case True
    then show ?thesis
      using Cons.prems Cons.IH [of "acc + ch_size (s i)"] by (simp add: add64_exact)
  next
    case False
    then show ?thesis
      using Cons by simp
  qed
qed simp

lemma sum_list_partition:
  "sum_list (map f (filter P xs)) + sum_list (map f (filter (\<lambda>x. \<not> P x) xs)) = (sum_list (map f xs) :: nat)"
  by (induction xs) auto

lemma bytes_rel:
  assumes rel: "arena_rel base lim a is fl"
  shows "bytes_free a = Some (sum_list (map b_size (filter b_free (blocks (m_chunk_slab a) is))))"
    and "bytes_used a = Some (sum_list (map b_size (filter (\<lambda>b. \<not> b_free b) (blocks (m_chunk_slab a) is))))"
proof -
  have "sum_list (map b_size (blocks (m_chunk_slab a) is)) < 2 ^ 64"
    using tiles_sum [OF relD(3) [OF rel]] relD(6) [OF rel] by simp
  then have lt: "0 + sum_list (map b_size (blocks (m_chunk_slab a) is)) < 2 ^ 64"
    by simp
  show "bytes_free a = Some (sum_list (map b_size (filter b_free (blocks (m_chunk_slab a) is))))"
    using fold_sum_sizes [OF lt, of "\<lambda>f. f"] by (simp add: bytes_free_def fold_chunks_rel [OF rel])
  show "bytes_used a = Some (sum_list (map b_size (filter (\<lambda>b. \<not> b_free b) (blocks (m_chunk_slab a) is))))"
    using fold_sum_sizes [OF lt, of "\<lambda>f. \<not> f"] by (simp add: bytes_used_def fold_chunks_rel [OF rel])
qed

lemma bytes_total:
  assumes "arena_inv base lim a"
  shows "\<exists>f u. bytes_free a = Some f \<and> bytes_used a = Some u \<and> f + u = lim - base"
proof -
  obtain "is" fl where rel: "arena_rel base lim a is fl"
    using assms by (auto simp: arena_inv_def)
  show ?thesis
    using bytes_rel [OF rel] tiles_sum [OF relD(3) [OF rel]]
      sum_list_partition [of b_size b_free "blocks (m_chunk_slab a) is"] by simp
qed

text \<open>The watermark is the end of the last live block, and the start of the arena when nothing is live.\<close>

lemma fold_watermark:
  assumes "\<And>i. i \<in> set is \<Longrightarrow> ch_data (s i) + ch_size (s i) < 2 ^ 32"
    and "w = fold (\<lambda>ch hwm. if \<not> ch_free ch then max hwm (add32 (ch_data ch) (ch_size ch mod 2 ^ 32)) else hwm) (map s is) acc"
  shows "acc \<le> w \<and> (\<forall>b \<in> set (blocks s is). \<not> b_free b \<longrightarrow> b_addr b + b_size b \<le> w) \<and>
    (w = acc \<or> (\<exists>b \<in> set (blocks s is). \<not> b_free b \<and> w = b_addr b + b_size b))"
  using assms
proof (induction "is" arbitrary: acc)
  case (Cons i ks)
  let ?acc = "if \<not> ch_free (s i) then max acc (ch_data (s i) + ch_size (s i)) else acc"
  have st: "add32 (ch_data (s i)) (ch_size (s i) mod 2 ^ 32) = ch_data (s i) + ch_size (s i)"
    using Cons.prems(1) [of i] by (simp add: add32_exact)
  have "w = fold (\<lambda>ch hwm. if \<not> ch_free ch then max hwm (add32 (ch_data ch) (ch_size ch mod 2 ^ 32)) else hwm) (map s ks) ?acc"
    using Cons.prems(2) by (simp only: list.map fold.simps comp_apply st)
  then have "?acc \<le> w \<and> (\<forall>b \<in> set (blocks s ks). \<not> b_free b \<longrightarrow> b_addr b + b_size b \<le> w) \<and>
    (w = ?acc \<or> (\<exists>b \<in> set (blocks s ks). \<not> b_free b \<and> w = b_addr b + b_size b))"
    using Cons.IH [of ?acc] Cons.prems(1) by simp
  then show ?case
    by (auto simp: max_def split: if_splits)
qed simp

lemma high_watermark_correct:
  assumes inv: "arena_inv base lim a"
  shows "\<exists>w. high_watermark a = Some w \<and> base \<le> w \<and> w \<le> lim \<and> 
    (\<forall>p n. live a p = Some n \<longrightarrow> p + n \<le> w) \<and> (w = base \<or> (\<exists>p n. live a p = Some n \<and> w = p + n))"
proof -
  obtain "is" fl where rel: "arena_rel base lim a is fl"
    using inv by (auto simp: arena_inv_def)
  let ?w = "fold (\<lambda>ch hwm. if \<not> ch_free ch then max hwm (add32 (ch_data ch) (ch_size ch mod 2 ^ 32)) else hwm)
     (map (m_chunk_slab a) is) (ch_data (m_chunk_slab a 0))"
  have b0: "ch_data (m_chunk_slab a 0) = base"
    using relD(3) [OF rel] shapeD(5,6) [OF relD(1) [OF rel]] by (cases "is") auto
  have "ch_data (m_chunk_slab a i) + ch_size (m_chunk_slab a i) < 2 ^ 32" if "i \<in> set is" for i
    using rel_chunk_bounds(3) [OF rel that] relD(6) [OF rel] by simp
  then have w: "base \<le> ?w" "\<And>b. b \<in> set (blocks (m_chunk_slab a) is) \<Longrightarrow> \<not> b_free b \<Longrightarrow> b_addr b + b_size b \<le> ?w"
    "?w = base \<or> (\<exists>b \<in> set (blocks (m_chunk_slab a) is). \<not> b_free b \<and> ?w = b_addr b + b_size b)"
    using fold_watermark [of "is" "m_chunk_slab a" ?w base] unfolding b0 by blast+
  have "?w = base \<or> (\<exists>p n. live a p = Some n \<and> ?w = p + n)"
  proof (rule disjE [OF w(3)])
    assume "\<exists>b \<in> set (blocks (m_chunk_slab a) is). \<not> b_free b \<and> ?w = b_addr b + b_size b"
    then obtain b where b: "b \<in> set (blocks (m_chunk_slab a) is)" "\<not> b_free b" "?w = b_addr b + b_size b"
      by blast
    have "live a (b_addr b) = Some (b_size b)"
      unfolding live_iff [OF rel] using b(1,2) block.collapse [of b] by simp
    then show ?thesis
      using b(3) by blast
  qed simp
  moreover from this have "?w \<le> lim"
    using inv_live_region(3) [OF inv] tiles_le [OF relD(3) [OF rel]] by auto
  moreover have "\<forall>p n. live a p = Some n \<longrightarrow> p + n \<le> ?w"
    unfolding live_iff [OF rel] using w(2) by fastforce
  moreover have "high_watermark a = Some ?w"
    unfolding high_watermark_def fold_chunks_rel [OF rel] slab_def ..
  ultimately show ?thesis
    using w(1) by blast
qed

section \<open>A fresh arena\<close>

lemma Arena_ctor_inv:
  assumes "0 < base" and "base < lim" and "lim < 2 ^ 32" and "16 dvd base"
  shows "arena_inv base lim (Arena_ctor base lim)" and "live (Arena_ctor base lim) = (\<lambda>_. None)"
proof -
  have "arena_rel base lim (Arena_ctor base lim) [0] []"
    using assms
    by (simp add: arena_rel_def arena_shape_def used_map_ok_def Arena_ctor_def sub32_exact NO_CHUNK_def lessThan_Suc)
  then show "arena_inv base lim (Arena_ctor base lim)"
    by (rule rel_inv)
qed (simp add: live_def Arena_ctor_def fun_eq_iff)

end
