(* ===== verification/Heap_Ops.thy ===== *)
theory Heap_Ops
  imports Arena_Guest
begin

text \<open>
  The heap as a server for the guest's allocation calls: the contract any
  sequence of calls can rely on, and the two servers of the program, the
  arena of a master VM and the arena of a fork with its callbacks for
  pointers of the master (\<open>src/src/script.cpp\<close>, fork constructor).
\<close>

section \<open>Contract\<close>

locale heap_server =
  fixes inv :: "'s \<Rightarrow> bool" and live :: "'s \<Rightarrow> nat \<rightharpoonup> nat"
    and step :: "'op \<Rightarrow> 's \<Rightarrow> ('r, 's) thrown option" and touches :: "'op \<Rightarrow> nat \<Rightarrow> bool"
    and lo :: nat and hi :: nat
  assumes step_total: "inv s \<Longrightarrow> \<exists>r s'. step x s = Some (r, s')"
    and step_inv: "inv s \<Longrightarrow> step x s = Some (r, s') \<Longrightarrow> inv s'"
    and step_frame: "inv s \<Longrightarrow> step x s = Some (r, s') \<Longrightarrow> \<not> touches x p \<Longrightarrow> live s p = Some n \<Longrightarrow> live s' p = Some n"
    and region: "inv s \<Longrightarrow> live s p = Some n \<Longrightarrow> lo \<le> p \<and> p + n \<le> hi"
    and separate: "inv s \<Longrightarrow> live s p = Some n \<Longrightarrow> live s q = Some m \<Longrightarrow> p \<noteq> q \<Longrightarrow>
      {p ..< p + n} \<inter> {q ..< q + m} = {}"
begin

lemma run_total: "inv s \<Longrightarrow> \<exists>s'. run_ops step xs s = Some s' \<and> inv s'"
proof (induction xs arbitrary: s)
  case (Cons x xs)
  then obtain r s1 where "step x s = Some (r, s1)" "inv s1"
    using step_total step_inv by blast
  then show ?case
    using Cons.IH by simp
qed simp

lemma run_frame:
  "inv s \<Longrightarrow> run_ops step xs s = Some s' \<Longrightarrow> \<forall>x \<in> set xs. \<not> touches x p \<Longrightarrow> live s p = Some n \<Longrightarrow> live s' p = Some n"
proof (induction xs arbitrary: s)
  case (Cons x xs)
  then obtain r s1 where s1: "step x s = Some (r, s1)"
    by (auto split: option.splits)
  moreover have "inv s1" "live s1 p = Some n"
    using step_inv step_frame s1 Cons.prems by auto
  ultimately show ?case
    using Cons by simp
qed simp

text \<open>
  The guarantee a guest relies on: whatever the calls, an allocation it holds
  stays live with its size, and no other live allocation ever overlaps it.
\<close>

lemma run_safe:
  assumes "inv s" and "live s p = Some n" and "\<forall>x \<in> set xs. \<not> touches x p"
  shows "\<exists>s'. run_ops step xs s = Some s' \<and> live s' p = Some n \<and>
    (\<forall>q m. live s' q = Some m \<longrightarrow> lo \<le> q \<and> q + m \<le> hi \<and> (q \<noteq> p \<longrightarrow> {q ..< q + m} \<inter> {p ..< p + n} = {}))"
proof -
  obtain s' where s': "run_ops step xs s = Some s'" "inv s'"
    using run_total [OF assms(1)] by blast
  have "live s' p = Some n"
    by (rule run_frame [OF assms(1) s'(1) assms(3,2)])
  then show ?thesis
    using s' region [OF s'(2)] separate [OF s'(2)] by blast
qed

end

section \<open>The guest's heap calls\<close>

datatype heap_op = Op_malloc nat | Op_free nat | Op_realloc nat nat | Op_seq_alloc nat

fun op_touches :: "heap_op \<Rightarrow> nat \<Rightarrow> bool" where
  "op_touches (Op_free q) p = (q = p)"
| "op_touches (Op_realloc q n) p = (q = p)"
| "op_touches _ p = False"

definition heap_step ::
  "(nat \<Rightarrow> ArenaChunk option \<Rightarrow> int) \<Rightarrow> (nat \<Rightarrow> nat \<Rightarrow> Arena \<Rightarrow> (nat \<times> nat, Arena) thrown option) \<Rightarrow>
    heap_op \<Rightarrow> Arena \<Rightarrow> (int, Arena) thrown option" where
  "heap_step ufree urealloc x a =
    (case x of
       Op_malloc n \<Rightarrow> map_option (\<lambda>(r, a'). (map_sum id int r, a')) (arena_malloc n a)
     | Op_free p \<Rightarrow> (let (r, a') = arena_free ufree p a in Some (Inr r, a'))
     | Op_realloc p n \<Rightarrow> map_option (\<lambda>(r, a'). (map_sum id (int \<circ> fst) r, a')) (arena_realloc urealloc p n a)
     | Op_seq_alloc n \<Rightarrow> map_option (\<lambda>(r, a'). (map_sum id int r, a')) (seq_alloc_aligned n 16 False a))"

text \<open>The callbacks of a forked VM.\<close>

definition fork_unknown_free :: "nat \<Rightarrow> ArenaChunk option \<Rightarrow> int" where
  "fork_unknown_free ptr ch = 0"

definition fork_unknown_realloc :: "Arena \<Rightarrow> nat \<Rightarrow> nat \<Rightarrow> Arena \<Rightarrow> (nat \<times> nat, Arena) thrown option" where
  "fork_unknown_realloc src_arena ptr newsize a =
    (let old_len = arena_size ptr False src_arena in
     map_option (\<lambda>(r, a'). (map_sum id (\<lambda>new_ptr. (new_ptr, old_len)) r, a')) (arena_malloc newsize a))"

text \<open>A callback that keeps the arena's contract.\<close>

definition unknown_ok :: "nat \<Rightarrow> nat \<Rightarrow> (nat \<Rightarrow> nat \<Rightarrow> Arena \<Rightarrow> (nat \<times> nat, Arena) thrown option) \<Rightarrow> bool" where
  "unknown_ok base lim u \<longleftrightarrow> (\<forall>p n a. arena_inv base lim a \<longrightarrow>
     (\<exists>r a'. u p n a = Some (r, a') \<and> arena_inv base lim a' \<and>
        (\<forall>q m. live a q = Some m \<longrightarrow> live a' q = Some m)))"

lemma malloc_step:
  assumes "arena_inv base lim a"
  shows "\<exists>r a'. arena_malloc n a = Some (r, a') \<and> arena_inv base lim a' \<and>
    (\<forall>q m. live a q = Some m \<longrightarrow> live a' q = Some m)"
  by (rule arena_malloc_cases [OF assms, of n]) auto

lemma default_unknown_ok: "unknown_ok base lim default_unknown_realloc"
  by (simp add: unknown_ok_def default_unknown_realloc_def)

lemma fork_unknown_ok: "unknown_ok base lim (fork_unknown_realloc src)"
  unfolding unknown_ok_def fork_unknown_realloc_def
proof (intro allI impI)
  fix p n a
  assume "arena_inv base lim a"
  then obtain r a' where "arena_malloc n a = Some (r, a')" "arena_inv base lim a'"
    "\<forall>q m. live a q = Some m \<longrightarrow> live a' q = Some m"
    using malloc_step by blast
  then show "\<exists>r a'. (let old_len = arena_size p False src in
     map_option (\<lambda>(r, a'). (map_sum id (\<lambda>new_ptr. (new_ptr, old_len)) r, a')) (arena_malloc n a)) = Some (r, a') \<and>
     arena_inv base lim a' \<and> (\<forall>q m. live a q = Some m \<longrightarrow> live a' q = Some m)"
    by simp
qed

lemma seq_alloc_step:
  assumes inv: "arena_inv base lim a"
  shows "\<exists>r a'. seq_alloc_aligned n al False a = Some (r, a') \<and> arena_inv base lim a' \<and>
    (\<forall>q m. live a q = Some m \<longrightarrow> live a' q = Some m)"
proof -
  let ?a1 = "a\<lparr>m_allocation_counter := add32 (m_allocation_counter a) 1\<rparr>"
  obtain "is" fl where rel: "arena_rel base lim ?a1 is fl"
    using inv by (auto simp: arena_inv_def rel_counter)
  have h: "hd_or NO_CHUNK is = 0"
    using shapeD(5,6) [OF relD(1) [OF rel]] by (cases "is") auto
  show ?thesis
  proof (cases "fixup_size n > 4096")
    case True
    then show ?thesis
      using rel_inv [OF rel] by (simp add: seq_alloc_aligned_def Let_def)
  next
    case False
    obtain r a' where out: "seq_alloc_loop (fixup_size n) ?a1 0 = Some (r, a')" "seq_outcome base lim (fixup_size n) ?a1 (r, a')"
      using seq_alloc_loop_correct [of base lim ?a1 "[]" "is" fl "fixup_size n"] rel h fixup_size_props False by auto
    have "\<forall>q m. live a q = Some m \<longrightarrow> live a' q = Some m"
      using out(2) by (cases r) (auto simp: seq_outcome_def fresh_region_def split: if_splits)
    then show ?thesis
      using out False by (auto simp: seq_alloc_aligned_def Let_def seq_outcome_def)
  qed
qed

lemma realloc_step:
  assumes inv: "arena_inv base lim a" and u: "unknown_ok base lim u"
  shows "\<exists>r a'. arena_realloc u p n a = Some (r, a') \<and> arena_inv base lim a' \<and>
    (\<forall>q m. q \<noteq> p \<longrightarrow> live a q = Some m \<longrightarrow> live a' q = Some m)"
proof (cases "p = 0")
  case True
  obtain r a' where "arena_malloc n a = Some (r, a')" "arena_inv base lim a'"
    "\<forall>q m. live a q = Some m \<longrightarrow> live a' q = Some m"
    using malloc_step [OF inv] by blast
  then show ?thesis
    using True by (simp add: arena_realloc_def)
next
  case False
  show ?thesis
  proof (cases "live a p")
    case None
    then have "arena_realloc u p n a = u p n a"
      using False begin_find_used_live(1) [OF inv, of p] by (simp add: arena_realloc_def)
    then show ?thesis
      using u [unfolded unknown_ok_def, rule_format, OF inv, of p n] by metis
  next
    case (Some old)
    show ?thesis
      using inv by (cases rule: arena_realloc_cases [OF inv Some False, of u n]) auto
  qed
qed

lemma free_step:
  assumes inv: "arena_inv base lim a"
  shows "arena_inv base lim (snd (arena_free u p a))"
    and "q \<noteq> p \<Longrightarrow> live (snd (arena_free u p a)) q = live a q"
  using inv arena_free_live [OF inv, of p] internal_free_live(1,2) [OF inv, of p "begin_find_used p a"]
    begin_find_used_live(2) [OF inv, of p]
  by (cases "live a p"; simp)+

lemma heap_step_ok:
  assumes inv: "arena_inv base lim a" and u: "unknown_ok base lim u"
  shows "\<exists>r a'. heap_step f u x a = Some (r, a') \<and> arena_inv base lim a' \<and>
    (\<forall>q m. \<not> op_touches x q \<longrightarrow> live a q = Some m \<longrightarrow> live a' q = Some m)"
proof (cases x)
  case (Op_malloc n)
  then show ?thesis
    using malloc_step [OF inv, of n] by (auto simp: heap_step_def)
next
  case (Op_free p)
  then show ?thesis
    using free_step(1) [OF inv, of f p] free_step(2) [OF inv, of _ p f] by (auto simp: heap_step_def split: prod.splits)
next
  case (Op_realloc p n)
  then show ?thesis
    using realloc_step [OF inv u, of p n] by (auto simp: heap_step_def)
next
  case (Op_seq_alloc n)
  then show ?thesis
    using seq_alloc_step [OF inv, of n 16] by (auto simp: heap_step_def)
qed

text \<open>
  The master's arena, and the arena of a fork whose callbacks consult the
  master's arena, are heap servers for the range they manage.
\<close>

interpretation master_heap: heap_server "arena_inv base lim" live
  "heap_step default_unknown_free default_unknown_realloc" op_touches base lim
proof unfold_locales
  fix s :: Arena and x
  assume inv: "arena_inv base lim s"
  note ok = heap_step_ok [OF inv default_unknown_ok, of default_unknown_free x]
  show "\<exists>r s'. heap_step default_unknown_free default_unknown_realloc x s = Some (r, s')"
    using ok by blast
  fix r s'
  assume st: "heap_step default_unknown_free default_unknown_realloc x s = Some (r, s')"
  show "arena_inv base lim s'"
    using ok st by auto
  fix p n
  assume "\<not> op_touches x p" and "live s p = Some n"
  then show "live s' p = Some n"
    using ok st by auto
next
  show "base \<le> p \<and> p + n \<le> lim" if "arena_inv base lim s" "live s p = Some n" for s p n
    using inv_live_region(1,3) [OF that] by blast
  show "{p ..< p + n} \<inter> {q ..< q + m} = {}"
    if "arena_inv base lim s" "live s p = Some n" "live s q = Some m" "p \<noteq> q" for s p n q m
    by (rule inv_live_disjoint [OF that])
qed

interpretation fork_heap: heap_server "arena_inv base lim" live
  "heap_step fork_unknown_free (fork_unknown_realloc src)" op_touches base lim
proof unfold_locales
  fix s :: Arena and x
  assume inv: "arena_inv base lim s"
  note ok = heap_step_ok [OF inv fork_unknown_ok, of fork_unknown_free src x]
  show "\<exists>r s'. heap_step fork_unknown_free (fork_unknown_realloc src) x s = Some (r, s')"
    using ok by blast
  fix r s'
  assume st: "heap_step fork_unknown_free (fork_unknown_realloc src) x s = Some (r, s')"
  show "arena_inv base lim s'"
    using ok st by auto
  fix p n
  assume "\<not> op_touches x p" and "live s p = Some n"
  then show "live s' p = Some n"
    using ok st by auto
next
  show "base \<le> p \<and> p + n \<le> lim" if "arena_inv base lim s" "live s p = Some n" for s p n
    using inv_live_region(1,3) [OF that] by blast
  show "{p ..< p + n} \<inter> {q ..< q + m} = {}"
    if "arena_inv base lim s" "live s p = Some n" "live s q = Some m" "p \<noteq> q" for s p n q m
    by (rule inv_live_disjoint [OF that])
qed

section \<open>The arena of a fork\<close>

text \<open>
  \<open>setup_native_heap(sysnum, base, max_memory)\<close> builds the arena on
  \<open>[base, base + max_memory)\<close> truncated to 32 bits; the fork constructor computes
  its size from the heap address of the machine (not the base of the master's arena).
\<close>

definition setup_native_heap :: "nat \<Rightarrow> nat \<Rightarrow> Arena" where
  "setup_native_heap base max_memory = Arena_ctor (base mod 2 ^ 32) (add64 base max_memory mod 2 ^ 32)"

definition fork_arena :: "nat \<Rightarrow> nat \<Rightarrow> nat \<Rightarrow> Arena" where
  "fork_arena heap_address max_heap watermark =
    (let arena_base = heap_address;
         remaining = sub64 max_heap (sub64 watermark arena_base)
     in setup_native_heap watermark remaining)"

lemma fork_arena_ctor:
  assumes "heap_address \<le> watermark" and "watermark < heap_address + max_heap" and "heap_address + max_heap < 2 ^ 32"
  shows "fork_arena heap_address max_heap watermark = Arena_ctor watermark (heap_address + max_heap)"
proof -
  have "sub64 watermark heap_address = watermark - heap_address"
    "sub64 max_heap (watermark - heap_address) = max_heap - (watermark - heap_address)"
    using assms by (simp_all add: sub64_exact)
  moreover have "add64 watermark (max_heap - (watermark - heap_address)) = heap_address + max_heap"
    using assms by (simp add: add64_exact)
  ultimately show ?thesis
    using assms by (simp add: fork_arena_def setup_native_heap_def)
qed
section \<open>Properties\<close>

lemma tiles_ends_aligned:
  assumes "tiles lo bs hi" and "\<forall>b \<in> set bs. 16 dvd b_addr b" and "16 dvd hi" and "b \<in> set bs"
  shows "16 dvd b_addr b + b_size b"
  using assms
proof (induction bs arbitrary: lo)
  case (Cons c bs)
  then show ?case
    by (cases bs) auto
qed simp

lemma watermark_aligned:
  assumes inv: "arena_inv base lim a" and lim: "16 dvd lim" and w: "high_watermark a = Some w"
  shows "16 dvd w" and "0 < w"
proof -
  obtain "is" fl where rel: "arena_rel base lim a is fl"
    using inv by (auto simp: arena_inv_def)
  have al: "\<forall>b \<in> set (blocks (m_chunk_slab a) is). 16 dvd b_addr b"
    using relD(4) [OF rel] by (auto simp: blocks_def)
  have bb: "16 dvd base"
    using al relD(3) [OF rel] shapeD(5) [OF relD(1) [OF rel]] by (cases "is") auto
  have "base \<le> w" "w = base \<or> (\<exists>p n. live a p = Some n \<and> w = p + n)"
    using high_watermark_correct [OF inv] w by auto
  then show "16 dvd w" "0 < w"
    using bb tiles_ends_aligned [OF relD(3) [OF rel] al lim] relD(5) [OF rel]
    by (fastforce simp: live_iff [OF rel])+
qed



text \<open>
  (C28) Freeing a live allocation succeeds, keeps the invariant and removes exactly this allocation; a
  second \<open>free\<close> of the same address reaches the callback for unknown pointers (which by default reports
  failure) and changes nothing.
\<close>

theorem arena_free_once:
  assumes inv: "arena_inv base lim a" and lv: "live a p = Some n"
  shows "\<exists>a'. arena_free unknown p a = (0, a') \<and> arena_inv base lim a' \<and> live a' = (live a)(p := None) \<and>
    arena_free unknown p a' = (unknown p None, a')"
proof -
  let ?a' = "internal_free (begin_find_used p a) a"
  have a': "arena_inv base lim ?a'" "live ?a' = (live a)(p := None)"
    using internal_free_live(1,2) [OF inv begin_find_used_live(2) [OF inv lv]] by simp_all
  then show ?thesis
    using arena_free_live(2) [OF inv lv, of unknown] arena_free_live(1) [OF a'(1), of p unknown] by simp
qed

text \<open>A concrete arena with one allocation, for the witnesses below.\<close>

definition one_alloc :: Arena where
  "one_alloc = snd (the (arena_malloc 100 (Arena_ctor 4096 65536)))"

lemma one_alloc_eval: "arena_malloc 100 (Arena_ctor 4096 65536) = Some (Inr 4096, one_alloc)"
proof -
  have "find_free 112 (Arena_ctor 4096 65536) = Some 0"
    unfolding find_free_def by (subst find_free_from.simps) (simp add: Arena_ctor_def slab_def NO_CHUNK_def sub32_def)
  then show ?thesis
    unfolding one_alloc_def
    by (simp add: arena_malloc_def fixup_size_def word_align_def add64_def align_down_def NO_CHUNK_def
        split_and_claim_def split_next_def new_chunk_def claim_chunk_def slab_upd_def slab_def Arena_ctor_def sub32_def)
qed

lemma one_alloc_live: "arena_inv 4096 65536 one_alloc" "live one_alloc 4096 = Some 112"
proof -
  have inv: "arena_inv 4096 65536 (Arena_ctor 4096 65536)"
    by (rule Arena_ctor_inv) simp_all
  have fx: "fixup_size 100 = 112"
    by (simp add: fixup_size_def word_align_def add64_def align_down_def)
  have "arena_inv 4096 65536 one_alloc \<and> live one_alloc 4096 = Some 112"
  proof (cases rule: arena_malloc_cases [OF inv, of 100])
    case (3 p a')
    then have "p = 4096" "a' = one_alloc"
      using one_alloc_eval by simp_all
    then show ?thesis
      using 3(2,3) fx by simp
  qed (use one_alloc_eval in simp_all)
  then show "arena_inv 4096 65536 one_alloc" "live one_alloc 4096 = Some 112"
    by simp_all
qed

theorem arena_free_once_witness:
  "\<exists>a'. arena_free default_unknown_free 4096 one_alloc = (0, a') \<and> arena_inv 4096 65536 a' \<and>
     live a' = (live one_alloc)(4096 := None) \<and> arena_free default_unknown_free 4096 a' = (- 1, a')"
  using arena_free_once [OF one_alloc_live, of default_unknown_free] by (simp add: default_unknown_free_def)

text \<open>
  (C16) \<open>realloc\<close> of a live allocation always returns and keeps the invariant.  It leaves a block that is
  large enough alone, or grows it in place, or moves it: then the new
  region overlaps no live allocation (the old one included, so the contents can be copied forwards),
  the old size is reported and the old block is freed.  On failure nothing is lost: the live allocations are as before.
\<close>

theorem arena_realloc_correct:
  assumes inv: "arena_inv base lim a" and lv: "live a p = Some old" and p: "p \<noteq> 0"
  shows "\<exists>r a'. arena_realloc unknown p newsize a = Some (r, a') \<and> arena_inv base lim a' \<and>
    (case r of
       Inl e \<Rightarrow> live a' = live a
     | Inr (q, copied) \<Rightarrow>
         if q = 0 then copied = 0 \<and> live a' = live a
         else if q = p then copied = 0 \<and> live a' = (live a)(p \<mapsto> max old (fixup_size newsize))
         else copied = old \<and> live a' = (live a)(q \<mapsto> fixup_size newsize, p := None) \<and> live a q = None \<and>
           (\<forall>u m. live a u = Some m \<longrightarrow> {u ..< u + m} \<inter> {q ..< q + fixup_size newsize} = {}))"
proof (cases rule: arena_realloc_cases [OF inv lv p, of unknown newsize])
  case 1
  then have "(live a)(p \<mapsto> max old (fixup_size newsize)) = live a"
    using lv by (simp add: max_def fun_upd_idem)
  then show ?thesis
    using 1 inv p by simp
next
  case (2 a')
  then show ?thesis
    using p by (simp add: max_def)
next
  case (3 q a')
  then show ?thesis
    using lv by (intro exI [of _ "Inr (q, old)"] exI [of _ a']) auto
next
  case (4 a')
  then show ?thesis
    by simp
next
  case (5 a')
  then show ?thesis
    by simp
qed

theorem arena_realloc_correct_witness:
  "\<exists>r a'. arena_realloc default_unknown_realloc 4096 500 one_alloc = Some (r, a') \<and> arena_inv 4096 65536 a'"
  using arena_realloc_correct [OF one_alloc_live, of default_unknown_realloc 500] by fastforce

text \<open>
  (C29) \<open>seq_alloc_aligned\<close>, used for buffers that must be contiguous in host memory, always returns; a region it
  returns is fresh and lies within one page.
\<close>

theorem seq_alloc_within_page:
  assumes inv: "arena_inv base lim a"
  shows "\<exists>r a'. seq_alloc_aligned n al False a = Some (r, a') \<and> arena_inv base lim a' \<and>
    (case r of
       Inl e \<Rightarrow> live a' = live a
     | Inr p \<Rightarrow> if p = 0 then live a' = live a
         else fresh_region base lim a p (fixup_size n) a' \<and> p div 4096 = (p + fixup_size n - 1) div 4096)"
proof -
  let ?a1 = "a\<lparr>m_allocation_counter := add32 (m_allocation_counter a) 1\<rparr>"
  obtain "is" fl where rel: "arena_rel base lim ?a1 is fl"
    using inv by (auto simp: arena_inv_def rel_counter)
  have h: "hd_or NO_CHUNK is = 0"
    using shapeD(5,6) [OF relD(1) [OF rel]] by (cases "is") auto
  show ?thesis
  proof (cases "fixup_size n > 4096")
    case True
    then show ?thesis
      using rel_inv [OF rel] by (simp add: seq_alloc_aligned_def Let_def)
  next
    case False
    obtain r a' where out: "seq_alloc_loop (fixup_size n) ?a1 0 = Some (r, a')" "seq_outcome base lim (fixup_size n) ?a1 (r, a')"
      using seq_alloc_loop_correct [of base lim ?a1 "[]" "is" fl "fixup_size n"] rel h fixup_size_props False by auto
    then have "seq_outcome base lim (fixup_size n) a (r, a')"
      using seq_outcome_live [of ?a1 a] by simp
    then show ?thesis
      using out(1) False by (intro exI [of _ r] exI [of _ a']) (auto simp: seq_alloc_aligned_def Let_def seq_outcome_def)
  qed
qed

theorem seq_alloc_within_page_witness:
  "\<exists>r a'. seq_alloc_aligned 4000 16 False one_alloc = Some (r, a') \<and> arena_inv 4096 65536 a'"
  using seq_alloc_within_page [OF one_alloc_live(1), of 4000 16] by fastforce



text \<open>(C30) Every byte of the arena is accounted for: the two counters of \<open>meminfo\<close> always sum up to the size of the arena.\<close>

theorem arena_bytes_conserved:
  assumes "arena_inv base lim a"
  shows "\<exists>f u. bytes_free a = Some f \<and> bytes_used a = Some u \<and> f + u = lim - base"
  by (rule bytes_total [OF assms])

theorem arena_bytes_conserved_witness:
  "\<exists>f u. bytes_free one_alloc = Some f \<and> bytes_used one_alloc = Some u \<and> f + u = 61440"
  using arena_bytes_conserved [OF one_alloc_live(1)] by simp



text \<open>
  The fork constructor computes the size of the fork's arena from \<open>heap_address\<close>, whereas the
  master's arena lies behind the \<open>brk\<close> area and the stack.  When the watermark is beyond
  \<open>heap_address + max_heap\<close> the subtraction wraps and the single free chunk of the fork's arena extends over
  almost the whole 32-bit address space, far behind the last byte of the master's arena.
\<close>

theorem fork_arena_size_wraps:
  assumes "heap_address + max_heap < w" and "w < 2 ^ 32"
  shows "ch_size (m_chunk_slab (fork_arena heap_address max_heap w) 0) = 2 ^ 32 - (w - (heap_address + max_heap))"
proof -
  let ?gap = "w - (heap_address + max_heap)"
  have "sub64 w heap_address = w - heap_address"
    using assms by (simp add: sub64_exact)
  moreover have "sub64 max_heap (w - heap_address) = 2 ^ 64 - ?gap"
    using assms by (simp add: sub64_def)
  moreover have "add64 w (2 ^ 64 - ?gap) = heap_address + max_heap"
  proof -
    have "w + (2 ^ 64 - ?gap) = (heap_address + max_heap) + 2 ^ 64"
      using assms by simp
    then show ?thesis
      using assms by (simp add: add64_def)
  qed
  moreover have "sub32 (heap_address + max_heap) w = 2 ^ 32 - ?gap"
    using assms by (simp add: sub32_def)
  ultimately show ?thesis
    using assms by (simp add: fork_arena_def setup_native_heap_def Arena_ctor_def)
qed

theorem fork_arena_size_wraps_witness:
  "ch_size (m_chunk_slab (fork_arena 0x200000 0x100000 0x400000) 0) = 0xFFF00000"
  using fork_arena_size_wraps [of "0x200000" "0x100000" "0x400000"] by simp

text \<open>
  Requests in the last 15 bytes of the 64-bit range are rounded up to 0 and then to the minimum: \<open>malloc(SIZE_MAX)\<close>
  hands out a 16-byte region instead of failing.
\<close>

theorem arena_malloc_huge_size_wraps:
  assumes "2 ^ 64 - 15 \<le> n" and "n < 2 ^ 64"
  shows "arena_malloc n a = arena_malloc 16 a"
proof -
  have "fixup_size n = 16"
  proof -
    have "(n + 15) mod 2 ^ 64 = n + 15 - 2 ^ 64"
      using assms by (subst mod_if) simp
    then have "add64 n 15 < 16"
      using assms by (simp add: add64_def)
    then show ?thesis
      by (simp add: fixup_size_def word_align_def align_down_def)
  qed
  moreover have "fixup_size 16 = 16"
    by (simp add: fixup_size_def word_align_def add64_def align_down_def)
  ultimately show ?thesis
    by (simp add: arena_malloc_def)
qed

theorem arena_malloc_huge_size_wraps_witness:
  "arena_malloc 0xFFFFFFFFFFFFFFFF one_alloc = arena_malloc 16 one_alloc"
  using arena_malloc_huge_size_wraps [of "0xFFFFFFFFFFFFFFFF" one_alloc] by simp

text \<open>
  \<open>realloc\<close> in a fork of a pointer that belongs to the master never touches the master's arena: it allocates in the
  fork's arena and reports the size the block has in the master.  When the fork's arena is exhausted it reports
  address 0 together with that size, so that the system call then copies to address 0.
\<close>

theorem fork_realloc_of_master_pointer:
  assumes inv: "arena_inv base lim a" and "live a p = None" and p: "p \<noteq> 0"
    and m: "arena_inv mbase mlim master" and lv: "live master p = Some old"
  shows "\<exists>r a'. arena_realloc (fork_unknown_realloc master) p n a = Some (r, a') \<and> arena_inv base lim a' \<and>
    (case r of
       Inl e \<Rightarrow> live a' = live a
     | Inr (q, copied) \<Rightarrow> copied = old \<and>
         (if q = 0 then live a' = live a else fresh_region base lim a q (fixup_size n) a'))"
proof -
  have "arena_size p False master = old"
    using begin_find_used_live(1) [OF m, of p] begin_find_used_live(3) [OF m lv] inv_used(1) [OF m begin_find_used_live(2) [OF m lv]] lv
    by (simp add: arena_size_def slab_def)
  moreover have "arena_realloc (fork_unknown_realloc master) p n a = fork_unknown_realloc master p n a"
    using p begin_find_used_live(1) [OF inv, of p] assms(2) by (simp add: arena_realloc_def)
  ultimately have eq: "arena_realloc (fork_unknown_realloc master) p n a =
      map_option (\<lambda>(r, a'). (map_sum id (\<lambda>q. (q, old)) r, a')) (arena_malloc n a)"
    by (simp add: fork_unknown_realloc_def)
  show ?thesis
  proof (cases rule: arena_malloc_cases [OF inv, of n])
    case (1 a')
    then show ?thesis
      by (simp add: eq)
  next
    case (2 a')
    then show ?thesis
      by (simp add: eq)
  next
    case (3 q a')
    then show ?thesis
      by (auto simp: eq fresh_region_def)
  qed
qed

theorem fork_realloc_of_master_pointer_witness:
  "\<exists>r a'. arena_realloc (fork_unknown_realloc one_alloc) 4096 300 (Arena_ctor 8192 65536) = Some (r, a') \<and>
     arena_inv 8192 65536 a'"
  using fork_realloc_of_master_pointer [of 8192 65536 "Arena_ctor 8192 65536" 4096 4096 65536 one_alloc 112 300]
    Arena_ctor_inv [of 8192 65536] one_alloc_live by fastforce

end
