(* ===== verification/Instr_Formats.thy ===== *)
theory Instr_Formats
  imports Prelude
begin

text \<open>
  Instruction formats: the bit fields of 32-bit instructions (\<open>rv32i_instr.hpp\<close>) and of compressed
  instructions (\<open>rvc.hpp\<close>) under \<open>src/src/libriscv/lib/libriscv\<close>.  A field is a function on the
  instruction word; register numbers are naturals, immediates 32-bit words that are sign-extended when
  they meet a 64-bit register.
\<close>

unbundle bit_operations_syntax

section \<open>Bit fields\<close>

text \<open>\<open>field lo n w\<close>: \<open>n\<close> bits of \<open>w\<close> from bit \<open>lo\<close> on.\<close>

definition field :: "nat \<Rightarrow> nat \<Rightarrow> 32 word \<Rightarrow> 32 word" where
  "field lo n w = take_bit n (drop_bit lo w)"

definition reg_field :: "nat \<Rightarrow> 32 word \<Rightarrow> nat" where
  "reg_field lo w = unat (field lo 5 w)"

text \<open>Sign extension to the width of a register: conversion from \<open>int32_t\<close>.\<close>

definition sext :: "32 word \<Rightarrow> 64 word" where
  "sext w = scast w"

section \<open>32-bit instructions\<close>

definition opcode :: "32 word \<Rightarrow> 32 word" where
  "opcode i = field 0 7 i"

definition funct3 :: "32 word \<Rightarrow> 32 word" where
  "funct3 i = field 12 3 i"

definition funct7 :: "32 word \<Rightarrow> 32 word" where
  "funct7 i = field 25 7 i"

definition is_f7 :: "32 word \<Rightarrow> bool" where
  "is_f7 i \<longleftrightarrow> funct7 i = 0x20"

definition jumptable_friendly_op :: "32 word \<Rightarrow> 32 word" where
  "jumptable_friendly_op i = funct3 i OR push_bit 4 (funct7 i)"

definition rd :: "32 word \<Rightarrow> nat" where
  "rd i = reg_field 7 i"

definition rs1 :: "32 word \<Rightarrow> nat" where
  "rs1 i = reg_field 15 i"

definition rs2 :: "32 word \<Rightarrow> nat" where
  "rs2 i = reg_field 20 i"

text \<open>Immediate format.\<close>

definition Itype_imm :: "32 word \<Rightarrow> 32 word" where
  "Itype_imm i = field 20 12 i"

definition Itype_signed_imm :: "32 word \<Rightarrow> 32 word" where
  "Itype_signed_imm i = signed_drop_bit 20 (push_bit 20 (Itype_imm i))"

definition shift_imm :: "32 word \<Rightarrow> 32 word" where
  "shift_imm i = Itype_imm i AND 0x1F"

definition shift64_imm :: "32 word \<Rightarrow> 32 word" where
  "shift64_imm i = Itype_imm i AND 0x3F"

definition is_rev8 :: "32 word \<Rightarrow> bool" where
  "is_rev8 i \<longleftrightarrow> Itype_imm i = 0x6B8"

definition high_bits :: "32 word \<Rightarrow> 32 word" where
  "high_bits i = Itype_imm i AND 0xFC0"

definition is_srai :: "32 word \<Rightarrow> bool" where
  "is_srai i \<longleftrightarrow> Itype_imm i AND 0xFC0 = 0x400"

definition is_rori :: "32 word \<Rightarrow> bool" where
  "is_rori i \<longleftrightarrow> Itype_imm i AND 0xFC0 = 0x600"

text \<open>Store, upper immediate, branch and jump formats.\<close>

definition Stype_signed_imm :: "32 word \<Rightarrow> 32 word" where
  "Stype_signed_imm i = signed_drop_bit 20 (push_bit 20 (field 7 5 i OR push_bit 5 (field 25 7 i)))"

definition upper_imm :: "32 word \<Rightarrow> 32 word" where
  "upper_imm i = push_bit 12 (field 12 20 i)"

definition Btype_signed_imm :: "32 word \<Rightarrow> 32 word" where
  "Btype_signed_imm i =
    push_bit 1 (field 8 4 i) OR push_bit 5 (field 25 6 i) OR push_bit 11 (field 7 1 i) OR
    (if field 31 1 i \<noteq> 0 then 0xFFFFF000 else 0)"

definition jump_offset :: "32 word \<Rightarrow> 32 word" where
  "jump_offset i =
    (push_bit 1 (field 21 10 i) OR push_bit 11 (field 20 1 i) OR push_bit 12 (field 12 8 i)) OR
    (if field 31 1 i \<noteq> 0 then 0xFFF00000 else 0)"

definition half0 :: "32 word \<Rightarrow> 32 word" where
  "half0 i = field 0 16 i"

definition is_illegal :: "32 word \<Rightarrow> bool" where
  "is_illegal i \<longleftrightarrow> half0 i = 0"

definition is_long :: "32 word \<Rightarrow> bool" where
  "is_long i \<longleftrightarrow> i AND 3 = 3"

definition is_compressed :: "32 word \<Rightarrow> bool" where
  "is_compressed i \<longleftrightarrow> i AND 3 \<noteq> 3"

definition instr_length :: "32 word \<Rightarrow> nat" where
  "instr_length i = 2 + 2 * (if is_long i then 1 else 0)"

section \<open>Compressed instructions\<close>

text \<open>
  A compressed instruction is the lower half of the instruction word; the fields below read only the
  lower 16 bits.
\<close>

definition c_opcode :: "32 word \<Rightarrow> 32 word" where
  "c_opcode i = half0 i AND 0xE003"

definition c_funct3 :: "32 word \<Rightarrow> 32 word" where
  "c_funct3 i = field 13 3 i"

definition CR_rs2 :: "32 word \<Rightarrow> nat" where
  "CR_rs2 i = unat (field 2 5 i)"

definition CR_rd :: "32 word \<Rightarrow> nat" where
  "CR_rd i = unat (field 7 5 i)"

definition CI_rd :: "32 word \<Rightarrow> nat" where
  "CI_rd i = unat (field 7 5 i)"

definition CI_signed_imm :: "32 word \<Rightarrow> 32 word" where
  "CI_signed_imm i = field 2 5 i OR (if field 12 1 i \<noteq> 0 then 0xFFFFFFE0 else 0)"

definition CI_upper_imm :: "32 word \<Rightarrow> 32 word" where
  "CI_upper_imm i = push_bit 12 (field 2 5 i) OR (if field 12 1 i \<noteq> 0 then 0xFFFE0000 else 0)"

definition CI_shift_imm :: "32 word \<Rightarrow> 32 word" where
  "CI_shift_imm i = field 2 5 i"

definition CI_shift64_imm :: "32 word \<Rightarrow> 32 word" where
  "CI_shift64_imm i = field 2 5 i OR push_bit 5 (field 12 1 i)"

definition CI2_offset :: "32 word \<Rightarrow> 32 word" where
  "CI2_offset i = push_bit 2 (field 4 3 i OR push_bit 3 (field 12 1 i) OR push_bit 4 (field 2 2 i))"

definition CIFLD_offset :: "32 word \<Rightarrow> 32 word" where
  "CIFLD_offset i = push_bit 3 (field 5 2 i OR push_bit 2 (field 12 1 i) OR push_bit 3 (field 2 3 i))"

definition CI16_signed_imm :: "32 word \<Rightarrow> 32 word" where
  "CI16_signed_imm i =
    push_bit 4 (field 6 1 i OR push_bit 1 (field 2 1 i) OR push_bit 2 (field 5 1 i) OR push_bit 3 (field 3 2 i)) OR
    (if field 12 1 i \<noteq> 0 then 0xFFFFFE00 else 0)"

definition CSS_offset :: "32 word \<Rightarrow> 32 word \<Rightarrow> 32 word" where
  "CSS_offset factor i = (field 9 4 i OR push_bit 4 (field 7 2 i)) * factor"

definition CSFSD_offset :: "32 word \<Rightarrow> 32 word" where
  "CSFSD_offset i = (field 10 3 i OR push_bit 3 (field 7 3 i)) * 8"

definition srd :: "32 word \<Rightarrow> nat" where
  "srd i = unat (field 2 3 i)"

definition srs1 :: "32 word \<Rightarrow> nat" where
  "srs1 i = unat (field 7 3 i)"

definition srs2 :: "32 word \<Rightarrow> nat" where
  "srs2 i = unat (field 2 3 i)"

definition CIW_offset :: "32 word \<Rightarrow> 32 word" where
  "CIW_offset i = push_bit 2 (field 6 1 i OR push_bit 1 (field 5 1 i) OR push_bit 2 (field 11 2 i) OR push_bit 4 (field 7 4 i))"

definition CL_offset :: "32 word \<Rightarrow> 32 word" where
  "CL_offset i = push_bit 2 (field 6 1 i OR push_bit 1 (field 10 3 i) OR push_bit 4 (field 5 1 i))"

definition CS_offset4 :: "32 word \<Rightarrow> 32 word" where
  "CS_offset4 i = push_bit 2 (field 6 1 i) OR push_bit 3 (field 10 3 i) OR push_bit 6 (field 5 1 i)"

definition CSD_offset8 :: "32 word \<Rightarrow> 32 word" where
  "CSD_offset8 i = push_bit 3 (field 10 3 i) OR push_bit 6 (field 5 2 i)"

definition CA_srd :: "32 word \<Rightarrow> nat" where
  "CA_srd i = unat (field 7 3 i)"

definition CA_funct2 :: "32 word \<Rightarrow> 32 word" where
  "CA_funct2 i = field 5 2 i"

definition CA_funct6 :: "32 word \<Rightarrow> 32 word" where
  "CA_funct6 i = field 10 6 i"

definition CAB_funct2 :: "32 word \<Rightarrow> 32 word" where
  "CAB_funct2 i = field 10 2 i"

definition CAB_shift64_imm :: "32 word \<Rightarrow> 32 word" where
  "CAB_shift64_imm i = field 2 5 i OR push_bit 5 (field 12 1 i)"

definition CAB_signed_imm :: "32 word \<Rightarrow> 32 word" where
  "CAB_signed_imm i = field 2 5 i OR (if field 12 1 i \<noteq> 0 then 0xFFFFFFE0 else 0)"

definition CB_signed_imm :: "32 word \<Rightarrow> 32 word" where
  "CB_signed_imm i =
    push_bit 1 (field 3 2 i OR push_bit 2 (field 10 2 i) OR push_bit 4 (field 2 1 i) OR push_bit 5 (field 5 2 i)) OR
    (if field 12 1 i \<noteq> 0 then 0xFFFFFF00 else 0)"

definition CJ_signed_imm :: "32 word \<Rightarrow> 32 word" where
  "CJ_signed_imm i =
    push_bit 1 (field 3 3 i OR push_bit 3 (field 11 1 i) OR push_bit 4 (field 2 1 i) OR push_bit 5 (field 7 1 i) OR
      push_bit 6 (field 6 1 i) OR push_bit 7 (field 9 2 i) OR push_bit 9 (field 8 1 i)) OR
    (if field 12 1 i \<noteq> 0 then 0xFFFFF800 else 0)"

end
