(* ===== verification/Pages.thy ===== *)
theory Pages
  imports Prelude "HOL-Library.AList"
begin

text \<open>
  Guest memory of the emulator with virtual paging, as the module builds it
  (\<open>RISCV_VIRTUAL_PAGING\<close> on, flat read-write arena off): page table, page attributes,
  copy-on-write, the single-entry read and write caches, and the page
  handlers that the module installs for a master VM and for a forked VM.
  Sources: \<open>page.hpp\<close>, \<open>memory_inline.hpp\<close>, \<open>memory_inline_pages.hpp\<close>, \<open>memory_rw.cpp\<close>,
  \<open>memory.cpp\<close> under \<open>src/src/libriscv/lib/libriscv\<close> and \<open>machine_setup\<close> of \<open>src/src/script.cpp\<close>.

  Page buffers are heap objects that several page tables may point to, so they
  live in an explicit store from identifiers to contents; a \<open>Page\<close> holds
  an identifier.  Identifiers 0 and 1 are the static zero page and the static host code page.
  Workspace memory comes from Varnish, which is not part of this program: the state of the workspace
  is a type parameter \<open>'w\<close> and its allocator a parameter of the fork's handlers.  Page
  traps are not modelled; nothing in the module sets one.
\<close>

section \<open>Pages\<close>

record PageAttributes =
  pa_read :: bool
  pa_write :: bool
  pa_exec :: bool
  pa_is_cow :: bool
  pa_non_owning :: bool
  pa_dont_fork :: bool
  pa_cacheable :: bool
  pa_user_defined :: nat

definition default_attr :: PageAttributes where
  "default_attr = \<lparr> pa_read = True, pa_write = True, pa_exec = False, pa_is_cow = False, pa_non_owning = False,
     pa_dont_fork = False, pa_cacheable = True, pa_user_defined = 0 \<rparr>"

definition is_default :: "PageAttributes \<Rightarrow> bool" where
  "is_default a \<longleftrightarrow> pa_read a = pa_read default_attr \<and> pa_write a = pa_write default_attr \<and> pa_exec a = pa_exec default_attr"

definition apply_regular_attributes :: "PageAttributes \<Rightarrow> PageAttributes \<Rightarrow> PageAttributes" where
  "apply_regular_attributes self other = other\<lparr>pa_non_owning := pa_non_owning self\<rparr>"

type_synonym PageData = "nat \<Rightarrow> 8 word"

record Page =
  pg_attr :: PageAttributes
  pg_data :: nat

text \<open>The constructor for page memory that belongs to somebody else.\<close>

definition Page_non_owned :: "PageAttributes \<Rightarrow> nat \<Rightarrow> Page" where
  "Page_non_owned a data = \<lparr> pg_attr = a\<lparr>pa_non_owning := True\<rparr>, pg_data = data \<rparr>"

definition PageSize :: nat where
  "PageSize = 4096"

definition zero_data :: PageData where
  "zero_data = (\<lambda>_. 0)"

definition host_code_data :: PageData where
  "host_code_data = (\<lambda>i. let code = [0x73, 0x00, 0xf0, 0x7f, 0x6f, 0xf0, 0xdf, 0xff] in
     if i < length code then code ! i else 0)"

definition zero_id :: nat where "zero_id = 0"

definition host_id :: nat where "host_id = 1"

definition cow_page :: Page where
  "cow_page = \<lparr> pg_attr = default_attr\<lparr>pa_write := False, pa_is_cow := True\<rparr>, pg_data = zero_id \<rparr>"

definition guard_page :: Page where
  "guard_page = \<lparr> pg_attr = default_attr\<lparr>pa_read := False, pa_write := False, pa_non_owning := True\<rparr>, pg_data = zero_id \<rparr>"

definition host_page :: Page where
  "host_page = \<lparr> pg_attr = default_attr\<lparr>pa_read := False, pa_write := False, pa_exec := True\<rparr>, pg_data = host_id \<rparr>"

definition is_cow_page :: "Page \<Rightarrow> bool" where
  "is_cow_page pg \<longleftrightarrow> pg_data pg = zero_id"

section \<open>Memory\<close>

text \<open>A cached page is a page number, \<open>NO_PAGE\<close> when the entry is invalid, and a page buffer.\<close>

definition NO_PAGE :: nat where
  "NO_PAGE = 18446744073709551615"

record Memory =
  m_pages :: "(nat \<times> Page) list"
  m_rd_cache :: "nat \<times> nat"
  m_wr_cache :: "nat \<times> nat"
  m_start_address :: nat
  m_stack_address :: nat
  m_exit_address :: nat
  m_mmap_address :: nat
  m_heap_address :: nat
  m_mmap_cache :: "(nat \<times> nat) list"

record 'w VM =
  vm_mem :: Memory
  vm_data :: "nat \<Rightarrow> PageData"
  vm_next :: nat
  vm_ws :: 'w

definition find_page :: "nat \<Rightarrow> 'w VM \<Rightarrow> Page option" where
  "find_page pageno vm = map_of (m_pages (vm_mem vm)) pageno"

definition set_pages :: "((nat \<times> Page) list \<Rightarrow> (nat \<times> Page) list) \<Rightarrow> 'w VM \<Rightarrow> 'w VM" where
  "set_pages f vm = vm\<lparr>vm_mem := (vm_mem vm)\<lparr>m_pages := f (m_pages (vm_mem vm))\<rparr>\<rparr>"

text \<open>Assignment through a reference to a page of the table, and \<open>try_emplace\<close>.\<close>

definition put_page :: "nat \<Rightarrow> Page \<Rightarrow> 'w VM \<Rightarrow> 'w VM" where
  "put_page pageno pg = set_pages (AList.update pageno pg)"

definition try_emplace :: "nat \<Rightarrow> Page \<Rightarrow> 'w VM \<Rightarrow> 'w VM" where
  "try_emplace pageno pg vm = (case find_page pageno vm of None \<Rightarrow> put_page pageno pg vm | Some _ \<Rightarrow> vm)"

definition new_page_data :: "PageData \<Rightarrow> 'w VM \<Rightarrow> nat \<times> 'w VM" where
  "new_page_data d vm = (vm_next vm, vm\<lparr>vm_data := (vm_data vm)(vm_next vm := d), vm_next := vm_next vm + 1\<rparr>)"

definition invalidate_cache :: "nat \<Rightarrow> 'w VM \<Rightarrow> 'w VM" where
  "invalidate_cache pageno vm =
    (if fst (m_rd_cache (vm_mem vm)) = pageno
     then vm\<lparr>vm_mem := (vm_mem vm)\<lparr>m_rd_cache := (NO_PAGE, snd (m_rd_cache (vm_mem vm)))\<rparr>\<rparr> else vm)"

definition invalidate_reset_cache :: "'w VM \<Rightarrow> 'w VM" where
  "invalidate_reset_cache vm = vm\<lparr>vm_mem := (vm_mem vm)
     \<lparr>m_rd_cache := (NO_PAGE, snd (m_rd_cache (vm_mem vm))), m_wr_cache := (NO_PAGE, snd (m_wr_cache (vm_mem vm)))\<rparr>\<rparr>"

definition allocate_page :: "nat \<Rightarrow> Page \<Rightarrow> 'w VM \<Rightarrow> Page \<times> 'w VM" where
  "allocate_page pageno pg vm =
    (let vm1 = invalidate_cache pageno (try_emplace pageno pg vm)
     in (case find_page pageno vm1 of Some p \<Rightarrow> p | None \<Rightarrow> pg, vm1))"

definition owned_pages_active :: "'w VM \<Rightarrow> nat" where
  "owned_pages_active vm = length (filter (\<lambda>(_, pg). \<not> pa_non_owning (pg_attr pg)) (m_pages (vm_mem vm)))"

section \<open>Page handlers\<close>

record 'w PageHandlers =
  page_fault_handler :: "nat \<Rightarrow> bool \<Rightarrow> 'w VM \<Rightarrow> (Page, 'w VM) thrown"
  page_write_handler :: "nat \<Rightarrow> 'w VM \<Rightarrow> (unit, 'w VM) thrown"
  page_readf_handler :: "nat \<Rightarrow> 'w VM \<Rightarrow> (Page, 'w VM) thrown"

text \<open>\<open>Page::make_writable\<close> and \<open>Page::new_data\<close> on a page of the table.\<close>

definition make_writable :: "nat \<Rightarrow> 'w VM \<Rightarrow> 'w VM" where
  "make_writable pageno vm =
    (case find_page pageno vm of
       None \<Rightarrow> vm
     | Some pg \<Rightarrow>
         let (nd, vm1) = new_page_data (vm_data vm (pg_data pg)) vm
         in put_page pageno \<lparr> pg_attr = (pg_attr pg)\<lparr>pa_write := True, pa_is_cow := False, pa_non_owning := False\<rparr>,
                              pg_data = nd \<rparr> vm1)"

definition default_page_write :: "nat \<Rightarrow> 'w VM \<Rightarrow> (unit, 'w VM) thrown" where
  "default_page_write pageno vm = (Inr (), make_writable pageno vm)"

definition default_page_read :: "nat \<Rightarrow> 'w VM \<Rightarrow> (Page, 'w VM) thrown" where
  "default_page_read pageno vm = (Inr cow_page, vm)"

section \<open>Page access\<close>

definition protection_fault :: "nat \<Rightarrow> 'w VM \<Rightarrow> ('a, 'w VM) thrown" where
  "protection_fault addr vm = (Inl (MachineException PROTECTION_FAULT addr), vm)"

definition page_number :: "nat \<Rightarrow> nat" where
  "page_number address = address div PageSize"

definition get_pageno :: "'w PageHandlers \<Rightarrow> nat \<Rightarrow> 'w VM \<Rightarrow> (Page, 'w VM) thrown" where
  "get_pageno H pageno vm =
    (case find_page pageno vm of
       Some pg \<Rightarrow> (Inr pg, vm)
     | None \<Rightarrow> page_readf_handler H pageno vm)"

definition get_readable_pageno :: "'w PageHandlers \<Rightarrow> nat \<Rightarrow> 'w VM \<Rightarrow> (Page, 'w VM) thrown" where
  "get_readable_pageno H pageno vm =
    (case get_pageno H pageno vm of
       (Inl e, vm1) \<Rightarrow> (Inl e, vm1)
     | (Inr pg, vm1) \<Rightarrow> if pa_read (pg_attr pg) then (Inr pg, vm1) else protection_fault (pageno * PageSize) vm1)"

definition create_writable_pageno :: "'w PageHandlers \<Rightarrow> nat \<Rightarrow> bool \<Rightarrow> 'w VM \<Rightarrow> (Page, 'w VM) thrown" where
  "create_writable_pageno H pageno init vm =
    (case find_page pageno vm of
       Some pg \<Rightarrow>
         if pa_write (pg_attr pg) then (Inr pg, vm)
         else if pa_is_cow (pg_attr pg) then
           (case page_write_handler H pageno vm of
              (Inl e, vm1) \<Rightarrow> (Inl e, vm1)
            | (Inr _, vm1) \<Rightarrow>
                let vm2 = invalidate_cache pageno vm1
                in (Inr (case find_page pageno vm2 of Some p \<Rightarrow> p | None \<Rightarrow> pg), vm2))
         else protection_fault (pageno * PageSize) vm
     | None \<Rightarrow>
         (case page_fault_handler H pageno init vm of
            (Inl e, vm1) \<Rightarrow> (Inl e, vm1)
          | (Inr pg, vm1) \<Rightarrow>
              if pa_write (pg_attr pg) then (Inr pg, invalidate_cache pageno vm1)
              else protection_fault (pageno * PageSize) vm1))"

definition cached_readable_page :: "'w PageHandlers \<Rightarrow> nat \<Rightarrow> 'w VM \<Rightarrow> (nat, 'w VM) thrown" where
  "cached_readable_page H address vm =
    (let pageno = page_number address in
     if fst (m_rd_cache (vm_mem vm)) = pageno then (Inr (snd (m_rd_cache (vm_mem vm))), vm)
     else
       case get_readable_pageno H pageno vm of
         (Inl e, vm1) \<Rightarrow> (Inl e, vm1)
       | (Inr pg, vm1) \<Rightarrow>
           (Inr (pg_data pg),
            if pa_cacheable (pg_attr pg)
            then vm1\<lparr>vm_mem := (vm_mem vm1)\<lparr>m_rd_cache := (pageno, pg_data pg)\<rparr>\<rparr> else vm1))"

definition cached_writable_page :: "'w PageHandlers \<Rightarrow> nat \<Rightarrow> 'w VM \<Rightarrow> (nat, 'w VM) thrown" where
  "cached_writable_page H address vm =
    (let pageno = page_number address in
     if fst (m_wr_cache (vm_mem vm)) = pageno then (Inr (snd (m_wr_cache (vm_mem vm))), vm)
     else
       case create_writable_pageno H pageno True vm of
         (Inl e, vm1) \<Rightarrow> (Inl e, vm1)
       | (Inr pg, vm1) \<Rightarrow>
           (Inr (pg_data pg),
            if pa_cacheable (pg_attr pg)
            then vm1\<lparr>vm_mem := (vm_mem vm1)\<lparr>m_wr_cache := (pageno, pg_data pg)\<rparr>\<rparr> else vm1))"

section \<open>Loads and stores\<close>

text \<open>Little-endian access to \<open>n\<close> bytes of a buffer.\<close>

fun load_le :: "PageData \<Rightarrow> nat \<Rightarrow> nat \<Rightarrow> nat" where
  "load_le d off 0 = 0"
| "load_le d off (Suc n) = unat (d off) + 256 * load_le d (off + 1) n"

fun store_le :: "PageData \<Rightarrow> nat \<Rightarrow> nat \<Rightarrow> nat \<Rightarrow> PageData" where
  "store_le d off 0 v = d"
| "store_le d off (Suc n) v = store_le (d(off := of_nat v)) (off + 1) n (v div 256)"

text \<open>
  The offset of an access of \<open>n\<close> bytes: with \<open>RISCV_FORCE_ALIGN_MEMORY\<close>, the default,
  the low bits of the address are dropped, so an access never crosses a page.
\<close>

definition access_offset :: "nat \<Rightarrow> nat \<Rightarrow> nat" where
  "access_offset n address = (address mod PageSize) div n * n"

definition mem_read :: "'w PageHandlers \<Rightarrow> nat \<Rightarrow> nat \<Rightarrow> 'w VM \<Rightarrow> (nat, 'w VM) thrown" where
  "mem_read H n address vm =
    (case cached_readable_page H address vm of
       (Inl e, vm1) \<Rightarrow> (Inl e, vm1)
     | (Inr d, vm1) \<Rightarrow> (Inr (load_le (vm_data vm1 d) (access_offset n address) n), vm1))"

definition data_upd :: "nat \<Rightarrow> (PageData \<Rightarrow> PageData) \<Rightarrow> 'w VM \<Rightarrow> 'w VM" where
  "data_upd d f vm = vm\<lparr>vm_data := (vm_data vm)(d := f (vm_data vm d))\<rparr>"

definition mem_write :: "'w PageHandlers \<Rightarrow> nat \<Rightarrow> nat \<Rightarrow> nat \<Rightarrow> 'w VM \<Rightarrow> (unit, 'w VM) thrown" where
  "mem_write H n address value vm =
    (case cached_writable_page H address vm of
       (Inl e, vm1) \<Rightarrow> (Inl e, vm1)
     | (Inr d, vm1) \<Rightarrow> (Inr (), data_upd d (\<lambda>b. store_le b (access_offset n address) n value) vm1))"

section \<open>Page attributes and page table maintenance\<close>

definition set_pageno_attr :: "nat \<Rightarrow> PageAttributes \<Rightarrow> 'w VM \<Rightarrow> 'w VM" where
  "set_pageno_attr pageno attr vm =
    (case find_page pageno vm of
       Some pg \<Rightarrow>
         let is_cow = pa_is_cow (pg_attr pg);
             a1 = apply_regular_attributes (pg_attr pg) attr;
             a2 = (if is_cow \<or> (pa_write attr \<and> is_cow_page pg)
                   then a1\<lparr>pa_is_cow := True, pa_write := False\<rparr> else a1)
         in put_page pageno (pg\<lparr>pg_attr := a2\<rparr>) vm
     | None \<Rightarrow>
         if is_default attr then vm
         else try_emplace pageno
           (Page_non_owned (attr\<lparr>pa_is_cow := pa_write attr, pa_write := False, pa_non_owning := True\<rparr>) zero_id) vm)"

function set_page_attr :: "nat \<Rightarrow> nat \<Rightarrow> PageAttributes \<Rightarrow> 'w VM \<Rightarrow> 'w VM" where
  "set_page_attr dst len attr vm =
    (if len = 0 then vm
     else
       let offset = dst mod PageSize;
           n = min (PageSize - offset) len
       in set_page_attr (add64 dst n) (len - n) attr (set_pageno_attr (page_number dst) attr vm))"
  by pat_completeness auto
termination
  by (relation "measure (\<lambda>(dst, len, attr, vm). len)") (auto simp: PageSize_def)

declare set_page_attr.simps [simp del]

definition free_pageno :: "nat \<Rightarrow> 'w VM \<Rightarrow> 'w VM" where
  "free_pageno pageno = set_pages (AList.delete pageno)"

fun free_pages_loop :: "nat \<Rightarrow> nat \<Rightarrow> 'w VM \<Rightarrow> 'w VM" where
  "free_pages_loop 0 pageno vm = vm"
| "free_pages_loop (Suc n) pageno vm = free_pages_loop n (pageno + 1) (free_pageno pageno vm)"

definition free_pages :: "nat \<Rightarrow> nat \<Rightarrow> 'w VM \<Rightarrow> 'w VM" where
  "free_pages dst len vm =
    (let pageno = page_number dst;
         cnt = page_number (align_down 12 (add64 len (PageSize - 1)))
     in invalidate_reset_cache (free_pages_loop cnt pageno vm))"

definition install_shared_page :: "'w PageHandlers \<Rightarrow> nat \<Rightarrow> Page \<Rightarrow> 'w VM \<Rightarrow> (unit, 'w VM) thrown" where
  "install_shared_page H pageno shared_page vm =
    (case get_pageno H pageno vm of
       (Inl e, vm1) \<Rightarrow> (Inl e, vm1)
     | (Inr already_there, vm1) \<Rightarrow>
         if \<not> is_cow_page already_there \<and> \<not> pa_non_owning (pg_attr already_there)
         then (Inl (MachineException ILLEGAL_OPERATION pageno), vm1)
         else
           (Inr (), invalidate_reset_cache
              (put_page pageno (Page_non_owned ((pg_attr shared_page)\<lparr>pa_non_owning := True\<rparr>) (pg_data shared_page)) vm1)))"

definition initial_paging :: "'w PageHandlers \<Rightarrow> 'w VM \<Rightarrow> (unit, 'w VM) thrown" where
  "initial_paging H vm = (case find_page 0 vm of None \<Rightarrow> install_shared_page H 0 guard_page vm | Some _ \<Rightarrow> (Inr (), vm))"

section \<open>Address bookkeeping\<close>

definition mmap_allocate :: "nat \<Rightarrow> Memory \<Rightarrow> nat \<times> Memory" where
  "mmap_allocate bytes mem =
    (m_mmap_address mem, mem\<lparr>m_mmap_address := add64 (m_mmap_address mem) (align_down 12 (add64 bytes (PageSize - 1)))\<rparr>)"

definition mmap_relax :: "nat \<Rightarrow> nat \<Rightarrow> nat \<Rightarrow> Memory \<Rightarrow> bool \<times> Memory" where
  "mmap_relax addr sz new_size mem =
    (if m_mmap_address mem = add64 addr sz \<and> new_size \<le> sz
     then (True, mem\<lparr>m_mmap_address := align_down 12 (add64 (add64 addr new_size) (PageSize - 1))\<rparr>)
     else (False, mem))"

section \<open>Forking\<close>

text \<open>
  \<open>machine_loader\<close>: the pages of the master become non-owning copy-on-write pages of the fork, unless
  the fork is minimal and starts with an empty page table.
\<close>

definition loan_page :: "Page \<Rightarrow> Page" where
  "loan_page pg =
    (let a = pg_attr pg;
         a1 = (if pa_write a then a\<lparr>pa_write := False, pa_is_cow := True\<rparr> else a)
     in Page_non_owned (a1\<lparr>pa_non_owning := True\<rparr>) (pg_data pg))"

definition machine_loader :: "bool \<Rightarrow> Memory \<Rightarrow> Memory" where
  "machine_loader minimal_fork master =
    \<lparr> m_pages = (if minimal_fork then []
         else map (\<lambda>(p, pg). (p, loan_page pg)) (filter (\<lambda>(p, pg). \<not> pa_dont_fork (pg_attr pg)) (m_pages master))),
      m_rd_cache = (NO_PAGE, 0), m_wr_cache = (NO_PAGE, 0),
      m_start_address = m_start_address master, m_stack_address = m_stack_address master,
      m_exit_address = m_exit_address master, m_mmap_address = m_mmap_address master,
      m_heap_address = m_heap_address master, m_mmap_cache = m_mmap_cache master \<rparr>"

section \<open>The module's page handlers\<close>

text \<open>
  Handlers of a master VM: new pages are zeroed host memory, pages of the stack are marked
  as not to be forked.
\<close>

definition master_page_fault :: "nat \<Rightarrow> nat \<Rightarrow> nat \<Rightarrow> bool \<Rightarrow> 'w VM \<Rightarrow> (Page, 'w VM) thrown" where
  "master_page_fault stack_base stack_begin pageno init vm =
    (let dont_fork = (pageno \<ge> stack_base div PageSize \<and> pageno < stack_begin div PageSize);
         (d, vm1) = new_page_data zero_data vm;
         (pg, vm2) = allocate_page pageno
           (Page_non_owned (default_attr\<lparr>pa_dont_fork := dont_fork, pa_user_defined := 1\<rparr>) d) vm1
     in (Inr pg, vm2))"

definition master_handlers :: "nat \<Rightarrow> nat \<Rightarrow> 'w PageHandlers" where
  "master_handlers stack_base stack_begin =
    \<lparr> page_fault_handler = master_page_fault stack_base stack_begin,
      page_write_handler = default_page_write,
      page_readf_handler = default_page_read \<rparr>"

text \<open>
  Handlers of a fork.  \<open>ws_alloc\<close> is Varnish's workspace allocator; \<open>garbage\<close> stands for the
  unspecified contents of memory that is not initialised.
\<close>

record 'w ForkEnv =
  fe_parent :: Memory
  fe_ws_alloc :: "'w \<Rightarrow> nat \<Rightarrow> bool \<times> 'w"
  fe_max_memory :: nat
  fe_garbage :: PageData

definition out_of_memory :: "nat \<Rightarrow> 'w VM \<Rightarrow> ('a, 'w VM) thrown" where
  "out_of_memory pageno vm = (Inl (MachineException OUT_OF_MEMORY (pageno * PageSize)), vm)"

definition fork_page_fault :: "'w ForkEnv \<Rightarrow> nat \<Rightarrow> bool \<Rightarrow> 'w VM \<Rightarrow> (Page, 'w VM) thrown" where
  "fork_page_fault fe pageno init vm =
    (let (ok, ws) = fe_ws_alloc fe (vm_ws vm) PageSize;
         vm0 = vm\<lparr>vm_ws := ws\<rparr>;
         contents = (if init then zero_data else fe_garbage fe)
     in if ok then
          let (d, vm1) = new_page_data contents vm0;
              (pg, vm2) = allocate_page pageno
                (Page_non_owned (default_attr\<lparr>pa_non_owning := True, pa_user_defined := 1\<rparr>) d) vm1
          in (Inr pg, vm2)
        else if owned_pages_active vm0 * PageSize < fe_max_memory fe then
          let (d, vm1) = new_page_data contents vm0;
              (pg, vm2) = allocate_page pageno \<lparr> pg_attr = default_attr, pg_data = d \<rparr> vm1
          in (Inr pg, vm2)
        else out_of_memory pageno vm0)"

definition fork_page_write :: "'w ForkEnv \<Rightarrow> nat \<Rightarrow> 'w VM \<Rightarrow> (unit, 'w VM) thrown" where
  "fork_page_write fe pageno vm =
    (case find_page pageno vm of
       None \<Rightarrow> (Inr (), vm)
     | Some pg \<Rightarrow>
         let (ok, ws) = fe_ws_alloc fe (vm_ws vm) PageSize;
             vm0 = vm\<lparr>vm_ws := ws\<rparr>
         in if ok then
              let (d, vm1) = new_page_data (vm_data vm (pg_data pg)) vm0
              in (Inr (), put_page pageno
                    \<lparr> pg_attr = (pg_attr pg)\<lparr>pa_non_owning := True, pa_write := True, pa_is_cow := False\<rparr>, pg_data = d \<rparr> vm1)
            else if owned_pages_active vm0 * PageSize < fe_max_memory fe then (Inr (), make_writable pageno vm0)
            else out_of_memory pageno vm0)"

definition parent_page :: "Memory \<Rightarrow> nat \<Rightarrow> Page" where
  "parent_page parent pageno = (case map_of (m_pages parent) pageno of Some pg \<Rightarrow> pg | None \<Rightarrow> cow_page)"

definition fork_page_readf :: "'w ForkEnv \<Rightarrow> nat \<Rightarrow> 'w VM \<Rightarrow> (Page, 'w VM) thrown" where
  "fork_page_readf fe pageno vm =
    (let foreign_page = parent_page (fe_parent fe) pageno;
         attr = (pg_attr foreign_page)\<lparr>pa_non_owning := True, pa_is_cow := pa_write (pg_attr foreign_page), pa_write := False\<rparr>;
         (pg, vm1) = allocate_page pageno (Page_non_owned attr (pg_data foreign_page)) vm
     in (Inr pg, vm1))"

definition fork_handlers :: "'w ForkEnv \<Rightarrow> 'w PageHandlers" where
  "fork_handlers fe =
    \<lparr> page_fault_handler = fork_page_fault fe,
      page_write_handler = fork_page_write fe,
      page_readf_handler = fork_page_readf fe \<rparr>"

text \<open>A fork of the module: a minimal fork on the host memory of the process.\<close>

definition fork_vm :: "Memory \<Rightarrow> 'w \<Rightarrow> 'w VM \<Rightarrow> 'w VM" where
  "fork_vm master ws host = host\<lparr>vm_mem := machine_loader True master, vm_ws := ws\<rparr>"

end
