(* ===== verification/Cpu.thy ===== *)
theory Cpu
  imports Instr_Formats Pages "HOL-Library.Signed_Division"
begin

text \<open>
  The CPU of a 64-bit guest: registers, program counter, the load reservation of the atomics and the
  memory it executes on (\<open>cpu.hpp\<close>, \<open>cpu_inline.hpp\<close>, \<open>registers.hpp\<close>, \<open>rva.hpp\<close>
  under \<open>src/src/libriscv/lib/libriscv\<close>).  What the CPU calls outside the instruction
  set is an argument: the page handlers, the table of system calls, the custom system call instruction
  of the module, the handler of unknown CSRs, the clock, and floating-point arithmetic, which is the
  host's.
\<close>

unbundle bit_operations_syntax

record 'w CPU =
  cpu_regs :: "nat \<Rightarrow> 64 word"
  cpu_pc :: "64 word"
  cpu_fcsr :: "32 word"
  cpu_fl :: "nat \<Rightarrow> 64 word"
  cpu_reservation :: "64 word"
  cpu_counter :: "64 word"
  cpu_max_counter :: "64 word"
  cpu_vm :: "'w VM"

type_synonym 'w effect = "'w CPU \<Rightarrow> (unit, 'w CPU) thrown"

record 'w Env =
  env_pages :: "'w PageHandlers"
  env_syscalls :: "nat \<Rightarrow> 'w effect"
  env_unhandled_syscall :: "64 word \<Rightarrow> 'w effect"
  env_custom_syscall :: "nat \<Rightarrow> 'w effect"
  env_custom_count :: nat
  env_unhandled_csr :: "nat \<Rightarrow> nat \<Rightarrow> nat \<Rightarrow> 'w effect"
  env_rdtime :: "'w CPU \<Rightarrow> 64 word"
  env_float :: "32 word \<Rightarrow> 'w effect"

type_synonym 'w handler = "'w Env \<Rightarrow> 32 word \<Rightarrow> 'w effect"

section \<open>Register names\<close>

definition REG_RA :: nat where "REG_RA = 1"
definition REG_SP :: nat where "REG_SP = 2"
definition REG_ARG0 :: nat where "REG_ARG0 = 10"
definition REG_ECALL :: nat where "REG_ECALL = 17"

definition reg :: "'w CPU \<Rightarrow> nat \<Rightarrow> 64 word" where
  "reg c r = cpu_regs c r"

definition set_reg :: "nat \<Rightarrow> 64 word \<Rightarrow> 'w CPU \<Rightarrow> 'w CPU" where
  "set_reg r v c = c\<lparr>cpu_regs := (cpu_regs c)(r := v)\<rparr>"

definition set_fl :: "nat \<Rightarrow> 64 word \<Rightarrow> 'w CPU \<Rightarrow> 'w CPU" where
  "set_fl r v c = c\<lparr>cpu_fl := (cpu_fl c)(r := v)\<rparr>"

text \<open>The eight registers that the three-bit fields of compressed instructions name.\<close>

definition cireg :: "nat \<Rightarrow> nat" where
  "cireg r = r + 8"

definition trigger_exception :: "exceptions \<Rightarrow> nat \<Rightarrow> 'w CPU \<Rightarrow> ('a, 'w CPU) thrown" where
  "trigger_exception t d c = (Inl (MachineException t d), c)"

definition retire :: "'w CPU \<Rightarrow> (unit, 'w CPU) thrown" where
  "retire c = (Inr (), c)"

definition jump :: "64 word \<Rightarrow> 'w CPU \<Rightarrow> (unit, 'w CPU) thrown" where
  "jump dst c =
    (if dst AND 1 \<noteq> 0 then trigger_exception MISALIGNED_INSTRUCTION (unat dst) c
     else retire (c\<lparr>cpu_pc := dst\<rparr>))"

definition increment_pc :: "64 word \<Rightarrow> 'w CPU \<Rightarrow> 'w CPU" where
  "increment_pc delta c = c\<lparr>cpu_pc := cpu_pc c + delta\<rparr>"

section \<open>Memory accesses\<close>

definition lift_vm :: "('a, 'w VM) thrown \<Rightarrow> 'w CPU \<Rightarrow> ('a, 'w CPU) thrown" where
  "lift_vm r c = (fst r, c\<lparr>cpu_vm := snd r\<rparr>)"

definition cpu_read :: "'w Env \<Rightarrow> nat \<Rightarrow> 64 word \<Rightarrow> 'w CPU \<Rightarrow> (nat, 'w CPU) thrown" where
  "cpu_read E n addr c = lift_vm (mem_read (env_pages E) n (unat addr) (cpu_vm c)) c"

definition cpu_write :: "'w Env \<Rightarrow> nat \<Rightarrow> 64 word \<Rightarrow> 64 word \<Rightarrow> 'w CPU \<Rightarrow> (unit, 'w CPU) thrown" where
  "cpu_write E n addr v c = lift_vm (mem_write (env_pages E) n (unat addr) (unat v mod 256 ^ n) (cpu_vm c)) c"

text \<open>A load into a register, with the conversion of the loaded value.\<close>

definition load_into :: "'w Env \<Rightarrow> nat \<Rightarrow> (nat \<Rightarrow> 64 word) \<Rightarrow> nat \<Rightarrow> 64 word \<Rightarrow> 'w effect" where
  "load_into E n conv r addr c =
    (case cpu_read E n addr c of
       (Inl e, c') \<Rightarrow> (Inl e, c')
     | (Inr v, c') \<Rightarrow> retire (set_reg r (conv v) c'))"

definition load_float :: "'w Env \<Rightarrow> nat \<Rightarrow> nat \<Rightarrow> 64 word \<Rightarrow> 'w effect" where
  "load_float E n r addr c =
    (case cpu_read E n addr c of
       (Inl e, c') \<Rightarrow> (Inl e, c')
     | (Inr v, c') \<Rightarrow>
         retire (set_fl r (if n = 8 then of_nat v else (cpu_fl c' r AND 0xFFFFFFFF00000000) OR of_nat v) c'))"

text \<open>Conversions of loaded values: sign and zero extension.\<close>

definition sx8 :: "nat \<Rightarrow> 64 word" where "sx8 v = scast (of_nat v :: 8 word)"
definition sx16 :: "nat \<Rightarrow> 64 word" where "sx16 v = scast (of_nat v :: 16 word)"
definition sx32 :: "nat \<Rightarrow> 64 word" where "sx32 v = scast (of_nat v :: 32 word)"
definition zx :: "nat \<Rightarrow> 64 word" where "zx v = of_nat v"

text \<open>The lower half of a register, and a 32-bit result sign-extended.\<close>

definition lo32 :: "64 word \<Rightarrow> 32 word" where "lo32 v = ucast v"

section \<open>System calls\<close>

definition RISCV_SYSCALLS_MAX :: nat where "RISCV_SYSCALLS_MAX = 600"

definition SYSCALL_EBREAK :: "64 word" where "SYSCALL_EBREAK = 599"

definition system_call :: "'w Env \<Rightarrow> 64 word \<Rightarrow> 'w effect" where
  "system_call E n c =
    (if unat n < RISCV_SYSCALLS_MAX then env_syscalls E (unat n) c else env_unhandled_syscall E n c)"

definition ebreak :: "'w Env \<Rightarrow> 'w effect" where
  "ebreak E c = system_call E SYSCALL_EBREAK c"

definition stop :: "'w CPU \<Rightarrow> 'w CPU" where
  "stop c = c\<lparr>cpu_max_counter := 0\<rparr>"

section \<open>Basic facts\<close>

lemma reg_set_reg [simp]: "reg (set_reg r v c) q = (if q = r then v else reg c q)"
  by (simp add: reg_def set_reg_def)

lemma set_reg_sel [simp]:
  "cpu_pc (set_reg r v c) = cpu_pc c" "cpu_vm (set_reg r v c) = cpu_vm c" "cpu_fl (set_reg r v c) = cpu_fl c"
  "cpu_fcsr (set_reg r v c) = cpu_fcsr c" "cpu_counter (set_reg r v c) = cpu_counter c"
  "cpu_max_counter (set_reg r v c) = cpu_max_counter c" "cpu_reservation (set_reg r v c) = cpu_reservation c"
  by (simp_all add: set_reg_def)

lemma set_reg_same [simp]: "set_reg r v (set_reg r w c) = set_reg r v c"
  by (simp add: set_reg_def)

lemma set_reg_id [simp]: "set_reg r (reg c r) c = c"
  by (simp add: set_reg_def reg_def)

end
