(* ===== verification/Rvi_Instr.thy ===== *)
theory Rvi_Instr
  imports Cpu
begin

text \<open>
  The reference handlers of the base instruction set with M and the bit-manipulation extensions
  (\<open>rvi_instr.cpp\<close>) and the SYSTEM instructions (\<open>Machine::system\<close> of \<open>machine.cpp\<close>, both under
  \<open>src/src/libriscv/lib/libriscv\<close>), one definition per handler, for a 64-bit guest.  Handlers
  write the destination register as the source does; the decoder keeps \<open>x0\<close> out of their reach.  A shift of a rotation by the width of
  the register, which C++ leaves open for a rotation by zero, is taken modulo the width.
\<close>

unbundle bit_operations_syntax

section \<open>Bit counting and byte operations\<close>

definition countl_zero :: "'a::len word \<Rightarrow> nat" where
  "countl_zero w = length (takeWhile (\<lambda>n. \<not> bit w n) (rev [0 ..< LENGTH('a)]))"

definition countr_zero :: "'a::len word \<Rightarrow> nat" where
  "countr_zero w = length (takeWhile (\<lambda>n. \<not> bit w n) [0 ..< LENGTH('a)])"

definition popcount :: "'a::len word \<Rightarrow> nat" where
  "popcount w = length (filter (bit w) [0 ..< LENGTH('a)])"

definition byte_of :: "nat \<Rightarrow> 64 word \<Rightarrow> 64 word" where
  "byte_of k w = take_bit 8 (drop_bit (8 * k) w)"

definition orc_b :: "64 word \<Rightarrow> 64 word" where
  "orc_b w = foldr (\<lambda>k acc. acc OR (if byte_of k w \<noteq> 0 then push_bit (8 * k) 0xFF else 0)) [0 ..< 8] 0"

definition bswap64 :: "64 word \<Rightarrow> 64 word" where
  "bswap64 w = foldr (\<lambda>k acc. acc OR push_bit (56 - 8 * k) (byte_of k w)) [0 ..< 8] 0"

definition rol64 :: "64 word \<Rightarrow> nat \<Rightarrow> 64 word" where
  "rol64 w s = push_bit s w OR drop_bit ((64 - s) mod 64) w"

definition ror64 :: "64 word \<Rightarrow> nat \<Rightarrow> 64 word" where
  "ror64 w s = drop_bit s w OR push_bit ((64 - s) mod 64) w"

definition rol32 :: "32 word \<Rightarrow> nat \<Rightarrow> 32 word" where
  "rol32 w s = push_bit s w OR drop_bit ((32 - s) mod 32) w"

definition ror32 :: "32 word \<Rightarrow> nat \<Rightarrow> 32 word" where
  "ror32 w s = drop_bit s w OR push_bit ((32 - s) mod 32) w"

text \<open>Carry-less products as the source accumulates them, in a variable of type \<open>int\<close>.\<close>

definition clmul :: "64 word \<Rightarrow> 64 word \<Rightarrow> 64 word" where
  "clmul a b = scast (foldl (\<lambda>r i. if bit b i then r XOR ucast (push_bit i a) else r) (0 :: 32 word) [0 ..< 64])"

definition clmulr :: "64 word \<Rightarrow> 64 word \<Rightarrow> 64 word" where
  "clmulr a b = scast (foldl (\<lambda>r i. if bit b i then r XOR ucast (drop_bit (64 - i - 1) a) else r) (0 :: 32 word) [0 ..< 63])"

definition clmulh :: "64 word \<Rightarrow> 64 word \<Rightarrow> 64 word" where
  "clmulh a b = scast (foldl (\<lambda>r i. if bit b i then r XOR ucast (drop_bit (64 - i) a) else r) (0 :: 32 word) [1 ..< 64])"

definition mulhi64 :: "64 word \<Rightarrow> 64 word \<Rightarrow> 64 word" where
  "mulhi64 a b = word_of_int (sint a * sint b div 2 ^ 64)"

definition mulhsu64 :: "64 word \<Rightarrow> 64 word \<Rightarrow> 64 word" where
  "mulhsu64 a b = word_of_int (sint a * uint b div 2 ^ 64)"

definition mulhu64 :: "64 word \<Rightarrow> 64 word \<Rightarrow> 64 word" where
  "mulhu64 a b = word_of_int (uint a * uint b div 2 ^ 64)"

section \<open>Loads and stores\<close>

definition RVIMM_I :: "32 word \<Rightarrow> 64 word" where
  "RVIMM_I i = sext (Itype_signed_imm i)"

definition RVIMM_S :: "32 word \<Rightarrow> 64 word" where
  "RVIMM_S i = sext (Stype_signed_imm i)"

definition NOP :: "'w handler" where
  "NOP E i c = retire c"

definition UNIMPLEMENTED :: "'w handler" where
  "UNIMPLEMENTED E i c =
    trigger_exception UNIMPLEMENTED_INSTRUCTION (if instr_length i = 4 then unat i else unat (half0 i)) c"

definition ILLEGAL :: "'w handler" where
  "ILLEGAL E i c = trigger_exception ILLEGAL_OPCODE 0 c"

definition LOAD_I8 :: "'w handler" where
  "LOAD_I8 E i c = load_into E 1 sx8 (rd i) (reg c (rs1 i) + RVIMM_I i) c"

definition LOAD_I16 :: "'w handler" where
  "LOAD_I16 E i c = load_into E 2 sx16 (rd i) (reg c (rs1 i) + RVIMM_I i) c"

definition LOAD_I32 :: "'w handler" where
  "LOAD_I32 E i c = load_into E 4 sx32 (rd i) (reg c (rs1 i) + RVIMM_I i) c"

definition LOAD_I64 :: "'w handler" where
  "LOAD_I64 E i c = load_into E 8 zx (rd i) (reg c (rs1 i) + RVIMM_I i) c"

definition LOAD_U8 :: "'w handler" where
  "LOAD_U8 E i c = load_into E 1 zx (rd i) (reg c (rs1 i) + RVIMM_I i) c"

definition LOAD_U16 :: "'w handler" where
  "LOAD_U16 E i c = load_into E 2 zx (rd i) (reg c (rs1 i) + RVIMM_I i) c"

definition LOAD_U32 :: "'w handler" where
  "LOAD_U32 E i c = load_into E 4 zx (rd i) (reg c (rs1 i) + RVIMM_I i) c"

definition LOAD_U64 :: "'w handler" where
  "LOAD_U64 E i c = load_into E 8 zx (rd i) (reg c (rs1 i) + RVIMM_I i) c"

text \<open>A load into \<open>x0\<close> touches memory and drops the value.\<close>

definition touch :: "'w Env \<Rightarrow> nat \<Rightarrow> 64 word \<Rightarrow> 'w effect" where
  "touch E n addr c = (case cpu_read E n addr c of (Inl e, c') \<Rightarrow> (Inl e, c') | (Inr _, c') \<Rightarrow> retire c')"

definition LOAD_X_DUMMY :: "'w handler" where
  "LOAD_X_DUMMY E i c =
    (let addr = reg c (rs1 i) + RVIMM_I i; f3 = funct3 i in
     if f3 = 0 then touch E 1 addr c
     else if f3 = 1 then touch E 2 addr c
     else if f3 = 2 then touch E 4 addr c
     else if f3 = 3 then touch E 8 addr c
     else if f3 = 7 then trigger_exception ILLEGAL_OPCODE 0 c
     else retire c)"

definition STORE_I8_IMM :: "'w handler" where
  "STORE_I8_IMM E i c = cpu_write E 1 (reg c (rs1 i) + RVIMM_S i) (reg c (rs2 i)) c"

definition STORE_I8 :: "'w handler" where
  "STORE_I8 E i c = cpu_write E 1 (reg c (rs1 i)) (reg c (rs2 i)) c"

definition STORE_I16_IMM :: "'w handler" where
  "STORE_I16_IMM E i c = cpu_write E 2 (reg c (rs1 i) + RVIMM_S i) (reg c (rs2 i)) c"

definition STORE_I32_IMM :: "'w handler" where
  "STORE_I32_IMM E i c = cpu_write E 4 (reg c (rs1 i) + RVIMM_S i) (reg c (rs2 i)) c"

definition STORE_I64_IMM :: "'w handler" where
  "STORE_I64_IMM E i c = cpu_write E 8 (reg c (rs1 i) + RVIMM_S i) (reg c (rs2 i)) c"

section \<open>Branches and jumps\<close>

text \<open>A taken branch jumps to four bytes before its target; the dispatcher then adds the instruction length.\<close>

definition branch_if :: "bool \<Rightarrow> 64 word \<Rightarrow> 64 word \<Rightarrow> 'w effect" where
  "branch_if taken offset len c = (if taken then jump (cpu_pc c + offset - len) c else retire c)"

definition RVIMM_B :: "32 word \<Rightarrow> 64 word" where
  "RVIMM_B i = sext (Btype_signed_imm i)"

definition BRANCH_EQ :: "'w handler" where
  "BRANCH_EQ E i c = branch_if (reg c (rs1 i) = reg c (rs2 i)) (RVIMM_B i) 4 c"

definition BRANCH_NE :: "'w handler" where
  "BRANCH_NE E i c = branch_if (reg c (rs1 i) \<noteq> reg c (rs2 i)) (RVIMM_B i) 4 c"

definition BRANCH_LT :: "'w handler" where
  "BRANCH_LT E i c = branch_if (sint (reg c (rs1 i)) < sint (reg c (rs2 i))) (RVIMM_B i) 4 c"

definition BRANCH_GE :: "'w handler" where
  "BRANCH_GE E i c = branch_if (sint (reg c (rs1 i)) \<ge> sint (reg c (rs2 i))) (RVIMM_B i) 4 c"

definition BRANCH_LTU :: "'w handler" where
  "BRANCH_LTU E i c = branch_if (reg c (rs1 i) < reg c (rs2 i)) (RVIMM_B i) 4 c"

definition BRANCH_GEU :: "'w handler" where
  "BRANCH_GEU E i c = branch_if (reg c (rs1 i) \<ge> reg c (rs2 i)) (RVIMM_B i) 4 c"

definition JALR :: "'w handler" where
  "JALR E i c =
    (let address = reg c (rs1 i) + RVIMM_I i;
         c1 = (if rd i \<noteq> 0 then set_reg (rd i) (cpu_pc c + 4) c else c)
     in jump (address - 4) c1)"

definition JAL :: "'w handler" where
  "JAL E i c = (let c1 = set_reg (rd i) (cpu_pc c + 4) c in jump (cpu_pc c1 + sext (jump_offset i) - 4) c1)"

definition JMPI :: "'w handler" where
  "JMPI E i c = jump (cpu_pc c + sext (jump_offset i) - 4) c"

section \<open>Register-immediate instructions\<close>

text \<open>The result of OP-IMM, None where the instruction is not implemented.\<close>

definition op_imm :: "32 word \<Rightarrow> 64 word \<Rightarrow> 64 word option" where
  "op_imm i src =
    (let f3 = funct3 i; imm = Itype_imm i; s = unat (imm AND 63) in
     if f3 = 1 then
       (if imm = 0x604 then Some (scast (ucast src :: 8 word))
        else if imm = 0x605 then Some (scast (ucast src :: 16 word))
        else if imm = 0x600 then Some (of_nat (countl_zero src))
        else if imm = 0x601 then Some (of_nat (countr_zero src))
        else if imm = 0x602 then Some (of_nat (popcount src))
        else if high_bits i = 0x280 then Some (src OR push_bit s 1)
        else if high_bits i = 0x480 then Some (src AND NOT (push_bit s 1))
        else if high_bits i = 0x680 then Some (src XOR push_bit s 1)
        else None)
     else if f3 = 2 then Some (of_bool (sint src < sint (RVIMM_I i)))
     else if f3 = 3 then Some (of_bool (src < RVIMM_I i))
     else if f3 = 4 then Some (src XOR RVIMM_I i)
     else if f3 = 5 then
       (if is_srai i then Some (signed_drop_bit s src)
        else if is_rori i then Some (ror64 src s)
        else if high_bits i = 0x480 then Some (drop_bit s src AND 1)
        else if imm = 0x287 then Some (orc_b src)
        else if is_rev8 i then Some (bswap64 src)
        else None)
     else if f3 = 6 then Some (src OR RVIMM_I i)
     else None)"

text \<open>Writing the result, or the exception for an instruction that is not implemented.\<close>

definition finish_op :: "32 word \<Rightarrow> nat \<Rightarrow> 64 word option \<Rightarrow> 'w effect" where
  "finish_op i r res c =
    (case res of Some v \<Rightarrow> retire (set_reg r v c) | None \<Rightarrow> trigger_exception UNIMPLEMENTED_INSTRUCTION (unat i) c)"

definition OP_IMM :: "'w handler" where
  "OP_IMM E i c = finish_op i (rd i) (op_imm i (reg c (rs1 i))) c"

definition OP_IMM_ADDI :: "'w handler" where
  "OP_IMM_ADDI E i c = retire (set_reg (rd i) (reg c (rs1 i) + RVIMM_I i) c)"

definition OP_IMM_LI :: "'w handler" where
  "OP_IMM_LI E i c = retire (set_reg (rd i) (RVIMM_I i) c)"

definition OP_MV :: "'w handler" where
  "OP_MV E i c = retire (set_reg (rd i) (reg c (rs1 i)) c)"

definition OP_IMM_SLLI :: "'w handler" where
  "OP_IMM_SLLI E i c = retire (set_reg (rd i) (push_bit (unat (Itype_imm i AND 63)) (reg c (rs1 i))) c)"

definition OP_IMM_SRLI :: "'w handler" where
  "OP_IMM_SRLI E i c = retire (set_reg (rd i) (drop_bit (unat (Itype_imm i AND 63)) (reg c (rs1 i))) c)"

definition OP_IMM_ANDI :: "'w handler" where
  "OP_IMM_ANDI E i c = retire (set_reg (rd i) (reg c (rs1 i) AND RVIMM_I i) c)"

section \<open>Register-register instructions\<close>

text \<open>
  Signed division and remainder: where the quotient does not fit, DIV leaves the destination \<open>dst\<close> as it was.
\<close>

definition INT64_MIN :: int where "INT64_MIN = - 9223372036854775808"

definition op_div :: "64 word \<Rightarrow> 64 word \<Rightarrow> 64 word \<Rightarrow> 64 word" where
  "op_div dst a b =
    (if sint b \<noteq> 0 then (if \<not> (sint a = INT64_MIN \<and> sint b = -1) then word_of_int (sint a sdiv sint b) else dst)
     else -1)"

definition op_divu :: "64 word \<Rightarrow> 64 word \<Rightarrow> 64 word" where
  "op_divu a b = (if b \<noteq> 0 then a div b else -1)"

definition op_rem :: "64 word \<Rightarrow> 64 word \<Rightarrow> 64 word" where
  "op_rem a b =
    (if b \<noteq> 0 then (if \<not> (sint a = INT64_MIN \<and> sint b = -1) then word_of_int (sint a smod sint b) else 0) else a)"

definition op_remu :: "64 word \<Rightarrow> 64 word \<Rightarrow> 64 word" where
  "op_remu a b = (if b \<noteq> 0 then a mod b else a)"

definition op_alu :: "32 word \<Rightarrow> 64 word \<Rightarrow> 64 word \<Rightarrow> 64 word \<Rightarrow> 64 word option" where
  "op_alu code dst a b =
    (let s = unat (b AND 63) in
     if code = 0x1 then Some (push_bit s a)
     else if code = 0x2 then Some (of_bool (sint a < sint b))
     else if code = 0x3 then Some (of_bool (a < b))
     else if code = 0x4 then Some (a XOR b)
     else if code = 0x5 then Some (drop_bit s a)
     else if code = 0x6 then Some (a OR b)
     else if code = 0x7 then Some (a AND b)
     else if code = 0x10 then Some (a * b)
     else if code = 0x11 then Some (mulhi64 a b)
     else if code = 0x12 then Some (mulhsu64 a b)
     else if code = 0x13 then Some (mulhu64 a b)
     else if code = 0x14 then Some (op_div dst a b)
     else if code = 0x15 then Some (op_divu a b)
     else if code = 0x16 then Some (op_rem a b)
     else if code = 0x17 then Some (op_remu a b)
     else if code = 0x44 then Some (ucast (ucast a :: 16 word))
     else if code = 0x51 then Some (clmul a b)
     else if code = 0x52 then Some (clmulr a b)
     else if code = 0x53 then Some (clmulh a b)
     else if code = 0x54 then Some (if sint a < sint b then a else b)
     else if code = 0x55 then Some (if a < b then a else b)
     else if code = 0x56 then Some (if sint a > sint b then a else b)
     else if code = 0x57 then Some (if a > b then a else b)
     else if code = 0x75 then Some (if b = 0 then 0 else a)
     else if code = 0x77 then Some (if b \<noteq> 0 then 0 else a)
     else if code = 0x102 then Some (b + push_bit 1 a)
     else if code = 0x104 then Some (b + push_bit 2 a)
     else if code = 0x106 then Some (b + push_bit 3 a)
     else if code = 0x141 then Some (a OR push_bit s 1)
     else if code = 0x204 then Some (NOT (a XOR b))
     else if code = 0x205 then Some (signed_drop_bit s a)
     else if code = 0x206 then Some (a OR NOT b)
     else if code = 0x207 then Some (a AND NOT b)
     else if code = 0x241 then Some (a AND NOT (push_bit s 1))
     else if code = 0x245 then Some (drop_bit s a AND 1)
     else if code = 0x301 then Some (rol64 a s)
     else if code = 0x305 then Some (ror64 a s)
     else if code = 0x341 then Some (a XOR push_bit s 1)
     else None)"

definition OP :: "'w handler" where
  "OP E i c =
    finish_op i (rd i) (op_alu (jumptable_friendly_op i) (reg c (rd i)) (reg c (rs1 i)) (reg c (rs2 i))) c"

definition OP_ADD :: "'w handler" where
  "OP_ADD E i c = retire (set_reg (rd i) (reg c (rs1 i) + reg c (rs2 i)) c)"

definition OP_SUB :: "'w handler" where
  "OP_SUB E i c = retire (set_reg (rd i) (reg c (rs1 i) - reg c (rs2 i)) c)"

definition LUI :: "'w handler" where
  "LUI E i c = retire (set_reg (rd i) (sext (upper_imm i)) c)"

definition AUIPC :: "'w handler" where
  "AUIPC E i c = retire (set_reg (rd i) (cpu_pc c + sext (upper_imm i)) c)"

section \<open>32-bit instructions of a 64-bit guest\<close>

definition OP_IMM32_ADDIW :: "'w handler" where
  "OP_IMM32_ADDIW E i c = retire (set_reg (rd i) (sext (lo32 (reg c (rs1 i)) + Itype_signed_imm i)) c)"

definition OP_IMM32_SLLIW :: "'w handler" where
  "OP_IMM32_SLLIW E i c = retire (set_reg (rd i) (sext (push_bit (unat (shift_imm i)) (lo32 (reg c (rs1 i))))) c)"

definition OP_IMM32_SRLIW :: "'w handler" where
  "OP_IMM32_SRLIW E i c = retire (set_reg (rd i) (sext (drop_bit (unat (shift_imm i)) (lo32 (reg c (rs1 i))))) c)"

definition OP_IMM32_SRAIW :: "'w handler" where
  "OP_IMM32_SRAIW E i c = retire (set_reg (rd i) (sext (signed_drop_bit (unat (shift_imm i)) (lo32 (reg c (rs1 i))))) c)"

definition OP_IMM32_SLLI_UW :: "'w handler" where
  "OP_IMM32_SLLI_UW E i c = retire (set_reg (rd i) (push_bit (unat (shift_imm i)) (ucast (lo32 (reg c (rs1 i))))) c)"

definition op_imm32 :: "32 word \<Rightarrow> 32 word \<Rightarrow> 64 word option" where
  "op_imm32 i src =
    (let f3 = funct3 i; imm = Itype_imm i in
     if f3 = 1 then
       (if imm = 0x600 then Some (of_nat (countl_zero src))
        else if imm = 0x601 then Some (of_nat (countr_zero src))
        else if imm = 0x602 then Some (of_nat (popcount src))
        else None)
     else if f3 = 5 then
       (if high_bits i = 0x600 then Some (sext (ror32 src (unat (imm AND 31)))) else None)
     else None)"

definition OP_IMM32 :: "'w handler" where
  "OP_IMM32 E i c = finish_op i (rd i) (op_imm32 i (lo32 (reg c (rs1 i)))) c"

definition INT32_MIN :: int where "INT32_MIN = - 2147483648"

definition op_alu32 :: "32 word \<Rightarrow> 64 word \<Rightarrow> 64 word \<Rightarrow> 64 word \<Rightarrow> 64 word option" where
  "op_alu32 code dst r1 r2 =
    (let a = lo32 r1; b = lo32 r2; s = unat (b AND 31) in
     if code = 0x1 then Some (sext (push_bit s a))
     else if code = 0x5 then Some (sext (drop_bit s a))
     else if code = 0x10 then Some (sext (a * b))
     else if code = 0x14 then
       Some (if b \<noteq> 0 then
               (if \<not> (sint a = INT32_MIN \<and> sint b = -1) then sext (word_of_int (sint a sdiv sint b)) else dst)
             else -1)
     else if code = 0x15 then Some (if b \<noteq> 0 then sext (a div b) else -1)
     else if code = 0x16 then
       Some (if b \<noteq> 0 then
               (if \<not> (sint a = INT32_MIN \<and> sint b = -1) then sext (word_of_int (sint a smod sint b)) else dst)
             else sext a)
     else if code = 0x17 then Some (if b \<noteq> 0 then sext (a mod b) else sext a)
     else if code = 0x40 then Some (r2 + ucast a)
     else if code = 0x44 then Some (ucast (ucast a :: 16 word))
     else if code = 0x102 then Some (r2 + push_bit 1 (ucast a))
     else if code = 0x104 then Some (r2 + push_bit 2 (ucast a))
     else if code = 0x106 then Some (r2 + push_bit 3 (ucast a))
     else if code = 0x200 then Some (sext (a - b))
     else if code = 0x205 then Some (sext (signed_drop_bit s a))
     else if code = 0x301 then Some (sext (rol32 a s))
     else if code = 0x305 then Some (sext (ror32 a s))
     else None)"

definition OP32 :: "'w handler" where
  "OP32 E i c =
    finish_op i (rd i) (op_alu32 (jumptable_friendly_op i) (reg c (rd i)) (reg c (rs1 i)) (reg c (rs2 i))) c"

definition OP32_ADDW :: "'w handler" where
  "OP32_ADDW E i c = retire (set_reg (rd i) (sext (lo32 (reg c (rs1 i)) + lo32 (reg c (rs2 i)))) c)"

definition FENCE :: "'w handler" where
  "FENCE E i c = retire c"

section \<open>SYSTEM instructions\<close>

definition SYSCALL :: "'w handler" where
  "SYSCALL E i c = system_call E (reg c REG_ECALL) c"

definition WFI :: "'w handler" where
  "WFI E i c = retire (stop c)"

text \<open>The floating-point status register: its two fields, read and written.\<close>

definition fflags :: "'w CPU \<Rightarrow> 32 word" where "fflags c = take_bit 5 (cpu_fcsr c)"
definition frm :: "'w CPU \<Rightarrow> 32 word" where "frm c = take_bit 3 (drop_bit 5 (cpu_fcsr c))"

definition set_fflags :: "32 word \<Rightarrow> 'w CPU \<Rightarrow> 'w CPU" where
  "set_fflags v c = c\<lparr>cpu_fcsr := (cpu_fcsr c AND NOT 0x1F) OR take_bit 5 v\<rparr>"

definition set_frm :: "32 word \<Rightarrow> 'w CPU \<Rightarrow> 'w CPU" where
  "set_frm v c = c\<lparr>cpu_fcsr := (cpu_fcsr c AND NOT 0xE0) OR push_bit 5 (take_bit 3 v)\<rparr>"

text \<open>Reading a CSR into the destination, unless it is \<open>x0\<close>.\<close>

definition csr_read :: "32 word \<Rightarrow> 64 word \<Rightarrow> 'w CPU \<Rightarrow> 'w CPU" where
  "csr_read i v c = (if rd i \<noteq> 0 then set_reg (rd i) v c else c)"

text \<open>
  The three floating-point CSRs with a new value \<open>f\<close> of the old one; the source operand is read after the
  destination has been written.
\<close>

definition csr_float :: "32 word \<Rightarrow> (32 word \<Rightarrow> 'w CPU \<Rightarrow> 32 word) \<Rightarrow> (32 word \<Rightarrow> 'w CPU \<Rightarrow> 32 word) \<Rightarrow> 'w CPU \<Rightarrow> 'w CPU option" where
  "csr_float i f g c =
    (if Itype_imm i = 1 then (let c1 = csr_read i (ucast (fflags c)) c in Some (set_fflags (f (fflags c1) c1) c1))
     else if Itype_imm i = 2 then (let c1 = csr_read i (ucast (frm c)) c in Some (set_frm (f (frm c1) c1) c1))
     else if Itype_imm i = 3 then
       (let c1 = csr_read i (ucast (cpu_fcsr c)) c in Some (c1\<lparr>cpu_fcsr := g (cpu_fcsr c1) c1\<rparr>))
     else None)"

definition csrrs :: "'w handler" where
  "csrrs E i c =
    (let imm = Itype_imm i in
     case csr_float i (\<lambda>old c1. old OR lo32 (reg c1 (rs1 i))) (\<lambda>old c1. old OR (lo32 (reg c1 (rs1 i)) AND 0xFF)) c of
       Some c1 \<Rightarrow> retire c1
     | None \<Rightarrow>
         if imm = 0xC00 \<or> imm = 0xC02 then
           (if rd i \<noteq> 0 then retire (set_reg (rd i) (cpu_counter c) c)
            else if rs1 i = 0 then trigger_exception UNIMPLEMENTED_INSTRUCTION (unat imm) c
            else trigger_exception ILLEGAL_OPERATION (unat imm) c)
         else if imm = 0xC80 \<or> imm = 0xC82 then retire (csr_read i (drop_bit 32 (cpu_counter c)) c)
         else if imm = 0xC01 then retire (csr_read i (env_rdtime E c) c)
         else if imm = 0xC81 then retire (csr_read i (drop_bit 32 (env_rdtime E c)) c)
         else if imm = 0xF11 then retire (csr_read i 0 c)
         else if imm = 0xF12 then retire (csr_read i 0 c)
         else if imm = 0xF13 then retire (csr_read i 1 c)
         else if imm = 0xF14 then retire (csr_read i 0 c)
         else env_unhandled_csr E (unat imm) (rd i) (rs1 i) c)"

definition csr_immediate :: "(32 word \<Rightarrow> 32 word) \<Rightarrow> (32 word \<Rightarrow> 32 word) \<Rightarrow> 'w handler" where
  "csr_immediate f g E i c =
    (case csr_float i (\<lambda>old _. f old) (\<lambda>old _. g old) c of
       Some c1 \<Rightarrow> retire c1
     | None \<Rightarrow> env_unhandled_csr E (unat (Itype_imm i)) (rd i) (rs1 i) c)"

definition SYSTEM :: "'w handler" where
  "SYSTEM E i c =
    (let f3 = funct3 i; imm = Itype_imm i; uimm = of_nat (rs1 i) in
     if f3 = 0 then
       (if imm = 0 then system_call E (reg c REG_ECALL) c
        else if imm = 1 then ebreak E c
        else if imm = 0x105 then retire (stop c)
        else if imm = 0x7FF then retire (stop c)
        else trigger_exception ILLEGAL_OPERATION (unat f3) c)
     else if f3 = 1 then
       (case csr_float i (\<lambda>_ c1. lo32 (reg c1 (rs1 i))) (\<lambda>_ c1. lo32 (reg c1 (rs1 i)) AND 0xFF) c of
          Some c1 \<Rightarrow> retire c1
        | None \<Rightarrow> csrrs E i c)
     else if f3 = 2 then csrrs E i c
     else if f3 = 3 then
       (case csr_float i (\<lambda>old c1. old AND NOT (lo32 (reg c1 (rs1 i)))) (\<lambda>old c1. old AND NOT (lo32 (reg c1 (rs1 i)) AND 0xFF)) c of
          Some c1 \<Rightarrow> retire c1
        | None \<Rightarrow> trigger_exception ILLEGAL_OPERATION (unat f3) c)
     else if f3 = 5 then csr_immediate (\<lambda>_. uimm) (\<lambda>_. uimm AND 0xFF) E i c
     else if f3 = 7 then csr_immediate (\<lambda>old. old AND NOT uimm) (\<lambda>old. old AND NOT (uimm AND 0xFF)) E i c
     else trigger_exception ILLEGAL_OPERATION (unat f3) c)"

end
