(* ===== verification/Rvc_Instr.thy ===== *)
theory Rvc_Instr
  imports Rvi_Instr
begin

text \<open>
  The reference handlers of the compressed instructions (\<open>rvc_instr.cpp\<close> under
  \<open>src/src/libriscv/lib/libriscv\<close>), one definition per handler, for a 64-bit guest.  Offsets of type
  \<open>uint32_t\<close> are zero-extended, those of type \<open>int32_t\<close> sign-extended when they are added to a register.
\<close>

unbundle bit_operations_syntax

section \<open>Quadrant 0\<close>

definition C0_ADDI4SPN :: "'w handler" where
  "C0_ADDI4SPN E i c = retire (set_reg (cireg (srd i)) (reg c REG_SP + ucast (CIW_offset i)) c)"

definition C0_REG_FLD :: "'w handler" where
  "C0_REG_FLD E i c = load_float E 8 (cireg (srd i)) (reg c (cireg (srs1 i)) + ucast (CSD_offset8 i)) c"

definition C0_REG_LW :: "'w handler" where
  "C0_REG_LW E i c = load_into E 4 sx32 (cireg (srd i)) (reg c (cireg (srs1 i)) + ucast (CL_offset i)) c"

definition C0_REG_LD :: "'w handler" where
  "C0_REG_LD E i c = load_into E 8 zx (cireg (srs2 i)) (reg c (cireg (srs1 i)) + ucast (CSD_offset8 i)) c"

definition C0_REG_FSD :: "'w handler" where
  "C0_REG_FSD E i c =
    cpu_write E 8 (reg c (cireg (srs1 i)) + ucast (CSD_offset8 i)) (cpu_fl c (cireg (srs2 i))) c"

definition C0_REG_SW :: "'w handler" where
  "C0_REG_SW E i c =
    cpu_write E 4 (reg c (cireg (srs1 i)) + ucast (CS_offset4 i)) (reg c (cireg (srs2 i))) c"

definition C0_REG_SD :: "'w handler" where
  "C0_REG_SD E i c =
    cpu_write E 8 (reg c (cireg (srs1 i)) + ucast (CSD_offset8 i)) (reg c (cireg (srs2 i))) c"

section \<open>Quadrant 1\<close>

definition C1_ADDI :: "'w handler" where
  "C1_ADDI E i c = retire (set_reg (CI_rd i) (reg c (CI_rd i) + sext (CI_signed_imm i)) c)"

definition C1_ADDIW :: "'w handler" where
  "C1_ADDIW E i c = retire (set_reg (CI_rd i) (sext (lo32 (reg c (CI_rd i)) + CI_signed_imm i)) c)"

definition C1_LI :: "'w handler" where
  "C1_LI E i c = retire (set_reg (CI_rd i) (sext (CI_signed_imm i)) c)"

definition C1_ADDI16SP :: "'w handler" where
  "C1_ADDI16SP E i c = retire (set_reg REG_SP (reg c REG_SP + sext (CI16_signed_imm i)) c)"

definition C1_LUI :: "'w handler" where
  "C1_LUI E i c = retire (set_reg (CI_rd i) (sext (CI_upper_imm i)) c)"

text \<open>The value that C.SRLI, C.SRAI, C.ANDI and the register-register forms give, None for the reserved ones.\<close>

definition c1_alu :: "32 word \<Rightarrow> 64 word \<Rightarrow> 64 word \<Rightarrow> 64 word option" where
  "c1_alu i dst src =
    (let f = CA_funct6 i AND 3; op = CA_funct2 i OR (CA_funct6 i AND 4) in
     if f = 0 then Some (drop_bit (unat (CAB_shift64_imm i)) dst)
     else if f = 1 then Some (signed_drop_bit (unat (CAB_shift64_imm i AND 63)) dst)
     else if f = 2 then Some (dst AND sext (CAB_signed_imm i))
     else if op = 0 then Some (dst - src)
     else if op = 1 then Some (dst XOR src)
     else if op = 2 then Some (dst OR src)
     else if op = 3 then Some (dst AND src)
     else if op = 4 then Some (sext (lo32 dst - lo32 src))
     else if op = 5 then Some (sext (lo32 dst + lo32 src))
     else None)"

definition C1_ALU_OPS :: "'w handler" where
  "C1_ALU_OPS E i c =
    (case c1_alu i (reg c (cireg (CA_srd i))) (reg c (cireg (srs2 i))) of
       Some v \<Rightarrow> retire (set_reg (cireg (CA_srd i)) v c)
     | None \<Rightarrow> trigger_exception ILLEGAL_OPCODE 0 c)"

definition C1_JUMP :: "'w handler" where
  "C1_JUMP E i c = jump (cpu_pc c + sext (CJ_signed_imm i) - 2) c"

definition C1_BEQZ :: "'w handler" where
  "C1_BEQZ E i c = branch_if (reg c (cireg (srs1 i)) = 0) (sext (CB_signed_imm i)) 2 c"

definition C1_BNEZ :: "'w handler" where
  "C1_BNEZ E i c = branch_if (reg c (cireg (srs1 i)) \<noteq> 0) (sext (CB_signed_imm i)) 2 c"

section \<open>Quadrant 2\<close>

definition C2_SLLI :: "'w handler" where
  "C2_SLLI E i c = retire (set_reg (CI_rd i) (push_bit (unat (CI_shift64_imm i)) (reg c (CI_rd i))) c)"

definition C2_FLDSP :: "'w handler" where
  "C2_FLDSP E i c = load_float E 8 (CI_rd i) (reg c REG_SP + ucast (CIFLD_offset i)) c"

definition C2_LWSP :: "'w handler" where
  "C2_LWSP E i c = load_into E 4 sx32 (CI_rd i) (reg c REG_SP + ucast (CI2_offset i)) c"

definition C2_LDSP :: "'w handler" where
  "C2_LDSP E i c = load_into E 8 zx (CI_rd i) (reg c REG_SP + ucast (CIFLD_offset i)) c"

definition C2_FSDSP :: "'w handler" where
  "C2_FSDSP E i c = cpu_write E 8 (reg c REG_SP + sext (CSFSD_offset i)) (cpu_fl c (CR_rs2 i)) c"

definition C2_SWSP :: "'w handler" where
  "C2_SWSP E i c = cpu_write E 4 (reg c REG_SP + sext (CSS_offset 4 i)) (reg c (CR_rs2 i)) c"

definition C2_SDSP :: "'w handler" where
  "C2_SDSP E i c = cpu_write E 8 (reg c REG_SP + sext (CSFSD_offset i)) (reg c (CR_rs2 i)) c"

definition C2_JR :: "'w handler" where
  "C2_JR E i c = jump (reg c (CR_rd i) - 2) c"

text \<open>C.JALR writes the return address before it reads the target register.\<close>

definition C2_JALR :: "'w handler" where
  "C2_JALR E i c = (let c1 = set_reg REG_RA (cpu_pc c + 2) c in jump (reg c1 (CR_rd i) - 2) c1)"

definition C2_MV :: "'w handler" where
  "C2_MV E i c = retire (set_reg (CR_rd i) (reg c (CR_rs2 i)) c)"

definition C2_ADD :: "'w handler" where
  "C2_ADD E i c = retire (set_reg (CR_rd i) (reg c (CR_rd i) + reg c (CR_rs2 i)) c)"

definition C2_EBREAK :: "'w handler" where
  "C2_EBREAK E i c = ebreak E c"

end
