(* ===== verification/Rva_Instr.thy ===== *)
theory Rva_Instr
  imports Rvi_Instr
begin

text \<open>
  The reference handlers of the atomic instructions (\<open>rva_instr.cpp\<close>, the reservation of \<open>rva.hpp\<close>)
  and those floating-point handlers that only move bits (\<open>rvf_instr.cpp\<close>), under
  \<open>src/src/libriscv/lib/libriscv\<close>.  One guest CPU runs at a time, so an atomic operation is a read followed by a
  write of the same page.
\<close>

unbundle bit_operations_syntax

section \<open>Atomic memory operations\<close>

text \<open>Reading through a page that the write path made writable: \<open>Memory::writable_read\<close>, with the buffer that holds it.\<close>

definition writable_read :: "'w PageHandlers \<Rightarrow> nat \<Rightarrow> nat \<Rightarrow> 'w VM \<Rightarrow> (nat \<times> nat, 'w VM) thrown" where
  "writable_read H n address vm =
    (case cached_writable_page H address vm of
       (Inl e, vm1) \<Rightarrow> (Inl e, vm1)
     | (Inr d, vm1) \<Rightarrow> (Inr (d, load_le (vm_data vm1 d) (access_offset n address) n), vm1))"

definition amo :: "nat \<Rightarrow> (nat \<Rightarrow> 64 word) \<Rightarrow> (nat \<Rightarrow> 64 word \<Rightarrow> nat) \<Rightarrow> 'w handler" where
  "amo n conv op E i c =
    (let addr = unat (reg c (rs1 i)) in
     if addr mod n \<noteq> 0 then trigger_exception INVALID_ALIGNMENT addr c
     else
       case lift_vm (writable_read (env_pages E) n addr (cpu_vm c)) c of
         (Inl e, c1) \<Rightarrow> (Inl e, c1)
       | (Inr (d, old), c1) \<Rightarrow>
           let c2 = c1\<lparr>cpu_vm := data_upd d (\<lambda>b. store_le b (access_offset n addr) n (op old (reg c1 (rs2 i)))) (cpu_vm c1)\<rparr>
           in retire (if rd i \<noteq> 0 then set_reg (rd i) (conv old) c2 else c2))"

text \<open>The operations on 32-bit and 64-bit words.\<close>

definition amo_w :: "(32 word \<Rightarrow> 32 word \<Rightarrow> 32 word) \<Rightarrow> 'w handler" where
  "amo_w f = amo 4 sx32 (\<lambda>old r. unat (f (of_nat old) (lo32 r)))"

definition amo_d :: "(64 word \<Rightarrow> 64 word \<Rightarrow> 64 word) \<Rightarrow> 'w handler" where
  "amo_d f = amo 8 zx (\<lambda>old r. unat (f (of_nat old) r))"

definition smax :: "'a::len word \<Rightarrow> 'a word \<Rightarrow> 'a word" where
  "smax a b = (if sint a < sint b then b else a)"

definition smin :: "'a::len word \<Rightarrow> 'a word \<Rightarrow> 'a word" where
  "smin a b = (if sint b < sint a then b else a)"

definition AMOADD_W :: "'w handler" where "AMOADD_W = amo_w (+)"
definition AMOXOR_W :: "'w handler" where "AMOXOR_W = amo_w (XOR)"
definition AMOOR_W :: "'w handler" where "AMOOR_W = amo_w (OR)"
definition AMOAND_W :: "'w handler" where "AMOAND_W = amo_w (AND)"
definition AMOMAX_W :: "'w handler" where "AMOMAX_W = amo_w smax"
definition AMOMIN_W :: "'w handler" where "AMOMIN_W = amo_w smin"
definition AMOMAXU_W :: "'w handler" where "AMOMAXU_W = amo_w max"
definition AMOMINU_W :: "'w handler" where "AMOMINU_W = amo_w min"
definition AMOSWAP_W :: "'w handler" where "AMOSWAP_W = amo_w (\<lambda>old v. v)"

definition AMOADD_D :: "'w handler" where "AMOADD_D = amo_d (+)"
definition AMOXOR_D :: "'w handler" where "AMOXOR_D = amo_d (XOR)"
definition AMOOR_D :: "'w handler" where "AMOOR_D = amo_d (OR)"
definition AMOAND_D :: "'w handler" where "AMOAND_D = amo_d (AND)"
definition AMOMAX_D :: "'w handler" where "AMOMAX_D = amo_d smax"
definition AMOMIN_D :: "'w handler" where "AMOMIN_D = amo_d smin"
definition AMOMAXU_D :: "'w handler" where "AMOMAXU_D = amo_d max"
definition AMOMINU_D :: "'w handler" where "AMOMINU_D = amo_d min"
definition AMOSWAP_D :: "'w handler" where "AMOSWAP_D = amo_d (\<lambda>old v. v)"

section \<open>Load reserved and store conditional\<close>

definition load_reserve :: "nat \<Rightarrow> 64 word \<Rightarrow> 'w CPU \<Rightarrow> bool \<times> 'w CPU" where
  "load_reserve n addr c =
    (if unat addr mod n \<noteq> 0 then (False, c) else (True, c\<lparr>cpu_reservation := addr\<rparr>))"

definition store_conditional :: "nat \<Rightarrow> 64 word \<Rightarrow> 'w CPU \<Rightarrow> bool \<times> 'w CPU" where
  "store_conditional n addr c =
    (if unat addr mod n \<noteq> 0 then (False, c) else (cpu_reservation c = addr, c\<lparr>cpu_reservation := 0\<rparr>))"

definition load_resv_n :: "nat \<Rightarrow> (nat \<Rightarrow> 64 word) \<Rightarrow> 'w handler" where
  "load_resv_n n conv E i c =
    (let addr = reg c (rs1 i) in
     case load_reserve n addr c of
       (False, c1) \<Rightarrow> trigger_exception DEADLOCK_REACHED 0 c1
     | (True, c1) \<Rightarrow>
         case cpu_read E n addr c1 of
           (Inl e, c2) \<Rightarrow> (Inl e, c2)
         | (Inr v, c2) \<Rightarrow> retire (if rd i \<noteq> 0 then set_reg (rd i) (conv v) c2 else c2))"

definition LOAD_RESV :: "'w handler" where
  "LOAD_RESV E i c =
    (if funct3 i = 2 then load_resv_n 4 sx32 E i c
     else if funct3 i = 3 then load_resv_n 8 zx E i c
     else trigger_exception ILLEGAL_OPCODE 0 c)"

definition store_cond_n :: "nat \<Rightarrow> 'w handler" where
  "store_cond_n n E i c =
    (let addr = reg c (rs1 i) in
     case store_conditional n addr c of
       (resv, c1) \<Rightarrow>
         case (if resv then cpu_write E n addr (reg c1 (rs2 i)) c1 else retire c1) of
           (Inl e, c2) \<Rightarrow> (Inl e, c2)
         | (Inr _, c2) \<Rightarrow> retire (if rd i \<noteq> 0 then set_reg (rd i) (of_bool (\<not> resv)) c2 else c2))"

definition STORE_COND :: "'w handler" where
  "STORE_COND E i c =
    (if funct3 i = 2 then store_cond_n 4 E i c
     else if funct3 i = 3 then store_cond_n 8 E i c
     else trigger_exception ILLEGAL_OPCODE 0 c)"

section \<open>Floating-point moves\<close>

definition funct2 :: "32 word \<Rightarrow> 32 word" where
  "funct2 i = field 25 2 i"

text \<open>\<open>load_u32\<close> of a floating-point register: the upper half stays, since values are not NaN-boxed.\<close>

definition load_u32 :: "32 word \<Rightarrow> 64 word \<Rightarrow> 64 word" where
  "load_u32 v old = (old AND 0xFFFFFFFF00000000) OR ucast v"

definition FLW :: "'w handler" where
  "FLW E i c = load_float E 4 (rd i) (reg c (rs1 i) + RVIMM_I i) c"

definition FLD :: "'w handler" where
  "FLD E i c = load_float E 8 (rd i) (reg c (rs1 i) + RVIMM_I i) c"

definition FSW :: "'w handler" where
  "FSW E i c = cpu_write E 4 (reg c (rs1 i) + RVIMM_S i) (cpu_fl c (rs2 i)) c"

definition FSD :: "'w handler" where
  "FSD E i c = cpu_write E 8 (reg c (rs1 i) + RVIMM_S i) (cpu_fl c (rs2 i)) c"

text \<open>The sign that FSGNJ, FSGNJN and FSGNJX give a value, at the bit \<open>n\<close> where the sign is.\<close>

definition sgnj_sign :: "32 word \<Rightarrow> nat \<Rightarrow> 64 word \<Rightarrow> 64 word \<Rightarrow> bool option" where
  "sgnj_sign f3 n a b =
    (if f3 = 0 then Some (bit b n) else if f3 = 1 then Some (\<not> bit b n)
     else if f3 = 2 then Some (bit a n \<noteq> bit b n) else None)"

definition FSGNJ_NX :: "'w handler" where
  "FSGNJ_NX E i c =
    (let a = cpu_fl c (rs1 i); b = cpu_fl c (rs2 i) in
     if funct2 i = 0 then
       (case sgnj_sign (funct3 i) 31 a b of
          None \<Rightarrow> trigger_exception ILLEGAL_OPERATION 0 c
        | Some s \<Rightarrow> retire (set_fl (rd i) (load_u32 (push_bit 31 (of_bool s) OR take_bit 31 (lo32 a)) (cpu_fl c (rd i))) c))
     else if funct2 i = 1 then
       (case sgnj_sign (funct3 i) 63 a b of
          None \<Rightarrow> trigger_exception ILLEGAL_OPERATION 0 c
        | Some s \<Rightarrow> retire (set_fl (rd i) (push_bit 63 (of_bool s) OR take_bit 63 a) c))
     else trigger_exception ILLEGAL_OPERATION 0 c)"

definition FMV_X_W :: "'w handler" where
  "FMV_X_W E i c =
    (if funct2 i = 0 then retire (set_reg (rd i) (sext (lo32 (cpu_fl c (rs1 i)))) c)
     else if funct2 i = 1 then retire (set_reg (rd i) (cpu_fl c (rs1 i)) c)
     else trigger_exception ILLEGAL_OPERATION 0 c)"

definition FMV_W_X :: "'w handler" where
  "FMV_W_X E i c =
    (if funct2 i = 0 then retire (set_fl (rd i) (load_u32 (lo32 (reg c (rs1 i))) (cpu_fl c (rd i))) c)
     else if funct2 i = 1 then retire (set_fl (rd i) (reg c (rs1 i)) c)
     else trigger_exception ILLEGAL_OPERATION 0 c)"

end
