(* ===== verification/Decode.thy ===== *)
theory Decode
  imports Rvc_Instr Rva_Instr
begin

text \<open>
  Decoding: which reference handler an instruction word selects (\<open>instr_decoding.inc\<close>, included by
  \<open>CPU::decode\<close> and \<open>CPU::execute\<close> in \<open>rv64i.cpp\<close>), with the module's custom system call instruction
  (\<open>on_unimplemented_instruction\<close> in \<open>script_functions.cpp\<close>).  A switch that falls out of its cases is \<open>None\<close> here
  and continues with the checks at the end of the decoder.  Compressed instructions are enabled, atomics are enabled,
  vector instructions are not.
\<close>

unbundle bit_operations_syntax

definition funct5 :: "32 word \<Rightarrow> 32 word" where
  "funct5 i = field 27 5 i"

section \<open>Opcodes\<close>

definition RV32I_LOAD :: "32 word" where "RV32I_LOAD = 0x03"
definition RV32I_STORE :: "32 word" where "RV32I_STORE = 0x23"
definition RV32I_BRANCH :: "32 word" where "RV32I_BRANCH = 0x63"
definition RV32I_JALR :: "32 word" where "RV32I_JALR = 0x67"
definition RV32I_JAL :: "32 word" where "RV32I_JAL = 0x6F"
definition RV32I_OP_IMM :: "32 word" where "RV32I_OP_IMM = 0x13"
definition RV32I_OP :: "32 word" where "RV32I_OP = 0x33"
definition RV32I_SYSTEM :: "32 word" where "RV32I_SYSTEM = 0x73"
definition RV32I_LUI :: "32 word" where "RV32I_LUI = 0x37"
definition RV32I_AUIPC :: "32 word" where "RV32I_AUIPC = 0x17"
definition RV32I_FENCE :: "32 word" where "RV32I_FENCE = 0x0F"
definition RV64I_OP_IMM32 :: "32 word" where "RV64I_OP_IMM32 = 0x1B"
definition RV64I_OP32 :: "32 word" where "RV64I_OP32 = 0x3B"
definition RV32F_LOAD :: "32 word" where "RV32F_LOAD = 0x07"
definition RV32F_STORE :: "32 word" where "RV32F_STORE = 0x27"
definition RV32F_FMADD :: "32 word" where "RV32F_FMADD = 0x43"
definition RV32F_FMSUB :: "32 word" where "RV32F_FMSUB = 0x47"
definition RV32F_FNMSUB :: "32 word" where "RV32F_FNMSUB = 0x4B"
definition RV32F_FNMADD :: "32 word" where "RV32F_FNMADD = 0x4F"
definition RV32F_FPFUNC :: "32 word" where "RV32F_FPFUNC = 0x53"
definition RV32A_ATOMIC :: "32 word" where "RV32A_ATOMIC = 0x2F"

lemmas opcode_defs =
  RV32I_LOAD_def RV32I_STORE_def RV32I_BRANCH_def RV32I_JALR_def RV32I_JAL_def RV32I_OP_IMM_def RV32I_OP_def
  RV32I_SYSTEM_def RV32I_LUI_def RV32I_AUIPC_def RV32I_FENCE_def RV64I_OP_IMM32_def RV64I_OP32_def
  RV32F_LOAD_def RV32F_STORE_def RV32F_FMADD_def RV32F_FMSUB_def RV32F_FNMSUB_def RV32F_FNMADD_def
  RV32F_FPFUNC_def RV32A_ATOMIC_def

section \<open>Cases of the decoder\<close>

definition decode_load :: "32 word \<Rightarrow> 'w handler" where
  "decode_load i =
    (if rd i = 0 then LOAD_X_DUMMY
     else if funct3 i = 0 then LOAD_I8 else if funct3 i = 1 then LOAD_I16
     else if funct3 i = 2 then LOAD_I32 else if funct3 i = 3 then LOAD_I64
     else if funct3 i = 4 then LOAD_U8 else if funct3 i = 5 then LOAD_U16
     else if funct3 i = 6 then LOAD_U32 else ILLEGAL)"

definition decode_store :: "32 word \<Rightarrow> 'w handler" where
  "decode_store i =
    (if funct3 i = 0 then (if Stype_signed_imm i = 0 then STORE_I8 else STORE_I8_IMM)
     else if funct3 i = 1 then STORE_I16_IMM else if funct3 i = 2 then STORE_I32_IMM
     else if funct3 i = 3 then STORE_I64_IMM else ILLEGAL)"

definition decode_branch :: "32 word \<Rightarrow> 'w handler" where
  "decode_branch i =
    (if funct3 i = 0 then BRANCH_EQ else if funct3 i = 1 then BRANCH_NE
     else if funct3 i = 4 then BRANCH_LT else if funct3 i = 5 then BRANCH_GE
     else if funct3 i = 6 then BRANCH_LTU else if funct3 i = 7 then BRANCH_GEU else ILLEGAL)"

definition decode_op_imm :: "32 word \<Rightarrow> 'w handler" where
  "decode_op_imm i =
    (if rd i = 0 then NOP
     else if funct3 i = 0 then
       (if rs1 i = 0 then OP_IMM_LI else if Itype_imm i = 0 then OP_MV else OP_IMM_ADDI)
     else if funct3 i = 1 then (if high_bits i = 0 then OP_IMM_SLLI else OP_IMM)
     else if funct3 i = 5 then (if high_bits i = 0 then OP_IMM_SRLI else OP_IMM)
     else if funct3 i = 7 then OP_IMM_ANDI
     else OP_IMM)"

definition decode_op :: "32 word \<Rightarrow> 'w handler" where
  "decode_op i =
    (if rd i = 0 then NOP
     else if jumptable_friendly_op i = 0 then OP_ADD
     else if jumptable_friendly_op i = 0x200 then OP_SUB else OP)"

definition decode_system :: "32 word \<Rightarrow> 'w handler" where
  "decode_system i =
    (if funct3 i = 0 \<and> Itype_imm i = 0 then SYSCALL
     else if funct3 i = 0 \<and> Itype_imm i = 0x7FF then WFI
     else if funct3 i = 0 \<and> Itype_imm i = 261 then WFI
     else SYSTEM)"

definition decode_op_imm32 :: "32 word \<Rightarrow> 'w handler" where
  "decode_op_imm32 i =
    (if rd i = 0 then NOP
     else if funct3 i = 0 then OP_IMM32_ADDIW
     else if funct3 i = 1 then
       (if high_bits i = 0 then OP_IMM32_SLLIW else if high_bits i = 0x080 then OP_IMM32_SLLI_UW else OP_IMM32)
     else if funct3 i = 5 then
       (if high_bits i = 0 then OP_IMM32_SRLIW else if high_bits i = 0x400 then OP_IMM32_SRAIW else OP_IMM32)
     else ILLEGAL)"

definition decode_op32 :: "32 word \<Rightarrow> 'w handler" where
  "decode_op32 i = (if rd i = 0 then NOP else if jumptable_friendly_op i = 0 then OP32_ADDW else OP32)"

text \<open>Floating-point arithmetic is the host's: an argument of the model, selected by the instruction word.\<close>

definition FLOAT :: "'w handler" where
  "FLOAT E i c = env_float E i c"

definition decode_fpfunc :: "32 word \<Rightarrow> 'w handler option" where
  "decode_fpfunc i =
    (let f = funct5 i in
     if f = 0x04 then Some FSGNJ_NX
     else if f = 0x14 \<or> f = 0x18 then Some (if rd i \<noteq> 0 then FLOAT else NOP)
     else if f = 0x1C then Some (if rd i \<noteq> 0 then (if funct3 i = 0 then FMV_X_W else FLOAT) else NOP)
     else if f = 0x1E then Some FMV_W_X
     else if f \<in> {0x00, 0x01, 0x02, 0x03, 0x05, 0x0B, 0x08, 0x1A} then Some FLOAT
     else None)"

definition decode_atomic :: "32 word \<Rightarrow> 'w handler option" where
  "decode_atomic i =
    (let f = funct5 i; w = (funct3 i = 2) in
     if funct3 i \<noteq> 2 \<and> funct3 i \<noteq> 3 then None
     else if f = 0x02 then Some (if rs2 i = 0 then LOAD_RESV else ILLEGAL)
     else if f = 0x03 then Some STORE_COND
     else if f = 0x00 then Some (if w then AMOADD_W else AMOADD_D)
     else if f = 0x01 then Some (if w then AMOSWAP_W else AMOSWAP_D)
     else if f = 0x04 then Some (if w then AMOXOR_W else AMOXOR_D)
     else if f = 0x08 then Some (if w then AMOOR_W else AMOOR_D)
     else if f = 0x0C then Some (if w then AMOAND_W else AMOAND_D)
     else if f = 0x10 then Some (if w then AMOMIN_W else AMOMIN_D)
     else if f = 0x14 then Some (if w then AMOMAX_W else AMOMAX_D)
     else if f = 0x18 then Some (if w then AMOMINU_W else AMOMINU_D)
     else if f = 0x1C then Some (if w then AMOMAXU_W else AMOMAXU_D)
     else None)"

definition decode_long :: "32 word \<Rightarrow> 'w handler option" where
  "decode_long i =
    (let opc = opcode i in
     if opc = RV32I_LOAD then Some (decode_load i)
     else if opc = RV32I_STORE then Some (decode_store i)
     else if opc = RV32I_BRANCH then Some (decode_branch i)
     else if opc = RV32I_JALR then Some JALR
     else if opc = RV32I_JAL then Some (if rd i \<noteq> 0 then JAL else JMPI)
     else if opc = RV32I_OP_IMM then Some (decode_op_imm i)
     else if opc = RV32I_OP then Some (decode_op i)
     else if opc = RV32I_SYSTEM then Some (decode_system i)
     else if opc = RV32I_LUI then Some (if rd i \<noteq> 0 then LUI else NOP)
     else if opc = RV32I_AUIPC then Some (if rd i \<noteq> 0 then AUIPC else NOP)
     else if opc = RV64I_OP_IMM32 then Some (decode_op_imm32 i)
     else if opc = RV64I_OP32 then Some (decode_op32 i)
     else if opc = RV32I_FENCE then Some FENCE
     else if opc = RV32F_LOAD then Some (if funct3 i = 2 then FLW else if funct3 i = 3 then FLD else ILLEGAL)
     else if opc = RV32F_STORE then Some (if funct3 i = 2 then FSW else if funct3 i = 3 then FSD else ILLEGAL)
     else if opc = RV32F_FMADD \<or> opc = RV32F_FMSUB \<or> opc = RV32F_FNMSUB \<or> opc = RV32F_FNMADD then Some FLOAT
     else if opc = RV32F_FPFUNC then decode_fpfunc i
     else if opc = RV32A_ATOMIC then decode_atomic i
     else None)"

text \<open>\<open>CI_CODE(x, y)\<close>: the key of the switch over compressed instructions.\<close>

definition CI_CODE :: "nat \<Rightarrow> nat \<Rightarrow> 32 word" where
  "CI_CODE x y = of_nat (x * 8192 + y)"

definition decode_c0 :: "32 word \<Rightarrow> 'w handler option" where
  "decode_c0 i =
    (let f = c_funct3 i in
     if f = 0 then Some (if half0 i \<noteq> 0 then C0_ADDI4SPN else ILLEGAL)
     else if f = 1 then Some C0_REG_FLD
     else if f = 2 then Some C0_REG_LW
     else if f = 3 then Some C0_REG_LD
     else if f = 5 then Some C0_REG_FSD
     else if f = 6 then Some C0_REG_SW
     else if f = 7 then Some C0_REG_SD
     else None)"

definition decode_c1 :: "32 word \<Rightarrow> 'w handler option" where
  "decode_c1 i =
    (let f = c_funct3 i in
     if f = 0 then Some (if CI_rd i \<noteq> 0 then C1_ADDI else NOP)
     else if f = 1 then Some (if CI_rd i \<noteq> 0 then C1_ADDIW else NOP)
     else if f = 2 then Some (if CI_rd i \<noteq> 0 then C1_LI else NOP)
     else if f = 3 then Some (if CI_rd i = 2 then C1_ADDI16SP else if CI_rd i \<noteq> 0 then C1_LUI else ILLEGAL)
     else if f = 4 then Some C1_ALU_OPS
     else if f = 5 then Some C1_JUMP
     else if f = 6 then Some C1_BEQZ
     else Some C1_BNEZ)"

definition decode_c2 :: "32 word \<Rightarrow> 'w handler option" where
  "decode_c2 i =
    (let f = c_funct3 i; topbit = bit i 12 in
     if f = 0 \<or> f = 1 \<or> f = 2 \<or> f = 3 then
       Some (if f = 0 \<and> CI_rd i \<noteq> 0 then C2_SLLI
             else if f = 1 then C2_FLDSP
             else if f = 2 \<and> CI_rd i \<noteq> 0 then C2_LWSP
             else if f = 3 then (if CI_rd i \<noteq> 0 then C2_LDSP else UNIMPLEMENTED)
             else if CI_rd i = 0 then NOP else UNIMPLEMENTED)
     else if f = 4 then
       Some (if \<not> topbit \<and> CR_rd i \<noteq> 0 \<and> CR_rs2 i = 0 then C2_JR
             else if topbit \<and> CR_rd i \<noteq> 0 \<and> CR_rs2 i = 0 then C2_JALR
             else if \<not> topbit \<and> CR_rd i \<noteq> 0 \<and> CR_rs2 i \<noteq> 0 then C2_MV
             else if CR_rd i \<noteq> 0 then C2_ADD
             else if topbit \<and> CR_rd i = 0 \<and> CR_rs2 i = 0 then C2_EBREAK
             else UNIMPLEMENTED)
     else if f = 5 then Some C2_FSDSP
     else if f = 6 then Some C2_SWSP
     else Some C2_SDSP)"

definition decode_compressed :: "32 word \<Rightarrow> 'w handler option" where
  "decode_compressed i =
    (let q = i AND 3 in
     if q = 0 then decode_c0 i else if q = 1 then decode_c1 i else decode_c2 i)"

section \<open>The module's instruction and the whole decoder\<close>

text \<open>A call of handler number \<open>imm\<close>, which the decoder has compared with the number of handlers.\<close>

definition unchecked_syscall_instruction :: "'w handler" where
  "unchecked_syscall_instruction E i c = env_custom_syscall E (unat (Itype_imm i)) c"

definition on_unimplemented_instruction :: "nat \<Rightarrow> 32 word \<Rightarrow> 'w handler" where
  "on_unimplemented_instruction n i =
    (if opcode i = 0x5B \<and> rs1 i = 0 \<and> rd i = 0 \<and> unat (Itype_imm i) < n
     then unchecked_syscall_instruction else UNIMPLEMENTED)"

definition decode :: "nat \<Rightarrow> 32 word \<Rightarrow> 'w handler" where
  "decode n i =
    (case (if is_long i then decode_long i else decode_compressed i) of
       Some h \<Rightarrow> h
     | None \<Rightarrow> if i = 0 then ILLEGAL else on_unimplemented_instruction n i)"

definition execute :: "'w Env \<Rightarrow> 32 word \<Rightarrow> 'w effect" where
  "execute E i c = decode (env_custom_count E) i E i c"

end
