(* ===== verification/Bytecodes.thy ===== *)
theory Bytecodes
  imports Decode
begin

text \<open>
  Bytecodes of the fast simulator: which bytecode an instruction gets (\<open>CPU::computed_index_for\<close> of
  \<open>decode_bytecodes.cpp\<close>) and the instruction formats that the rewriter packs
  (\<open>threaded_bytecodes.hpp\<close>), under \<open>src/src/libriscv/lib/libriscv\<close>.  The bytecode for live patching is left out: its only
  producer is \<open>create_fast_path_function\<close>, which no code of the module reaches.
\<close>

unbundle bit_operations_syntax

datatype (plugins only:) bytecode =
    RV32I_BC_INVALID | RV32I_BC_ADDI | RV32I_BC_LI | RV32I_BC_MV
  | RV32I_BC_SLLI | RV32I_BC_SLTI | RV32I_BC_SLTIU | RV32I_BC_XORI | RV32I_BC_SRLI | RV32I_BC_SRAI | RV32I_BC_ORI | RV32I_BC_ANDI
  | RV32I_BC_LUI | RV32I_BC_AUIPC
  | RV32I_BC_LDB | RV32I_BC_LDBU | RV32I_BC_LDH | RV32I_BC_LDHU | RV32I_BC_LDW
  | RV32I_BC_STB | RV32I_BC_STH | RV32I_BC_STW
  | RV32I_BC_LDWU | RV32I_BC_LDD | RV32I_BC_STD
  | RV32I_BC_BEQ | RV32I_BC_BNE | RV32I_BC_BLT | RV32I_BC_BGE | RV32I_BC_BLTU | RV32I_BC_BGEU | RV32I_BC_BEQ_FW | RV32I_BC_BNE_FW
  | RV32I_BC_JAL | RV32I_BC_JALR | RV32I_BC_FAST_JAL | RV32I_BC_FAST_CALL
  | RV32I_BC_OP_ADD | RV32I_BC_OP_SUB | RV32I_BC_OP_SLL | RV32I_BC_OP_SLT | RV32I_BC_OP_SLTU | RV32I_BC_OP_XOR
  | RV32I_BC_OP_SRL | RV32I_BC_OP_OR | RV32I_BC_OP_AND | RV32I_BC_OP_MUL | RV32I_BC_OP_DIV | RV32I_BC_OP_DIVU
  | RV32I_BC_OP_REM | RV32I_BC_OP_REMU | RV32I_BC_OP_SRA | RV32I_BC_OP_ZEXT_H | RV32I_BC_OP_SH1ADD | RV32I_BC_OP_SH2ADD | RV32I_BC_OP_SH3ADD
  | RV32I_BC_SEXT_B | RV32I_BC_SEXT_H | RV32I_BC_BSETI | RV32I_BC_BEXTI
  | RV64I_BC_ADDIW | RV64I_BC_SLLIW | RV64I_BC_SRLIW | RV64I_BC_SRAIW
  | RV64I_BC_OP_ADDW | RV64I_BC_OP_SUBW | RV64I_BC_OP_MULW | RV64I_BC_OP_ADD_UW | RV64I_BC_OP_SH1ADD_UW | RV64I_BC_OP_SH2ADD_UW
  | RV32C_BC_ADDI | RV32C_BC_LI | RV32C_BC_MV | RV32C_BC_SLLI | RV32C_BC_BEQZ | RV32C_BC_BNEZ | RV32C_BC_JMP | RV32C_BC_JR
  | RV32C_BC_JAL_ADDIW | RV32C_BC_JALR | RV32C_BC_LDD | RV32C_BC_STD | RV32C_BC_LDW | RV32C_BC_STW | RV32C_BC_SRLI | RV32C_BC_ANDI
  | RV32C_BC_ADD | RV32C_BC_XOR | RV32C_BC_OR | RV32C_BC_FUNCTION
  | RV32I_BC_SYSCALL | RV32I_BC_STOP
  | RV32F_BC_FLW | RV32F_BC_FLD | RV32F_BC_FSW | RV32F_BC_FSD | RV32F_BC_FADD | RV32F_BC_FSUB | RV32F_BC_FMUL | RV32F_BC_FDIV | RV32F_BC_FMADD
  | RV32I_BC_FUNCTION | RV32I_BC_FUNCBLOCK | RV32I_BC_SYSTEM

section \<open>Choosing a bytecode\<close>

definition computed_c0 :: "32 word \<Rightarrow> bytecode" where
  "computed_c0 i =
    (let f = c_funct3 i in
     if f = 0 then (if half0 i \<noteq> 0 then RV32C_BC_ADDI else RV32I_BC_INVALID)
     else if f = 2 then RV32C_BC_LDW
     else if f = 6 then RV32C_BC_STW
     else if f = 7 then RV32C_BC_STD
     else RV32C_BC_FUNCTION)"

definition computed_c1_alu :: "32 word \<Rightarrow> bytecode" where
  "computed_c1_alu i =
    (let f = CA_funct6 i AND 3; op = CA_funct2 i OR (CA_funct6 i AND 4) in
     if f = 0 then RV32C_BC_SRLI
     else if f = 1 then RV32C_BC_FUNCTION
     else if f = 2 then RV32C_BC_ANDI
     else if op = 1 then RV32C_BC_XOR
     else if op = 2 then RV32C_BC_OR
     else RV32C_BC_FUNCTION)"

definition computed_c1 :: "32 word \<Rightarrow> bytecode" where
  "computed_c1 i =
    (let f = c_funct3 i in
     if f = 0 then (if CI_rd i \<noteq> 0 then RV32C_BC_ADDI else RV32C_BC_FUNCTION)
     else if f = 2 then (if CI_rd i \<noteq> 0 then RV32C_BC_LI else RV32C_BC_FUNCTION)
     else if f = 3 then (if CI_rd i = 2 then RV32C_BC_ADDI else RV32C_BC_FUNCTION)
     else if f = 1 then RV32C_BC_JAL_ADDIW
     else if f = 5 then RV32C_BC_JMP
     else if f = 6 then RV32C_BC_BEQZ
     else if f = 7 then RV32C_BC_BNEZ
     else computed_c1_alu i)"

definition computed_c2 :: "32 word \<Rightarrow> bytecode" where
  "computed_c2 i =
    (let f = c_funct3 i; topbit = bit i 12 in
     if f = 0 \<or> f = 1 \<or> f = 2 \<or> f = 3 then
       (if f = 0 \<and> CI_rd i \<noteq> 0 then RV32C_BC_SLLI
        else if f = 1 then RV32C_BC_FUNCTION
        else if f = 2 \<and> CI_rd i \<noteq> 0 then RV32C_BC_LDW
        else if f = 3 \<and> CI_rd i \<noteq> 0 then RV32C_BC_LDD
        else RV32C_BC_FUNCTION)
     else if f = 4 then
       (if \<not> topbit \<and> CR_rd i \<noteq> 0 \<and> CR_rs2 i = 0 then RV32C_BC_JR
        else if topbit \<and> CR_rd i \<noteq> 0 \<and> CR_rs2 i = 0 then RV32C_BC_JALR
        else if \<not> topbit \<and> CR_rd i \<noteq> 0 \<and> CR_rs2 i \<noteq> 0 then RV32C_BC_MV
        else if CR_rd i \<noteq> 0 then RV32C_BC_ADD
        else RV32C_BC_FUNCTION)
     else if f = 6 then RV32C_BC_STW
     else if f = 7 then RV32C_BC_STD
     else RV32C_BC_FUNCTION)"

definition computed_load :: "32 word \<Rightarrow> bytecode" where
  "computed_load i =
    (if rd i = 0 then RV32I_BC_FUNCTION
     else if funct3 i = 0 then RV32I_BC_LDB else if funct3 i = 1 then RV32I_BC_LDH
     else if funct3 i = 2 then RV32I_BC_LDW else if funct3 i = 3 then RV32I_BC_LDD
     else if funct3 i = 4 then RV32I_BC_LDBU else if funct3 i = 5 then RV32I_BC_LDHU
     else if funct3 i = 6 then RV32I_BC_LDWU else RV32I_BC_INVALID)"

definition computed_store :: "32 word \<Rightarrow> bytecode" where
  "computed_store i =
    (if funct3 i = 0 then RV32I_BC_STB else if funct3 i = 1 then RV32I_BC_STH
     else if funct3 i = 2 then RV32I_BC_STW else if funct3 i = 3 then RV32I_BC_STD else RV32I_BC_INVALID)"

definition computed_branch :: "32 word \<Rightarrow> bytecode" where
  "computed_branch i =
    (if funct3 i = 0 then RV32I_BC_BEQ else if funct3 i = 1 then RV32I_BC_BNE
     else if funct3 i = 4 then RV32I_BC_BLT else if funct3 i = 5 then RV32I_BC_BGE
     else if funct3 i = 6 then RV32I_BC_BLTU else if funct3 i = 7 then RV32I_BC_BGEU else RV32I_BC_INVALID)"

definition computed_op_imm :: "32 word \<Rightarrow> bytecode" where
  "computed_op_imm i =
    (if rd i = 0 then RV32I_BC_FUNCTION
     else if funct3 i = 0 then
       (if rs1 i = 0 then RV32I_BC_LI else if Itype_signed_imm i = 0 then RV32I_BC_MV else RV32I_BC_ADDI)
     else if funct3 i = 1 then
       (if high_bits i = 0 then RV32I_BC_SLLI
        else if Itype_imm i = 0x604 then RV32I_BC_SEXT_B
        else if Itype_imm i = 0x605 then RV32I_BC_SEXT_H
        else if high_bits i = 0x280 then RV32I_BC_BSETI
        else RV32I_BC_FUNCTION)
     else if funct3 i = 2 then RV32I_BC_SLTI
     else if funct3 i = 3 then RV32I_BC_SLTIU
     else if funct3 i = 4 then RV32I_BC_XORI
     else if funct3 i = 5 then
       (if high_bits i = 0 then RV32I_BC_SRLI
        else if is_srai i then RV32I_BC_SRAI
        else if high_bits i = 0x480 then RV32I_BC_BEXTI
        else RV32I_BC_FUNCTION)
     else if funct3 i = 6 then RV32I_BC_ORI
     else RV32I_BC_ANDI)"

definition computed_op :: "32 word \<Rightarrow> bytecode" where
  "computed_op i =
    (let code = jumptable_friendly_op i in
     if rd i = 0 then RV32I_BC_FUNCTION
     else if code = 0x0 then RV32I_BC_OP_ADD else if code = 0x200 then RV32I_BC_OP_SUB
     else if code = 0x1 then RV32I_BC_OP_SLL else if code = 0x2 then RV32I_BC_OP_SLT
     else if code = 0x3 then RV32I_BC_OP_SLTU else if code = 0x4 then RV32I_BC_OP_XOR
     else if code = 0x5 then RV32I_BC_OP_SRL else if code = 0x6 then RV32I_BC_OP_OR
     else if code = 0x7 then RV32I_BC_OP_AND else if code = 0x10 then RV32I_BC_OP_MUL
     else if code = 0x14 then RV32I_BC_OP_DIV else if code = 0x15 then RV32I_BC_OP_DIVU
     else if code = 0x16 then RV32I_BC_OP_REM else if code = 0x17 then RV32I_BC_OP_REMU
     else if code = 0x44 then RV32I_BC_OP_ZEXT_H else if code = 0x102 then RV32I_BC_OP_SH1ADD
     else if code = 0x104 then RV32I_BC_OP_SH2ADD else if code = 0x106 then RV32I_BC_OP_SH3ADD
     else if code = 0x205 then RV32I_BC_OP_SRA
     else RV32I_BC_FUNCTION)"

definition computed_op32 :: "32 word \<Rightarrow> bytecode" where
  "computed_op32 i =
    (let code = jumptable_friendly_op i in
     if code = 0x0 then RV64I_BC_OP_ADDW else if code = 0x200 then RV64I_BC_OP_SUBW
     else if code = 0x10 then RV64I_BC_OP_MULW else if code = 0x40 then RV64I_BC_OP_ADD_UW
     else if code = 0x44 then RV32I_BC_OP_ZEXT_H else RV32I_BC_FUNCTION)"

definition computed_op_imm32 :: "32 word \<Rightarrow> bytecode" where
  "computed_op_imm32 i =
    (if rd i = 0 then RV32I_BC_FUNCTION
     else if funct3 i = 0 then RV64I_BC_ADDIW
     else if funct3 i = 1 \<and> high_bits i = 0 then RV64I_BC_SLLIW
     else if funct3 i = 5 \<and> high_bits i = 0 then RV64I_BC_SRLIW
     else RV32I_BC_FUNCTION)"

definition computed_fpfunc :: "32 word \<Rightarrow> bytecode" where
  "computed_fpfunc i =
    (if funct2 i = 0 \<or> funct2 i = 1 then
       (if funct5 i = 0 then RV32F_BC_FADD else if funct5 i = 1 then RV32F_BC_FSUB
        else if funct5 i = 2 then RV32F_BC_FMUL else if funct5 i = 3 then RV32F_BC_FDIV
        else RV32I_BC_FUNCTION)
     else RV32I_BC_FUNCTION)"

definition computed_system :: "32 word \<Rightarrow> bytecode" where
  "computed_system i =
    (if funct3 i = 0 \<and> Itype_imm i = 0 then RV32I_BC_SYSCALL
     else if funct3 i = 0 \<and> (Itype_imm i = 0x105 \<or> Itype_imm i = 0x7FF) then RV32I_BC_STOP
     else RV32I_BC_SYSTEM)"

definition computed_long :: "32 word \<Rightarrow> bytecode" where
  "computed_long i =
    (let opc = opcode i in
     if opc = RV32I_LOAD then computed_load i
     else if opc = RV32I_STORE then computed_store i
     else if opc = RV32I_BRANCH then computed_branch i
     else if opc = RV32I_LUI then (if rd i = 0 then RV32I_BC_FUNCTION else RV32I_BC_LUI)
     else if opc = RV32I_AUIPC then (if rd i = 0 then RV32I_BC_FUNCTION else RV32I_BC_AUIPC)
     else if opc = RV32I_JAL then RV32I_BC_JAL
     else if opc = RV32I_JALR then RV32I_BC_JALR
     else if opc = RV32I_OP_IMM then computed_op_imm i
     else if opc = RV32I_OP then computed_op i
     else if opc = RV64I_OP32 then computed_op32 i
     else if opc = RV64I_OP_IMM32 then computed_op_imm32 i
     else if opc = RV32I_SYSTEM then computed_system i
     else if opc = RV32I_FENCE then RV32I_BC_FUNCTION
     else if opc = RV32F_LOAD then
       (if funct3 i = 2 then RV32F_BC_FLW else if funct3 i = 3 then RV32F_BC_FLD else RV32I_BC_INVALID)
     else if opc = RV32F_STORE then
       (if funct3 i = 2 then RV32F_BC_FSW else if funct3 i = 3 then RV32F_BC_FSD else RV32I_BC_INVALID)
     else if opc = RV32F_FMADD then RV32F_BC_FMADD
     else if opc = RV32F_FPFUNC then computed_fpfunc i
     else RV32I_BC_FUNCTION)"

definition computed_index_for :: "32 word \<Rightarrow> bytecode" where
  "computed_index_for i =
    (if instr_length i = 2 then
       (if i AND 3 = 0 then computed_c0 i else if i AND 3 = 1 then computed_c1 i else computed_c2 i)
     else computed_long i)"

section \<open>Packed instruction formats\<close>

text \<open>Four bytes, the first argument the highest; a field keeps the bits that fit.\<close>

definition pack4 :: "nat \<Rightarrow> nat \<Rightarrow> 32 word \<Rightarrow> 32 word" where
  "pack4 b3 b2 low = push_bit 24 (take_bit 8 (of_nat b3)) OR push_bit 16 (take_bit 8 (of_nat b2)) OR take_bit 16 low"

definition FasterItype :: "nat \<Rightarrow> nat \<Rightarrow> 32 word \<Rightarrow> 32 word" where
  "FasterItype s1 s2 imm = pack4 s1 s2 imm"

definition get_rs1 :: "32 word \<Rightarrow> nat" where "get_rs1 w = unat (field 24 8 w)"
definition get_rs2 :: "32 word \<Rightarrow> nat" where "get_rs2 w = unat (field 16 8 w)"

definition fi_unsigned_imm :: "32 word \<Rightarrow> nat" where
  "fi_unsigned_imm w = unat (field 0 16 w)"

definition fi_signed_imm :: "32 word \<Rightarrow> 32 word" where
  "fi_signed_imm w = scast (ucast w :: 16 word)"

definition FasterOpType :: "nat \<Rightarrow> nat \<Rightarrow> nat \<Rightarrow> 32 word" where
  "FasterOpType d s1 s2 = pack4 s1 s2 (of_nat d)"

definition fo_rd :: "32 word \<Rightarrow> nat" where "fo_rd w = unat (field 0 16 w)"

text \<open>In these formats some bytes are never set: they keep those of \<open>u\<close>.\<close>

definition FasterImmediate :: "32 word \<Rightarrow> nat \<Rightarrow> 32 word \<Rightarrow> 32 word" where
  "FasterImmediate u d imm = push_bit 16 (take_bit 16 imm) OR (u AND 0xFF00) OR take_bit 8 (of_nat d)"

definition fm_rd :: "32 word \<Rightarrow> nat" where "fm_rd w = unat (field 0 8 w)"

definition fm_signed_imm :: "32 word \<Rightarrow> 32 word" where
  "fm_signed_imm w = scast (ucast (drop_bit 16 w) :: 16 word)"

definition FasterMove :: "32 word \<Rightarrow> nat \<Rightarrow> nat \<Rightarrow> 32 word" where
  "FasterMove u d s1 = (u AND 0xFFFF0000) OR push_bit 8 (take_bit 8 (of_nat d)) OR take_bit 8 (of_nat s1)"

definition mv_rd :: "32 word \<Rightarrow> nat" where "mv_rd w = unat (field 8 8 w)"
definition mv_rs1 :: "32 word \<Rightarrow> nat" where "mv_rs1 w = unat (field 0 8 w)"

definition FasterJtype :: "nat \<Rightarrow> 32 word \<Rightarrow> 32 word" where
  "FasterJtype d offset = push_bit 24 (take_bit 8 (of_nat d)) OR take_bit 24 offset"

definition fj_rd :: "32 word \<Rightarrow> nat" where "fj_rd w = unat (field 24 8 w)"

definition fj_signed_imm :: "32 word \<Rightarrow> 32 word" where
  "fj_signed_imm w = signed_drop_bit 8 (push_bit 8 (field 0 24 w))"

definition fj_upper_imm :: "32 word \<Rightarrow> 32 word" where
  "fj_upper_imm w = push_bit 8 (field 0 24 w)"

definition FasterFloatType :: "nat \<Rightarrow> nat \<Rightarrow> nat \<Rightarrow> nat \<Rightarrow> 32 word" where
  "FasterFloatType func d s1 s2 = pack4 s1 s2 (push_bit 8 (take_bit 8 (of_nat d)) OR take_bit 8 (of_nat func))"

end
