(* ===== verification/Rewriter.thy ===== *)
theory Rewriter
  imports Bytecodes
begin

text \<open>
  Rewriting an instruction for its bytecode: \<open>DecodedExecuteSegment::threaded_rewrite\<close> of
  \<open>threaded_rewriter.cpp\<close>, with the bounds of the execute segment (\<open>decoded_exec_segment.hpp\<close>) and its
  decoder cache entries (\<open>decoder_cache.hpp\<close>), under \<open>src/src/libriscv/lib/libriscv\<close>.  The argument \<open>u\<close> stands for
  the bytes of a rewritten instruction that the code leaves unset; \<open>None\<close> is the exception for a bytecode that
  has no rewrite.
\<close>

unbundle bit_operations_syntax

record DecoderData =
  dd_bytecode :: bytecode
  dd_idxend :: nat
  dd_icount :: nat
  dd_instr :: "32 word"

record Segment =
  m_vaddr_begin :: "64 word"
  m_vaddr_end :: "64 word"
  seg_decoder :: "nat \<Rightarrow> DecoderData"

definition is_within :: "Segment \<Rightarrow> 64 word \<Rightarrow> nat \<Rightarrow> bool" where
  "is_within s addr len \<longleftrightarrow>
    unat addr + len < 2 ^ 64 \<and> m_vaddr_begin s \<le> addr \<and> unat addr + len \<le> unat (m_vaddr_end s)"

definition block_bytes :: "DecoderData \<Rightarrow> 64 word" where
  "block_bytes d = of_nat (dd_idxend d * 2)"

text \<open>The addition \<open>pc + imm\<close> of a branch, with the check of \<open>__builtin_add_overflow\<close>.\<close>

definition branch_overflow :: "64 word \<Rightarrow> 32 word \<Rightarrow> bool" where
  "branch_overflow pc imm \<longleftrightarrow> \<not> (0 \<le> uint pc + sint imm \<and> uint pc + sint imm < 2 ^ 64)"

definition rewrite_itype :: "32 word \<Rightarrow> 32 word \<Rightarrow> 32 word" where
  "rewrite_itype imm i = FasterItype (rd i) (rs1 i) imm"

definition rewrite_stype :: "32 word \<Rightarrow> 32 word" where
  "rewrite_stype i = FasterItype (rs1 i) (rs2 i) (Stype_signed_imm i)"

definition rewrite_optype :: "32 word \<Rightarrow> 32 word" where
  "rewrite_optype i = FasterOpType (rd i) (rs1 i) (rs2 i)"

definition rewrite_branch :: "Segment \<Rightarrow> bytecode \<Rightarrow> 64 word \<Rightarrow> 32 word \<Rightarrow> bytecode \<times> 32 word" where
  "rewrite_branch s bc pc i =
    (let imm = Btype_signed_imm i; addr = pc + sext imm in
     if \<not> is_within s addr 4 \<or> addr AND 1 \<noteq> 0 \<or> branch_overflow pc imm then (RV32I_BC_INVALID, i)
     else
       (if sint imm > 0 \<and> bc = RV32I_BC_BEQ then RV32I_BC_BEQ_FW
        else if sint imm > 0 \<and> bc = RV32I_BC_BNE then RV32I_BC_BNE_FW else bc,
        FasterItype (rs1 i) (rs2 i) imm))"

definition rewrite_jal :: "Segment \<Rightarrow> 64 word \<Rightarrow> 32 word \<Rightarrow> bytecode \<times> 32 word" where
  "rewrite_jal s pc i =
    (let addr = pc + sext (jump_offset i); diff = (ucast (addr - pc) :: 32 word) in
     if is_within s addr 4 \<and> addr AND 1 = 0 then
       (if \<not> is_within s (pc + sext diff) 4 then (RV32I_BC_INVALID, i)
        else if rd i = 0 then (RV32I_BC_FAST_JAL, diff)
        else if rd i = REG_RA then (RV32I_BC_FAST_CALL, diff)
        else (RV32I_BC_JAL, FasterJtype (rd i) (jump_offset i)))
     else (RV32I_BC_INVALID, i))"

definition rewrite_c_addi :: "32 word \<Rightarrow> 32 word" where
  "rewrite_c_addi i =
    (if c_opcode i = 0x0000 then FasterItype (srd i + 8) REG_SP (CIW_offset i)
     else if c_opcode i = 0x6001 then FasterItype REG_SP REG_SP (CI16_signed_imm i)
     else FasterItype (CI_rd i) (CI_rd i) (CI_signed_imm i))"

definition rewrite_c_branch :: "Segment \<Rightarrow> bytecode \<Rightarrow> 64 word \<Rightarrow> 32 word \<Rightarrow> bytecode \<times> 32 word" where
  "rewrite_c_branch s bc pc i =
    (let imm = CB_signed_imm i; addr = pc + sext imm in
     if \<not> is_within s addr 2 \<or> addr AND 1 \<noteq> 0 then (RV32I_BC_INVALID, i)
     else (bc, FasterItype (srs1 i + 8) 0 imm))"

definition rewrite_c_jmp :: "Segment \<Rightarrow> 64 word \<Rightarrow> 32 word \<Rightarrow> bytecode \<times> 32 word" where
  "rewrite_c_jmp s pc i =
    (let imm = CJ_signed_imm i; addr = pc + sext imm in
     if \<not> is_within s addr 4 \<or> addr AND 1 \<noteq> 0 then (RV32I_BC_INVALID, i) else (RV32C_BC_JMP, imm))"

definition rewrite_c_ldd :: "32 word \<Rightarrow> 32 word" where
  "rewrite_c_ldd i =
    (if i AND 3 = 0 then FasterItype (srs1 i + 8) (srs2 i + 8) (CSD_offset8 i)
     else FasterItype (CI_rd i) REG_SP (CIFLD_offset i))"

definition rewrite_c_std :: "32 word \<Rightarrow> 32 word" where
  "rewrite_c_std i =
    (if i AND 3 = 0 then FasterItype (srs1 i + 8) (srs2 i + 8) (CSD_offset8 i)
     else FasterItype REG_SP (CR_rs2 i) (CSFSD_offset i))"

definition rewrite_c_ldw :: "32 word \<Rightarrow> 32 word" where
  "rewrite_c_ldw i =
    (if i AND 3 = 0 then FasterItype (srd i + 8) (srs1 i + 8) (CL_offset i)
     else FasterItype (CI_rd i) REG_SP (CI2_offset i))"

definition rewrite_c_stw :: "32 word \<Rightarrow> 32 word" where
  "rewrite_c_stw i =
    (if i AND 3 = 0 then FasterItype (srs1 i + 8) (srs2 i + 8) (CS_offset4 i)
     else FasterItype REG_SP (CR_rs2 i) (CSS_offset 4 i))"

text \<open>The groups of bytecodes that share a rewrite.\<close>

definition unchanged_bytecodes :: "bytecode list" where
  "unchanged_bytecodes =
    [RV32I_BC_INVALID, RV32I_BC_FUNCTION, RV32I_BC_FUNCBLOCK, RV32I_BC_STOP, RV32I_BC_SYSTEM, RV32F_BC_FMADD,
     RV32C_BC_FUNCTION, RV32I_BC_SYSCALL]"

definition shift_bytecodes :: "bytecode list" where
  "shift_bytecodes = [RV32I_BC_SLLI, RV32I_BC_SRLI, RV32I_BC_SRAI, RV32I_BC_BSETI, RV32I_BC_BEXTI]"

definition shift32_bytecodes :: "bytecode list" where
  "shift32_bytecodes = [RV64I_BC_SLLIW, RV64I_BC_SRLIW, RV64I_BC_SRAIW]"

definition itype_bytecodes :: "bytecode list" where
  "itype_bytecodes =
    [RV64I_BC_ADDIW, RV32I_BC_SEXT_B, RV32I_BC_SEXT_H, RV32I_BC_ADDI, RV32I_BC_SLTI, RV32I_BC_SLTIU, RV32I_BC_XORI,
     RV32I_BC_ORI, RV32I_BC_ANDI, RV32I_BC_LDWU, RV32I_BC_LDD, RV32I_BC_LDB, RV32I_BC_LDBU, RV32I_BC_LDH, RV32I_BC_LDHU,
     RV32I_BC_LDW, RV32F_BC_FLW, RV32F_BC_FLD, RV32I_BC_JALR]"

definition stype_bytecodes :: "bytecode list" where
  "stype_bytecodes = [RV32I_BC_STD, RV32I_BC_STB, RV32I_BC_STH, RV32I_BC_STW, RV32F_BC_FSW, RV32F_BC_FSD]"

definition branch_bytecodes :: "bytecode list" where
  "branch_bytecodes = [RV32I_BC_BEQ, RV32I_BC_BNE, RV32I_BC_BLT, RV32I_BC_BGE, RV32I_BC_BLTU, RV32I_BC_BGEU]"

definition op_bytecodes :: "bytecode list" where
  "op_bytecodes =
    [RV64I_BC_OP_ADDW, RV64I_BC_OP_SUBW, RV64I_BC_OP_MULW, RV64I_BC_OP_ADD_UW, RV64I_BC_OP_SH1ADD_UW, RV64I_BC_OP_SH2ADD_UW,
     RV32I_BC_OP_ADD, RV32I_BC_OP_SUB, RV32I_BC_OP_SLL, RV32I_BC_OP_SLT, RV32I_BC_OP_SLTU, RV32I_BC_OP_XOR, RV32I_BC_OP_SRL,
     RV32I_BC_OP_SRA, RV32I_BC_OP_OR, RV32I_BC_OP_AND, RV32I_BC_OP_MUL, RV32I_BC_OP_DIV, RV32I_BC_OP_DIVU, RV32I_BC_OP_REM,
     RV32I_BC_OP_REMU, RV32I_BC_OP_ZEXT_H, RV32I_BC_OP_SH1ADD, RV32I_BC_OP_SH2ADD, RV32I_BC_OP_SH3ADD]"

definition float_bytecodes :: "bytecode list" where
  "float_bytecodes = [RV32F_BC_FADD, RV32F_BC_FSUB, RV32F_BC_FMUL, RV32F_BC_FDIV]"

lemmas bytecode_groups =
  unchanged_bytecodes_def shift_bytecodes_def shift32_bytecodes_def itype_bytecodes_def stype_bytecodes_def
  branch_bytecodes_def op_bytecodes_def float_bytecodes_def

definition rewrite_long :: "32 word \<Rightarrow> Segment \<Rightarrow> bytecode \<Rightarrow> 64 word \<Rightarrow> 32 word \<Rightarrow> (bytecode \<times> 32 word) option" where
  "rewrite_long u s bc pc i =
    (if bc \<in> set unchanged_bytecodes then Some (bc, i)
     else if bc = RV32I_BC_LUI \<or> bc = RV32I_BC_AUIPC then Some (bc, FasterJtype (rd i) (push_bit 4 (field 12 20 i)))
     else if bc = RV32I_BC_MV then Some (bc, FasterMove u (rd i) (rs1 i))
     else if bc = RV32I_BC_LI then Some (bc, FasterImmediate u (rd i) (Itype_signed_imm i))
     else if bc \<in> set shift32_bytecodes then Some (bc, rewrite_itype (Itype_imm i AND 31) i)
     else if bc \<in> set shift_bytecodes then Some (bc, rewrite_itype (Itype_imm i AND 63) i)
     else if bc \<in> set itype_bytecodes then Some (bc, rewrite_itype (Itype_signed_imm i) i)
     else if bc \<in> set stype_bytecodes then Some (bc, rewrite_stype i)
     else if bc \<in> set branch_bytecodes then Some (rewrite_branch s bc pc i)
     else if bc \<in> set op_bytecodes then Some (bc, rewrite_optype i)
     else if bc = RV32I_BC_JAL then Some (rewrite_jal s pc i)
     else if bc \<in> set float_bytecodes then Some (bc, FasterFloatType (unat (funct2 i)) (rd i) (rs1 i) (rs2 i))
     else None)"

definition rewrite_compressed :: "32 word \<Rightarrow> Segment \<Rightarrow> bytecode \<Rightarrow> 64 word \<Rightarrow> 32 word \<Rightarrow> (bytecode \<times> 32 word) option" where
  "rewrite_compressed u s bc pc i =
    (if bc = RV32C_BC_ADDI then Some (RV32C_BC_ADDI, rewrite_c_addi i)
     else if bc = RV32C_BC_LI then Some (RV32C_BC_ADDI, FasterItype (CI_rd i) 0 (CI_signed_imm i))
     else if bc = RV32C_BC_MV then Some (RV32C_BC_MV, FasterMove u (CR_rd i) (CR_rs2 i))
     else if bc = RV32C_BC_SLLI then Some (RV32C_BC_SLLI, FasterItype (CI_rd i) 0 (CI_shift64_imm i))
     else if bc = RV32C_BC_SRLI then Some (bc, FasterItype (CA_srd i + 8) (get_rs2 u) (CAB_shift64_imm i))
     else if bc = RV32C_BC_ANDI then Some (bc, FasterItype (CA_srd i + 8) (get_rs2 u) (CAB_signed_imm i))
     else if bc = RV32C_BC_ADD then Some (bc, FasterItype (CR_rd i) (CR_rs2 i) u)
     else if bc = RV32C_BC_XOR \<or> bc = RV32C_BC_OR then Some (bc, FasterItype (CA_srd i + 8) (srs2 i + 8) u)
     else if bc = RV32C_BC_BEQZ \<or> bc = RV32C_BC_BNEZ then Some (rewrite_c_branch s bc pc i)
     else if bc = RV32C_BC_JAL_ADDIW then Some (bc, FasterItype (CI_rd i) (CI_rd i) (CI_signed_imm i))
     else if bc = RV32C_BC_JMP then Some (rewrite_c_jmp s pc i)
     else if bc = RV32C_BC_JALR \<or> bc = RV32C_BC_JR then Some (bc, of_nat (CR_rd i))
     else if bc = RV32C_BC_LDD then Some (bc, rewrite_c_ldd i)
     else if bc = RV32C_BC_STD then Some (bc, rewrite_c_std i)
     else if bc = RV32C_BC_LDW then Some (bc, rewrite_c_ldw i)
     else if bc = RV32C_BC_STW then Some (bc, rewrite_c_stw i)
     else None)"

definition threaded_rewrite :: "32 word \<Rightarrow> Segment \<Rightarrow> bytecode \<Rightarrow> 64 word \<Rightarrow> 32 word \<Rightarrow> (bytecode \<times> 32 word) option" where
  "threaded_rewrite u s bc pc i =
    (case rewrite_long u s bc pc i of Some r \<Rightarrow> Some r | None \<Rightarrow> rewrite_compressed u s bc pc i)"

end
