(* ===== verification/Bytecode_Impl.thy ===== *)
theory Bytecode_Impl
  imports Rewriter
begin

text \<open>
  The bytecode handlers (\<open>bytecode_impl.cpp\<close> under \<open>src/src/libriscv/lib/libriscv\<close>), one definition per handler.
  A handler gets the program counter of the dispatcher, which is that of the last instruction of the block, and
  its decoder entry; it answers how the dispatcher goes on, by the macro that ends it in the source.
  The floating-point arithmetic of the bytecodes is the host's and an argument, like that of the reference handlers.
\<close>

unbundle bit_operations_syntax

datatype flow =
    NEXT_INSTR
  | NEXT_C_INSTR
  | NEXT_BLOCK "64 word" bool
  | PERFORM_BRANCH "64 word"
  | OVERFLOW_CHECKED_JUMP "64 word"

type_synonym 'w bc_handler = "'w Env \<Rightarrow> 64 word \<Rightarrow> DecoderData \<Rightarrow> 'w CPU \<Rightarrow> (flow, 'w CPU) thrown"

definition go :: "flow \<Rightarrow> 'w CPU \<Rightarrow> (flow, 'w CPU) thrown" where
  "go fl c = (Inr fl, c)"

definition then_go :: "flow \<Rightarrow> (unit, 'w CPU) thrown \<Rightarrow> (flow, 'w CPU) thrown" where
  "then_go fl r = (case r of (Inl e, c) \<Rightarrow> (Inl e, c) | (Inr _, c) \<Rightarrow> (Inr fl, c))"

text \<open>The shapes that handlers share: a result from a register and the immediate, \<open>OP_INSTR\<close>, loads and stores.\<close>

definition imm_instr :: "flow \<Rightarrow> (64 word \<Rightarrow> 32 word \<Rightarrow> 64 word) \<Rightarrow> 'w bc_handler" where
  "imm_instr fl f E pc d c =
    (let w = dd_instr d in go fl (set_reg (get_rs1 w) (f (reg c (get_rs2 w)) (fi_signed_imm w)) c))"

definition shift_instr :: "flow \<Rightarrow> (64 word \<Rightarrow> nat \<Rightarrow> 64 word) \<Rightarrow> 'w bc_handler" where
  "shift_instr fl f E pc d c =
    (let w = dd_instr d in go fl (set_reg (get_rs1 w) (f (reg c (get_rs2 w)) (fi_unsigned_imm w)) c))"

definition OP_INSTR :: "(64 word \<Rightarrow> 64 word \<Rightarrow> 64 word \<Rightarrow> 64 word) \<Rightarrow> 'w bc_handler" where
  "OP_INSTR f E pc d c =
    (let w = dd_instr d in
     go NEXT_INSTR (set_reg (fo_rd w) (f (reg c (fo_rd w)) (reg c (get_rs1 w)) (reg c (get_rs2 w))) c))"

definition load_instr :: "flow \<Rightarrow> nat \<Rightarrow> (nat \<Rightarrow> 64 word) \<Rightarrow> 'w bc_handler" where
  "load_instr fl n conv E pc d c =
    (let w = dd_instr d in
     then_go fl (load_into E n conv (get_rs1 w) (reg c (get_rs2 w) + sext (fi_signed_imm w)) c))"

definition store_instr :: "flow \<Rightarrow> nat \<Rightarrow> 'w bc_handler" where
  "store_instr fl n E pc d c =
    (let w = dd_instr d in
     then_go fl (cpu_write E n (reg c (get_rs1 w) + sext (fi_signed_imm w)) (reg c (get_rs2 w)) c))"

definition branch_instr :: "(64 word \<Rightarrow> 64 word \<Rightarrow> bool) \<Rightarrow> 'w bc_handler" where
  "branch_instr p E pc d c =
    (let w = dd_instr d in
     if p (reg c (get_rs1 w)) (reg c (get_rs2 w)) then go (PERFORM_BRANCH (sext (fi_signed_imm w))) c
     else go (NEXT_BLOCK 4 False) c)"

definition forward_branch_instr :: "(64 word \<Rightarrow> 64 word \<Rightarrow> bool) \<Rightarrow> 'w bc_handler" where
  "forward_branch_instr p E pc d c =
    (let w = dd_instr d in
     if p (reg c (get_rs1 w)) (reg c (get_rs2 w)) then go (NEXT_BLOCK (sext (fi_signed_imm w)) False) c
     else go (NEXT_BLOCK 4 False) c)"

section \<open>Popular instructions\<close>

definition rv32c_addi :: "'w bc_handler" where
  "rv32c_addi = imm_instr NEXT_C_INSTR (\<lambda>a imm. a + sext imm)"

definition rv32c_mv :: "'w bc_handler" where
  "rv32c_mv E pc d c = (let w = dd_instr d in go NEXT_C_INSTR (set_reg (mv_rd w) (reg c (mv_rs1 w)) c))"

definition rv32c_slli :: "'w bc_handler" where
  "rv32c_slli E pc d c =
    (let w = dd_instr d in go NEXT_C_INSTR (set_reg (get_rs1 w) (push_bit (fi_unsigned_imm w) (reg c (get_rs1 w))) c))"

definition rv32i_addi :: "'w bc_handler" where
  "rv32i_addi = imm_instr NEXT_INSTR (\<lambda>a imm. a + sext imm)"

definition rv32i_li :: "'w bc_handler" where
  "rv32i_li E pc d c = (let w = dd_instr d in go NEXT_INSTR (set_reg (fm_rd w) (sext (fm_signed_imm w)) c))"

definition rv32i_mv :: "'w bc_handler" where
  "rv32i_mv E pc d c = (let w = dd_instr d in go NEXT_INSTR (set_reg (mv_rd w) (reg c (mv_rs1 w)) c))"

definition rv64i_addiw :: "'w bc_handler" where
  "rv64i_addiw = imm_instr NEXT_INSTR (\<lambda>a imm. sext (lo32 a + imm))"

definition rv32i_fast_jal :: "'w bc_handler" where
  "rv32i_fast_jal E pc d c = go (NEXT_BLOCK (sext (dd_instr d)) True) c"

definition rv32i_fast_call :: "'w bc_handler" where
  "rv32i_fast_call E pc d c = go (NEXT_BLOCK (sext (dd_instr d)) True) (set_reg REG_RA (pc + 4) c)"

definition rv32i_slli :: "'w bc_handler" where
  "rv32i_slli = shift_instr NEXT_INSTR (\<lambda>a n. push_bit n a)"

definition rv32i_slti :: "'w bc_handler" where
  "rv32i_slti = imm_instr NEXT_INSTR (\<lambda>a imm. of_bool (sint a < sint imm))"

definition rv32i_sltiu :: "'w bc_handler" where
  "rv32i_sltiu = imm_instr NEXT_INSTR (\<lambda>a imm. of_bool (a < sext imm))"

definition rv32i_xori :: "'w bc_handler" where
  "rv32i_xori = imm_instr NEXT_INSTR (\<lambda>a imm. a XOR sext imm)"

definition rv32i_srli :: "'w bc_handler" where
  "rv32i_srli = shift_instr NEXT_INSTR (\<lambda>a n. drop_bit n a)"

definition rv32i_srai :: "'w bc_handler" where
  "rv32i_srai = shift_instr NEXT_INSTR (\<lambda>a n. signed_drop_bit n a)"

definition rv32i_ori :: "'w bc_handler" where
  "rv32i_ori = imm_instr NEXT_INSTR (\<lambda>a imm. a OR sext imm)"

definition rv32i_andi :: "'w bc_handler" where
  "rv32i_andi = imm_instr NEXT_INSTR (\<lambda>a imm. a AND sext imm)"

section \<open>Branches and jumps\<close>

definition rv32c_bnez :: "'w bc_handler" where
  "rv32c_bnez E pc d c =
    (let w = dd_instr d in
     if reg c (get_rs1 w) \<noteq> 0 then go (PERFORM_BRANCH (sext (fi_signed_imm w))) c else go (NEXT_BLOCK 2 False) c)"

definition rv32c_beqz :: "'w bc_handler" where
  "rv32c_beqz E pc d c =
    (let w = dd_instr d in
     if reg c (get_rs1 w) = 0 then go (PERFORM_BRANCH (sext (fi_signed_imm w))) c else go (NEXT_BLOCK 2 False) c)"

definition rv32c_jmp :: "'w bc_handler" where
  "rv32c_jmp E pc d c = go (PERFORM_BRANCH (sext (fi_signed_imm (dd_instr d)))) c"

definition rv32c_jal_addiw :: "'w bc_handler" where
  "rv32c_jal_addiw E pc d c =
    (let w = dd_instr d in
     go NEXT_C_INSTR (set_reg (get_rs1 w) (sext (lo32 (reg c (get_rs1 w)) + fi_signed_imm w)) c))"

definition rv32c_jr :: "'w bc_handler" where
  "rv32c_jr E pc d c = go (OVERFLOW_CHECKED_JUMP (reg c (unat (dd_instr d)) AND NOT 1)) c"

definition rv32c_jalr :: "'w bc_handler" where
  "rv32c_jalr E pc d c =
    (let c1 = set_reg REG_RA (pc + 2) c in go (OVERFLOW_CHECKED_JUMP (reg c1 (unat (dd_instr d)) AND NOT 1)) c1)"

definition rv32i_jal :: "'w bc_handler" where
  "rv32i_jal E pc d c =
    (let w = dd_instr d in go (NEXT_BLOCK (sext (fj_signed_imm w)) True) (set_reg (fj_rd w) (pc + 4) c))"

definition rv32i_beq :: "'w bc_handler" where
  "rv32i_beq = branch_instr (\<lambda>a b. a = b)"

definition rv32i_bne :: "'w bc_handler" where
  "rv32i_bne = branch_instr (\<lambda>a b. a \<noteq> b)"

definition rv32i_beq_fw :: "'w bc_handler" where
  "rv32i_beq_fw = forward_branch_instr (\<lambda>a b. a = b)"

definition rv32i_bne_fw :: "'w bc_handler" where
  "rv32i_bne_fw = forward_branch_instr (\<lambda>a b. a \<noteq> b)"

definition rv32i_blt :: "'w bc_handler" where
  "rv32i_blt = branch_instr (\<lambda>a b. sint a < sint b)"

definition rv32i_bge :: "'w bc_handler" where
  "rv32i_bge = branch_instr (\<lambda>a b. sint a \<ge> sint b)"

definition rv32i_bltu :: "'w bc_handler" where
  "rv32i_bltu = branch_instr (\<lambda>a b. a < b)"

definition rv32i_bgeu :: "'w bc_handler" where
  "rv32i_bgeu = branch_instr (\<lambda>a b. a \<ge> b)"

section \<open>Loads and stores\<close>

definition rv32i_ldw :: "'w bc_handler" where
  "rv32i_ldw = load_instr NEXT_INSTR 4 sx32"

definition rv32i_ldd :: "'w bc_handler" where
  "rv32i_ldd = load_instr NEXT_INSTR 8 zx"

definition rv32i_ldb :: "'w bc_handler" where
  "rv32i_ldb = load_instr NEXT_INSTR 1 sx8"

definition rv32i_ldbu :: "'w bc_handler" where
  "rv32i_ldbu = load_instr NEXT_INSTR 1 zx"

definition rv32i_ldh :: "'w bc_handler" where
  "rv32i_ldh = load_instr NEXT_INSTR 2 sx16"

definition rv32i_ldhu :: "'w bc_handler" where
  "rv32i_ldhu = load_instr NEXT_INSTR 2 zx"

definition rv32i_ldwu :: "'w bc_handler" where
  "rv32i_ldwu = load_instr NEXT_INSTR 4 zx"

definition rv32i_stw :: "'w bc_handler" where
  "rv32i_stw = store_instr NEXT_INSTR 4"

definition rv32i_std :: "'w bc_handler" where
  "rv32i_std = store_instr NEXT_INSTR 8"

definition rv32i_stb :: "'w bc_handler" where
  "rv32i_stb = store_instr NEXT_INSTR 1"

definition rv32i_sth :: "'w bc_handler" where
  "rv32i_sth = store_instr NEXT_INSTR 2"

definition rv32c_ldd :: "'w bc_handler" where
  "rv32c_ldd = load_instr NEXT_C_INSTR 8 zx"

definition rv32c_ldw :: "'w bc_handler" where
  "rv32c_ldw = load_instr NEXT_C_INSTR 4 sx32"

definition rv32c_std :: "'w bc_handler" where
  "rv32c_std = store_instr NEXT_C_INSTR 8"

definition rv32c_stw :: "'w bc_handler" where
  "rv32c_stw = store_instr NEXT_C_INSTR 4"

definition rv32i_flw :: "'w bc_handler" where
  "rv32i_flw E pc d c =
    (let w = dd_instr d in
     then_go NEXT_INSTR (load_float E 4 (get_rs1 w) (reg c (get_rs2 w) + sext (fi_signed_imm w)) c))"

definition rv32i_fld :: "'w bc_handler" where
  "rv32i_fld E pc d c =
    (let w = dd_instr d in
     then_go NEXT_INSTR (load_float E 8 (get_rs1 w) (reg c (get_rs2 w) + sext (fi_signed_imm w)) c))"

definition rv32i_fsw :: "'w bc_handler" where
  "rv32i_fsw E pc d c =
    (let w = dd_instr d in
     then_go NEXT_INSTR (cpu_write E 4 (reg c (get_rs1 w) + sext (fi_signed_imm w)) (cpu_fl c (get_rs2 w)) c))"

definition rv32i_fsd :: "'w bc_handler" where
  "rv32i_fsd E pc d c =
    (let w = dd_instr d in
     then_go NEXT_INSTR (cpu_write E 8 (reg c (get_rs1 w) + sext (fi_signed_imm w)) (cpu_fl c (get_rs2 w)) c))"

section \<open>Upper immediates\<close>

definition rv32i_auipc :: "'w bc_handler" where
  "rv32i_auipc E pc d c =
    (let w = dd_instr d in go NEXT_INSTR (set_reg (fj_rd w) (pc - block_bytes d + sext (fj_upper_imm w)) c))"

definition rv32i_lui :: "'w bc_handler" where
  "rv32i_lui E pc d c = (let w = dd_instr d in go NEXT_INSTR (set_reg (fj_rd w) (sext (fj_upper_imm w)) c))"

section \<open>Register-register instructions\<close>

definition rv32i_op_add :: "'w bc_handler" where
  "rv32i_op_add = OP_INSTR (\<lambda>dst a b. a + b)"

definition rv32i_op_sub :: "'w bc_handler" where
  "rv32i_op_sub = OP_INSTR (\<lambda>dst a b. a - b)"

definition rv32i_op_sll :: "'w bc_handler" where
  "rv32i_op_sll = OP_INSTR (\<lambda>dst a b. push_bit (unat (b AND 63)) a)"

definition rv32i_op_slt :: "'w bc_handler" where
  "rv32i_op_slt = OP_INSTR (\<lambda>dst a b. of_bool (sint a < sint b))"

definition rv32i_op_sltu :: "'w bc_handler" where
  "rv32i_op_sltu = OP_INSTR (\<lambda>dst a b. of_bool (a < b))"

definition rv32i_op_xor :: "'w bc_handler" where
  "rv32i_op_xor = OP_INSTR (\<lambda>dst a b. a XOR b)"

definition rv32i_op_srl :: "'w bc_handler" where
  "rv32i_op_srl = OP_INSTR (\<lambda>dst a b. drop_bit (unat (b AND 63)) a)"

definition rv32i_op_or :: "'w bc_handler" where
  "rv32i_op_or = OP_INSTR (\<lambda>dst a b. a OR b)"

definition rv32i_op_and :: "'w bc_handler" where
  "rv32i_op_and = OP_INSTR (\<lambda>dst a b. a AND b)"

definition rv32i_op_mul :: "'w bc_handler" where
  "rv32i_op_mul = OP_INSTR (\<lambda>dst a b. word_of_int (sint a * sint b))"

definition rv32i_op_sh1add :: "'w bc_handler" where
  "rv32i_op_sh1add = OP_INSTR (\<lambda>dst a b. b + push_bit 1 a)"

definition rv32i_op_sh2add :: "'w bc_handler" where
  "rv32i_op_sh2add = OP_INSTR (\<lambda>dst a b. b + push_bit 2 a)"

definition rv32i_op_sh3add :: "'w bc_handler" where
  "rv32i_op_sh3add = OP_INSTR (\<lambda>dst a b. b + push_bit 3 a)"

definition rv32i_op_sra :: "'w bc_handler" where
  "rv32i_op_sra = OP_INSTR (\<lambda>dst a b. signed_drop_bit (unat (b AND 63)) a)"

definition rv32i_op_zext_h :: "'w bc_handler" where
  "rv32i_op_zext_h = OP_INSTR (\<lambda>dst a b. ucast (ucast a :: 16 word))"

definition rv64i_op_addw :: "'w bc_handler" where
  "rv64i_op_addw = OP_INSTR (\<lambda>dst a b. sext (lo32 a + lo32 b))"

definition rv64i_op_subw :: "'w bc_handler" where
  "rv64i_op_subw = OP_INSTR (\<lambda>dst a b. sext (lo32 a - lo32 b))"

definition rv64i_op_mulw :: "'w bc_handler" where
  "rv64i_op_mulw = OP_INSTR (\<lambda>dst a b. sext (word_of_int (sint (lo32 a) * sint (lo32 b))))"

definition rv64i_op_add_uw :: "'w bc_handler" where
  "rv64i_op_add_uw = OP_INSTR (\<lambda>dst a b. ucast (lo32 a) + b)"

definition rv64i_slliw :: "'w bc_handler" where
  "rv64i_slliw = shift_instr NEXT_INSTR (\<lambda>a n. sext (push_bit n (lo32 a)))"

definition rv64i_srliw :: "'w bc_handler" where
  "rv64i_srliw = shift_instr NEXT_INSTR (\<lambda>a n. sext (drop_bit n (lo32 a)))"

definition rv32i_sext_b :: "'w bc_handler" where
  "rv32i_sext_b = imm_instr NEXT_INSTR (\<lambda>a imm. scast (ucast a :: 8 word))"

definition rv32i_sext_h :: "'w bc_handler" where
  "rv32i_sext_h = imm_instr NEXT_INSTR (\<lambda>a imm. scast (ucast a :: 16 word))"

definition rv32i_bseti :: "'w bc_handler" where
  "rv32i_bseti = shift_instr NEXT_INSTR (\<lambda>a n. a OR push_bit n 1)"

definition rv32i_bexti :: "'w bc_handler" where
  "rv32i_bexti = shift_instr NEXT_INSTR (\<lambda>a n. drop_bit n a AND 1)"

definition rv32i_jalr :: "'w bc_handler" where
  "rv32i_jalr E pc d c =
    (let w = dd_instr d; address = reg c (get_rs2 w) + sext (fi_signed_imm w);
         c1 = (if get_rs1 w \<noteq> 0 then set_reg (get_rs1 w) (pc + 4) c else c)
     in go (OVERFLOW_CHECKED_JUMP (address AND NOT 1)) c1)"

definition rv64i_sraiw :: "'w bc_handler" where
  "rv64i_sraiw = shift_instr NEXT_INSTR (\<lambda>a n. sext (signed_drop_bit n (lo32 a)))"

definition rv64i_op_sh1add_uw :: "'w bc_handler" where
  "rv64i_op_sh1add_uw = OP_INSTR (\<lambda>dst a b. b + push_bit 1 (ucast (lo32 a)))"

definition rv64i_op_sh2add_uw :: "'w bc_handler" where
  "rv64i_op_sh2add_uw = OP_INSTR (\<lambda>dst a b. b + push_bit 2 (ucast (lo32 a)))"

definition rv32i_op_div :: "'w bc_handler" where
  "rv32i_op_div =
    OP_INSTR (\<lambda>dst a b.
      if sint b \<noteq> 0 then
        (if \<not> (sint a = INT64_MIN \<and> sint b = -1) then word_of_int (sint a sdiv sint b) else dst)
      else -1)"

definition rv32i_op_divu :: "'w bc_handler" where
  "rv32i_op_divu = OP_INSTR (\<lambda>dst a b. if b \<noteq> 0 then a div b else -1)"

definition rv32i_op_rem :: "'w bc_handler" where
  "rv32i_op_rem =
    OP_INSTR (\<lambda>dst a b.
      if b \<noteq> 0 \<and> \<not> (sint a = INT64_MIN \<and> sint b = -1) then word_of_int (sint a smod sint b) else dst)"

definition rv32i_op_remu :: "'w bc_handler" where
  "rv32i_op_remu = OP_INSTR (\<lambda>dst a b. if b \<noteq> 0 then a mod b else -1)"

section \<open>Compressed arithmetic\<close>

definition rv32c_srli :: "'w bc_handler" where
  "rv32c_srli E pc d c =
    (let w = dd_instr d in go NEXT_C_INSTR (set_reg (get_rs1 w) (drop_bit (fi_unsigned_imm w) (reg c (get_rs1 w))) c))"

definition rv32c_add :: "'w bc_handler" where
  "rv32c_add E pc d c =
    (let w = dd_instr d in go NEXT_C_INSTR (set_reg (get_rs1 w) (reg c (get_rs1 w) + reg c (get_rs2 w)) c))"

definition rv32c_xor :: "'w bc_handler" where
  "rv32c_xor E pc d c =
    (let w = dd_instr d in go NEXT_C_INSTR (set_reg (get_rs1 w) (reg c (get_rs1 w) XOR reg c (get_rs2 w)) c))"

definition rv32c_or :: "'w bc_handler" where
  "rv32c_or E pc d c =
    (let w = dd_instr d in go NEXT_C_INSTR (set_reg (get_rs1 w) (reg c (get_rs1 w) OR reg c (get_rs2 w)) c))"

definition rv32c_andi :: "'w bc_handler" where
  "rv32c_andi E pc d c =
    (let w = dd_instr d in go NEXT_C_INSTR (set_reg (get_rs1 w) (reg c (get_rs1 w) AND sext (fi_signed_imm w)) c))"

section \<open>Calls of the reference handlers\<close>

definition rv32c_func :: "'w bc_handler" where
  "rv32c_func E pc d c = then_go NEXT_C_INSTR (execute E (dd_instr d) c)"

definition execute_decoded_function :: "'w bc_handler" where
  "execute_decoded_function E pc d c = then_go NEXT_INSTR (execute E (dd_instr d) c)"

definition execute_function_block :: "'w bc_handler" where
  "execute_function_block E pc d c =
    then_go (NEXT_BLOCK (of_nat (instr_length (dd_instr d))) True) (execute E (dd_instr d) c)"

section \<open>Selecting a handler\<close>

text \<open>
  The handlers that only this file has; the dispatcher adds SYSTEM, SYSCALL, STOP and the invalid
  bytecode.  \<open>FB\<close> is floating-point arithmetic.
\<close>

definition bytecode_impl :: "(bytecode \<Rightarrow> 32 word \<Rightarrow> 'w effect) \<Rightarrow> bytecode \<Rightarrow> 'w bc_handler option" where
  "bytecode_impl FB bc =
    (case bc of
       RV32C_BC_ADDI \<Rightarrow> Some rv32c_addi
     | RV32C_BC_MV \<Rightarrow> Some rv32c_mv
     | RV32C_BC_SLLI \<Rightarrow> Some rv32c_slli
     | RV32I_BC_ADDI \<Rightarrow> Some rv32i_addi
     | RV32I_BC_LI \<Rightarrow> Some rv32i_li
     | RV32I_BC_MV \<Rightarrow> Some rv32i_mv
     | RV64I_BC_ADDIW \<Rightarrow> Some rv64i_addiw
     | RV32I_BC_FAST_JAL \<Rightarrow> Some rv32i_fast_jal
     | RV32I_BC_FAST_CALL \<Rightarrow> Some rv32i_fast_call
     | RV32I_BC_SLLI \<Rightarrow> Some rv32i_slli
     | RV32I_BC_SLTI \<Rightarrow> Some rv32i_slti
     | RV32I_BC_SLTIU \<Rightarrow> Some rv32i_sltiu
     | RV32I_BC_XORI \<Rightarrow> Some rv32i_xori
     | RV32I_BC_SRLI \<Rightarrow> Some rv32i_srli
     | RV32I_BC_SRAI \<Rightarrow> Some rv32i_srai
     | RV32I_BC_ORI \<Rightarrow> Some rv32i_ori
     | RV32I_BC_ANDI \<Rightarrow> Some rv32i_andi
     | RV32C_BC_BNEZ \<Rightarrow> Some rv32c_bnez
     | RV32C_BC_BEQZ \<Rightarrow> Some rv32c_beqz
     | RV32C_BC_JMP \<Rightarrow> Some rv32c_jmp
     | RV32C_BC_JAL_ADDIW \<Rightarrow> Some rv32c_jal_addiw
     | RV32C_BC_JR \<Rightarrow> Some rv32c_jr
     | RV32C_BC_JALR \<Rightarrow> Some rv32c_jalr
     | RV32I_BC_JAL \<Rightarrow> Some rv32i_jal
     | RV32I_BC_BEQ \<Rightarrow> Some rv32i_beq
     | RV32I_BC_BNE \<Rightarrow> Some rv32i_bne
     | RV32I_BC_BEQ_FW \<Rightarrow> Some rv32i_beq_fw
     | RV32I_BC_BNE_FW \<Rightarrow> Some rv32i_bne_fw
     | RV32I_BC_BLT \<Rightarrow> Some rv32i_blt
     | RV32I_BC_BGE \<Rightarrow> Some rv32i_bge
     | RV32I_BC_BLTU \<Rightarrow> Some rv32i_bltu
     | RV32I_BC_BGEU \<Rightarrow> Some rv32i_bgeu
     | RV32I_BC_LDW \<Rightarrow> Some rv32i_ldw
     | RV32I_BC_LDD \<Rightarrow> Some rv32i_ldd
     | RV32I_BC_LDB \<Rightarrow> Some rv32i_ldb
     | RV32I_BC_LDBU \<Rightarrow> Some rv32i_ldbu
     | RV32I_BC_LDH \<Rightarrow> Some rv32i_ldh
     | RV32I_BC_LDHU \<Rightarrow> Some rv32i_ldhu
     | RV32I_BC_LDWU \<Rightarrow> Some rv32i_ldwu
     | RV32I_BC_STW \<Rightarrow> Some rv32i_stw
     | RV32I_BC_STD \<Rightarrow> Some rv32i_std
     | RV32I_BC_STB \<Rightarrow> Some rv32i_stb
     | RV32I_BC_STH \<Rightarrow> Some rv32i_sth
     | RV32C_BC_LDD \<Rightarrow> Some rv32c_ldd
     | RV32C_BC_LDW \<Rightarrow> Some rv32c_ldw
     | RV32C_BC_STD \<Rightarrow> Some rv32c_std
     | RV32C_BC_STW \<Rightarrow> Some rv32c_stw
     | RV32F_BC_FLW \<Rightarrow> Some rv32i_flw
     | RV32F_BC_FLD \<Rightarrow> Some rv32i_fld
     | RV32F_BC_FSW \<Rightarrow> Some rv32i_fsw
     | RV32F_BC_FSD \<Rightarrow> Some rv32i_fsd
     | RV32I_BC_AUIPC \<Rightarrow> Some rv32i_auipc
     | RV32I_BC_LUI \<Rightarrow> Some rv32i_lui
     | RV32I_BC_OP_ADD \<Rightarrow> Some rv32i_op_add
     | RV32I_BC_OP_SUB \<Rightarrow> Some rv32i_op_sub
     | RV32I_BC_OP_SLL \<Rightarrow> Some rv32i_op_sll
     | RV32I_BC_OP_SLT \<Rightarrow> Some rv32i_op_slt
     | RV32I_BC_OP_SLTU \<Rightarrow> Some rv32i_op_sltu
     | RV32I_BC_OP_XOR \<Rightarrow> Some rv32i_op_xor
     | RV32I_BC_OP_SRL \<Rightarrow> Some rv32i_op_srl
     | RV32I_BC_OP_OR \<Rightarrow> Some rv32i_op_or
     | RV32I_BC_OP_AND \<Rightarrow> Some rv32i_op_and
     | RV32I_BC_OP_MUL \<Rightarrow> Some rv32i_op_mul
     | RV32I_BC_OP_SH1ADD \<Rightarrow> Some rv32i_op_sh1add
     | RV32I_BC_OP_SH2ADD \<Rightarrow> Some rv32i_op_sh2add
     | RV32I_BC_OP_SH3ADD \<Rightarrow> Some rv32i_op_sh3add
     | RV32I_BC_OP_SRA \<Rightarrow> Some rv32i_op_sra
     | RV32I_BC_OP_ZEXT_H \<Rightarrow> Some rv32i_op_zext_h
     | RV64I_BC_OP_ADDW \<Rightarrow> Some rv64i_op_addw
     | RV64I_BC_OP_SUBW \<Rightarrow> Some rv64i_op_subw
     | RV64I_BC_OP_MULW \<Rightarrow> Some rv64i_op_mulw
     | RV64I_BC_OP_ADD_UW \<Rightarrow> Some rv64i_op_add_uw
     | RV64I_BC_SLLIW \<Rightarrow> Some rv64i_slliw
     | RV64I_BC_SRLIW \<Rightarrow> Some rv64i_srliw
     | RV32I_BC_SEXT_B \<Rightarrow> Some rv32i_sext_b
     | RV32I_BC_SEXT_H \<Rightarrow> Some rv32i_sext_h
     | RV32I_BC_BSETI \<Rightarrow> Some rv32i_bseti
     | RV32I_BC_BEXTI \<Rightarrow> Some rv32i_bexti
     | RV32I_BC_JALR \<Rightarrow> Some rv32i_jalr
     | RV64I_BC_SRAIW \<Rightarrow> Some rv64i_sraiw
     | RV64I_BC_OP_SH1ADD_UW \<Rightarrow> Some rv64i_op_sh1add_uw
     | RV64I_BC_OP_SH2ADD_UW \<Rightarrow> Some rv64i_op_sh2add_uw
     | RV32I_BC_OP_DIV \<Rightarrow> Some rv32i_op_div
     | RV32I_BC_OP_DIVU \<Rightarrow> Some rv32i_op_divu
     | RV32I_BC_OP_REM \<Rightarrow> Some rv32i_op_rem
     | RV32I_BC_OP_REMU \<Rightarrow> Some rv32i_op_remu
     | RV32C_BC_SRLI \<Rightarrow> Some rv32c_srli
     | RV32C_BC_ADD \<Rightarrow> Some rv32c_add
     | RV32C_BC_XOR \<Rightarrow> Some rv32c_xor
     | RV32C_BC_OR \<Rightarrow> Some rv32c_or
     | RV32C_BC_ANDI \<Rightarrow> Some rv32c_andi
     | RV32C_BC_FUNCTION \<Rightarrow> Some rv32c_func
     | RV32I_BC_FUNCTION \<Rightarrow> Some execute_decoded_function
     | RV32I_BC_FUNCBLOCK \<Rightarrow> Some execute_function_block
     | RV32F_BC_FADD \<Rightarrow> Some (\<lambda>E pc d c. then_go NEXT_INSTR (FB bc (dd_instr d) c))
     | RV32F_BC_FSUB \<Rightarrow> Some (\<lambda>E pc d c. then_go NEXT_INSTR (FB bc (dd_instr d) c))
     | RV32F_BC_FMUL \<Rightarrow> Some (\<lambda>E pc d c. then_go NEXT_INSTR (FB bc (dd_instr d) c))
     | RV32F_BC_FDIV \<Rightarrow> Some (\<lambda>E pc d c. then_go NEXT_INSTR (FB bc (dd_instr d) c))
     | RV32F_BC_FMADD \<Rightarrow> Some (\<lambda>E pc d c. then_go NEXT_INSTR (FB bc (dd_instr d) c))
     | _ \<Rightarrow> None)"

end
