(* ===== verification/Bytecode_Formats.thy ===== *)
theory Bytecode_Formats
  imports Bytecode_Impl
begin

text \<open>
  What the packed instruction formats keep: register numbers fit their bytes, every immediate that the
  rewriter stores in 16 or 24 bits is read back unchanged, and unset bytes are never read.
\<close>

unbundle bit_operations_syntax

lemma field_lt: "n < 32 \<Longrightarrow> unat (field lo n w) < 2 ^ n"
  by (metis field_def take_bit_nat_less_exp unsigned_take_bit_eq)

lemma reg_lt: "rd i < 32" "rs1 i < 32" "rs2 i < 32" "CR_rs2 i < 32" "CR_rd i < 32" "CI_rd i < 32"
    "srd i < 8" "srs1 i < 8" "srs2 i < 8" "CA_srd i < 8"
  using field_lt [of 5] field_lt [of 3]
  by (simp_all add: rd_def rs1_def rs2_def reg_field_def CR_rs2_def CR_rd_def CI_rd_def srd_def srs1_def srs2_def CA_srd_def)

lemma reg_lt256 [simp]: "rd i < 256" "rs1 i < 256" "rs2 i < 256" "CR_rs2 i < 256" "CR_rd i < 256" "CI_rd i < 256"
    "srd i + 8 < 256" "srs1 i + 8 < 256" "srs2 i + 8 < 256" "CA_srd i + 8 < 256"
  using reg_lt [of i] by simp_all

lemma field_pack4_3: "b3 < 256 \<Longrightarrow> unat (field 24 8 (pack4 b3 b2 low)) = b3"
proof -
  assume "b3 < 256"
  have "field 24 8 (pack4 b3 b2 low) = take_bit 8 (of_nat b3)"
    by (rule bit_word_eqI) (auto simp: field_def pack4_def bit_simps)
  with \<open>b3 < 256\<close> show ?thesis by (simp add: unsigned_take_bit_eq unat_of_nat take_bit_nat_eq_self)
qed

lemma field_pack4_2: "b2 < 256 \<Longrightarrow> unat (field 16 8 (pack4 b3 b2 low)) = b2"
proof -
  assume "b2 < 256"
  have "field 16 8 (pack4 b3 b2 low) = take_bit 8 (of_nat b2)"
    by (rule bit_word_eqI) (auto simp: field_def pack4_def bit_simps)
  with \<open>b2 < 256\<close> show ?thesis by (simp add: unsigned_take_bit_eq unat_of_nat take_bit_nat_eq_self)
qed

lemma field_pack4_low: "field 0 16 (pack4 b3 b2 low) = take_bit 16 low"
  by (rule bit_word_eqI) (auto simp: field_def pack4_def bit_simps)

lemma ucast_pack4: "(ucast (pack4 b3 b2 low) :: 16 word) = ucast low"
  by (rule bit_word_eqI) (auto simp: pack4_def bit_simps)

text \<open>Immediates that survive the 16-bit field.\<close>

lemma imm16_I [simp]: "scast (ucast (Itype_signed_imm i) :: 16 word) = Itype_signed_imm i"
  by (rule bit_word_eqI) (auto simp: Itype_signed_imm_def Itype_imm_def field_def bit_simps min_def)

lemma imm16_S [simp]: "scast (ucast (Stype_signed_imm i) :: 16 word) = Stype_signed_imm i"
  by (rule bit_word_eqI) (auto simp: Stype_signed_imm_def field_def bit_simps min_def)

lemma ext_masks:
  "(0xFFFFFFE0 :: 32 word) = NOT (mask 5)" "(0xFFFE0000 :: 32 word) = NOT (mask 17)" "(0xFFFFFE00 :: 32 word) = NOT (mask 9)"
  "(0xFFFFFF00 :: 32 word) = NOT (mask 8)" "(0xFFFFF800 :: 32 word) = NOT (mask 11)" "(0xFFFFF000 :: 32 word) = NOT (mask 12)"
  "(0xFFF00000 :: 32 word) = NOT (mask 20)"
  by (simp_all add: mask_eq_exp_minus_1)

lemma bit_field: "bit (field lo n w) k \<longleftrightarrow> k < n \<and> bit w (lo + k)"
  by (auto simp: field_def bit_simps)

lemma field_bit: "field lo 1 w \<noteq> 0 \<longleftrightarrow> bit w lo"
  by (simp add: field_def take_bit_Suc bit_iff_odd_drop_bit flip: odd_iff_mod_2_eq_one)

lemmas imm16_bits = bit_field field_bit bit_or_iff bit_push_bit_iff bit_not_iff bit_mask_iff bit_take_bit_iff bit_signed_drop_bit_iff
  bit_unsigned_iff bit_signed_iff min_def ext_masks

lemma imm16_B [simp]: "scast (ucast (Btype_signed_imm i) :: 16 word) = Btype_signed_imm i"
  by (rule bit_word_eqI) (auto simp: Btype_signed_imm_def imm16_bits simp del: push_bit_Suc One_nat_def)

lemma imm16_CI [simp]: "scast (ucast (CI_signed_imm i) :: 16 word) = CI_signed_imm i"
  by (rule bit_word_eqI) (auto simp: CI_signed_imm_def imm16_bits simp del: push_bit_Suc One_nat_def)

lemma imm16_CI16 [simp]: "scast (ucast (CI16_signed_imm i) :: 16 word) = CI16_signed_imm i"
  by (rule bit_word_eqI) (auto simp: CI16_signed_imm_def imm16_bits simp del: push_bit_Suc One_nat_def)

lemma imm16_CAB [simp]: "scast (ucast (CAB_signed_imm i) :: 16 word) = CAB_signed_imm i"
  by (rule bit_word_eqI) (auto simp: CAB_signed_imm_def imm16_bits simp del: push_bit_Suc One_nat_def)

lemma imm16_CB [simp]: "scast (ucast (CB_signed_imm i) :: 16 word) = CB_signed_imm i"
  by (rule bit_word_eqI) (auto simp: CB_signed_imm_def imm16_bits simp del: push_bit_Suc One_nat_def)

lemma imm16_CJ [simp]: "scast (ucast (CJ_signed_imm i) :: 16 word) = CJ_signed_imm i"
  by (rule bit_word_eqI) (auto simp: CJ_signed_imm_def imm16_bits simp del: push_bit_Suc One_nat_def)

lemma sext_small:
  fixes w :: "32 word"
  assumes "take_bit 15 w = w"
  shows "scast (ucast w :: 16 word) = w" "sext w = ucast w"
proof -
  have b: "\<not> bit w n" if "15 \<le> n" for n
    using assms that by (metis bit_take_bit_iff linorder_not_less)
  show "scast (ucast w :: 16 word) = w"
    by (rule bit_word_eqI) (auto simp: bit_simps min_def b)
  show "sext w = ucast w"
    by (rule bit_word_eqI) (auto simp: sext_def bit_simps min_def b)
qed

lemma small_offsets:
  "take_bit 15 (CIW_offset i) = CIW_offset i" "take_bit 15 (CL_offset i) = CL_offset i" "take_bit 15 (CS_offset4 i) = CS_offset4 i"
  "take_bit 15 (CSD_offset8 i) = CSD_offset8 i" "take_bit 15 (CI2_offset i) = CI2_offset i" "take_bit 15 (CIFLD_offset i) = CIFLD_offset i"
  by (rule bit_word_eqI, auto simp: CIW_offset_def CL_offset_def CS_offset4_def CSD_offset8_def CI2_offset_def CIFLD_offset_def imm16_bits simp del: push_bit_Suc One_nat_def)+

lemma small_products:
  "take_bit 15 (CSS_offset 4 i) = CSS_offset 4 i" "take_bit 15 (CSFSD_offset i) = CSFSD_offset i"
proof -
  have 4: "w * 4 = push_bit 2 w" and 8: "w * 8 = push_bit 3 w" for w :: "32 word"
    by (simp_all add: push_bit_eq_mult)
  show "take_bit 15 (CSS_offset 4 i) = CSS_offset 4 i"
    unfolding CSS_offset_def 4 by (rule bit_word_eqI) (auto simp: imm16_bits simp del: push_bit_Suc One_nat_def)
  show "take_bit 15 (CSFSD_offset i) = CSFSD_offset i"
    unfolding CSFSD_offset_def 8 by (rule bit_word_eqI) (auto simp: imm16_bits simp del: push_bit_Suc One_nat_def)
qed

lemmas imm16_offsets [simp] =
  sext_small [OF small_offsets(1)] sext_small [OF small_offsets(2)] sext_small [OF small_offsets(3)] sext_small [OF small_offsets(4)]
  sext_small [OF small_offsets(5)] sext_small [OF small_offsets(6)]
  sext_small(1) [OF small_products(1)] sext_small(1) [OF small_products(2)]

lemma shift_amounts:
  "take_bit 16 (x AND 31) = x AND (31 :: 32 word)" "take_bit 16 (x AND 63) = x AND (63 :: 32 word)"
  "take_bit 16 (CI_shift64_imm i) = CI_shift64_imm i" "take_bit 16 (CAB_shift64_imm i) = CAB_shift64_imm i"
proof -
  have m: "(31 :: 32 word) = mask 5" "(63 :: 32 word) = mask 6" by (simp_all add: mask_eq_exp_minus_1)
  show "take_bit 16 (x AND 31) = x AND 31" "take_bit 16 (x AND 63) = x AND 63"
    unfolding m by (rule bit_word_eqI, auto simp: bit_simps)+
  show "take_bit 16 (CI_shift64_imm i) = CI_shift64_imm i" "take_bit 16 (CAB_shift64_imm i) = CAB_shift64_imm i"
    by (rule bit_word_eqI, auto simp: CI_shift64_imm_def CAB_shift64_imm_def imm16_bits simp del: push_bit_Suc One_nat_def)+
qed

lemma view_itype [simp]:
  "s1 < 256 \<Longrightarrow> get_rs1 (FasterItype s1 s2 imm) = s1"
  "s2 < 256 \<Longrightarrow> get_rs2 (FasterItype s1 s2 imm) = s2"
  "fi_signed_imm (FasterItype s1 s2 imm) = scast (ucast imm :: 16 word)"
  "fi_unsigned_imm (FasterItype s1 s2 imm) = unat (take_bit 16 imm)"
  by (simp_all add: FasterItype_def get_rs1_def get_rs2_def fi_signed_imm_def fi_unsigned_imm_def field_pack4_3 field_pack4_2
      field_pack4_low ucast_pack4)

lemma view_optype [simp]:
  "s1 < 256 \<Longrightarrow> get_rs1 (FasterOpType d s1 s2) = s1"
  "s2 < 256 \<Longrightarrow> get_rs2 (FasterOpType d s1 s2) = s2"
  "d < 256 \<Longrightarrow> fo_rd (FasterOpType d s1 s2) = d"
  by (simp_all add: FasterOpType_def get_rs1_def get_rs2_def fo_rd_def field_pack4_3 field_pack4_2
      field_pack4_low unsigned_take_bit_eq unat_of_nat take_bit_nat_eq_self)

lemma view_immediate [simp]:
  "d < 256 \<Longrightarrow> fm_rd (FasterImmediate u d imm) = d"
  "fm_signed_imm (FasterImmediate u d imm) = scast (ucast imm :: 16 word)"
proof -
  have m: "(0xFF00 :: 32 word) = push_bit 8 (mask 8)" by (simp add: mask_eq_exp_minus_1)
  have "field 0 8 (FasterImmediate u d imm) = take_bit 8 (of_nat d)"
    unfolding FasterImmediate_def m by (rule bit_word_eqI) (auto simp: field_def bit_simps)
  then show "d < 256 \<Longrightarrow> fm_rd (FasterImmediate u d imm) = d"
    by (simp add: fm_rd_def unsigned_take_bit_eq unat_of_nat take_bit_nat_eq_self)
  have "(ucast (drop_bit 16 (FasterImmediate u d imm)) :: 16 word) = ucast imm"
    unfolding FasterImmediate_def m by (rule bit_word_eqI) (auto simp: bit_simps)
  then show "fm_signed_imm (FasterImmediate u d imm) = scast (ucast imm :: 16 word)"
    by (simp add: fm_signed_imm_def)
qed

lemma view_move [simp]:
  "d < 256 \<Longrightarrow> mv_rd (FasterMove u d s1) = d"
  "s1 < 256 \<Longrightarrow> mv_rs1 (FasterMove u d s1) = s1"
proof -
  have m: "(0xFFFF0000 :: 32 word) = NOT (mask 16)" by (simp add: mask_eq_exp_minus_1)
  have "field 8 8 (FasterMove u d s1) = take_bit 8 (of_nat d)" "field 0 8 (FasterMove u d s1) = take_bit 8 (of_nat s1)"
    unfolding FasterMove_def m by (rule bit_word_eqI, auto simp: field_def bit_simps)+
  then show "d < 256 \<Longrightarrow> mv_rd (FasterMove u d s1) = d" "s1 < 256 \<Longrightarrow> mv_rs1 (FasterMove u d s1) = s1"
    by (simp_all add: mv_rd_def mv_rs1_def unsigned_take_bit_eq unat_of_nat take_bit_nat_eq_self)
qed

lemma view_jtype [simp]:
  "d < 256 \<Longrightarrow> fj_rd (FasterJtype d off) = d"
  "fj_upper_imm (FasterJtype d off) = push_bit 8 off"
  "fj_signed_imm (FasterJtype d off) = signed_drop_bit 8 (push_bit 8 off)"
proof -
  have "field 24 8 (FasterJtype d off) = take_bit 8 (of_nat d)"
    unfolding FasterJtype_def by (rule bit_word_eqI) (auto simp: field_def bit_simps)
  then show "d < 256 \<Longrightarrow> fj_rd (FasterJtype d off) = d"
    by (simp add: fj_rd_def unsigned_take_bit_eq unat_of_nat take_bit_nat_eq_self)
  show "fj_upper_imm (FasterJtype d off) = push_bit 8 off"
    unfolding FasterJtype_def fj_upper_imm_def by (rule bit_word_eqI) (auto simp: field_def bit_simps)
  then show "fj_signed_imm (FasterJtype d off) = signed_drop_bit 8 (push_bit 8 off)"
    by (simp add: fj_signed_imm_def fj_upper_imm_def)
qed

lemma jump_offset24 [simp]: "signed_drop_bit 8 (push_bit 8 (jump_offset i)) = jump_offset i"
  by (rule bit_word_eqI) (auto simp: jump_offset_def imm16_bits simp del: push_bit_Suc One_nat_def)

lemma upper_imm24 [simp]: "push_bit 8 (push_bit 4 (field 12 20 i)) = upper_imm i"
  by (simp add: upper_imm_def push_bit_push_bit)

end
