(* ===== verification/Bytecode_Step.thy ===== *)
theory Bytecode_Step
  imports Bytecode_Formats
begin

text \<open>
  One instruction executed by its reference handler and by its rewritten bytecode, as functions of the address
  it stands at, with the instructions for which the two are not comparable or differ.  The reference
  handlers that a bytecode calls do not read the program counter, which the dispatcher does not keep up to date for them.
\<close>

unbundle bit_operations_syntax

definition at_pc :: "64 word \<Rightarrow> 'w CPU \<Rightarrow> 'w CPU" where
  "at_pc a c = c\<lparr>cpu_pc := a\<rparr>"

definition map_pc :: "64 word \<Rightarrow> ('a, 'w CPU) thrown \<Rightarrow> ('a, 'w CPU) thrown" where
  "map_pc a r = (fst r, at_pc a (snd r))"

definition pc_free :: "'w handler \<Rightarrow> bool" where
  "pc_free h \<longleftrightarrow> (\<forall>E i a c. h E i (at_pc a c) = map_pc a (h E i c))"

lemma at_pc_sel [simp]:
  "cpu_pc (at_pc a c) = a" "cpu_vm (at_pc a c) = cpu_vm c" "cpu_fl (at_pc a c) = cpu_fl c" "cpu_regs (at_pc a c) = cpu_regs c"
  "reg (at_pc a c) r = reg c r" "cpu_reservation (at_pc a c) = cpu_reservation c"
  "at_pc a (at_pc b c) = at_pc a c" "set_reg r v (at_pc a c) = at_pc a (set_reg r v c)"
  "set_fl r v (at_pc a c) = at_pc a (set_fl r v c)" "(at_pc a c)\<lparr>cpu_vm := m\<rparr> = at_pc a (c\<lparr>cpu_vm := m\<rparr>)"
  "(at_pc a c)\<lparr>cpu_reservation := x\<rparr> = at_pc a (c\<lparr>cpu_reservation := x\<rparr>)"
  by (simp_all add: at_pc_def reg_def set_reg_def set_fl_def)

lemma map_pc_simps [simp]:
  "map_pc a (r, c) = (r, at_pc a c)" "map_pc a (map_pc b rc) = map_pc a rc"
  by (simp_all add: map_pc_def)

lemma pc_basic [simp]:
  "retire (at_pc a c) = map_pc a (retire c)"
  "trigger_exception t d (at_pc a c) = map_pc a (trigger_exception t d c)"
  "lift_vm r (at_pc a c) = map_pc a (lift_vm r c)"
  "cpu_read E n addr (at_pc a c) = map_pc a (cpu_read E n addr c)"
  "cpu_write E n addr v (at_pc a c) = map_pc a (cpu_write E n addr v c)"
  by (simp_all add: retire_def trigger_exception_def lift_vm_def cpu_read_def cpu_write_def map_pc_def)

lemma pc_case:
  assumes "\<And>x c. g x (at_pc a c) = map_pc a (g x c)"
  shows "(case map_pc a r of (Inl e, c1) \<Rightarrow> (Inl e, c1) | (Inr x, c1) \<Rightarrow> g x c1) =
    map_pc a (case r of (Inl e, c1) \<Rightarrow> (Inl e, c1) | (Inr x, c1) \<Rightarrow> g x c1)"
  by (cases r) (simp add: assms split: sum.split)

lemma pc_loads [simp]:
  "load_into E n cv r addr (at_pc a c) = map_pc a (load_into E n cv r addr c)"
  "load_float E n r addr (at_pc a c) = map_pc a (load_float E n r addr c)"
  "touch E n addr (at_pc a c) = map_pc a (touch E n addr c)"
  "finish_op i r v (at_pc a c) = map_pc a (finish_op i r v c)"
  by (simp_all add: load_into_def load_float_def touch_def finish_op_def pc_case split: option.split)

lemma pc_free_rvi [simp]:
  "pc_free NOP" "pc_free UNIMPLEMENTED" "pc_free ILLEGAL" "pc_free LOAD_X_DUMMY" "pc_free OP_IMM" "pc_free OP" "pc_free OP32"
  "pc_free OP_IMM32" "pc_free OP_IMM32_SLLI_UW" "pc_free OP_IMM32_SRAIW" "pc_free FENCE"
  by (simp_all add: pc_free_def NOP_def UNIMPLEMENTED_def ILLEGAL_def LOAD_X_DUMMY_def OP_IMM_def OP_def OP32_def OP_IMM32_def
      OP_IMM32_SLLI_UW_def OP_IMM32_SRAIW_def FENCE_def Let_def)

lemma pc_free_rvc [simp]:
  "pc_free C0_REG_FLD" "pc_free C0_REG_LD" "pc_free C0_REG_FSD" "pc_free C1_LUI" "pc_free C1_ALU_OPS" "pc_free C2_FLDSP" "pc_free C2_FSDSP"
  by (simp_all add: pc_free_def C0_REG_FLD_def C0_REG_LD_def C0_REG_FSD_def C1_LUI_def C1_ALU_OPS_def C2_FLDSP_def C2_FSDSP_def
      split: option.split)

lemma pc_amo [simp]: "pc_free (amo n cv f)"
proof -
  have "amo n cv f E i (at_pc a c) = map_pc a (amo n cv f E i c)" for E i a and c :: "'a CPU"
    by (cases "lift_vm (writable_read (env_pages E) n (unat (reg c (rs1 i))) (cpu_vm c)) c")
      (auto simp: amo_def Let_def split: sum.split)
  then show ?thesis by (simp add: pc_free_def)
qed

lemma pc_free_amo [simp]:
  "pc_free AMOADD_W" "pc_free AMOXOR_W" "pc_free AMOOR_W" "pc_free AMOAND_W" "pc_free AMOMAX_W" "pc_free AMOMIN_W" "pc_free AMOMAXU_W"
  "pc_free AMOMINU_W" "pc_free AMOSWAP_W" "pc_free AMOADD_D" "pc_free AMOXOR_D" "pc_free AMOOR_D" "pc_free AMOAND_D" "pc_free AMOMAX_D"
  "pc_free AMOMIN_D" "pc_free AMOMAXU_D" "pc_free AMOMINU_D" "pc_free AMOSWAP_D"
  by (simp_all add: AMOADD_W_def AMOXOR_W_def AMOOR_W_def AMOAND_W_def AMOMAX_W_def AMOMIN_W_def AMOMAXU_W_def AMOMINU_W_def
      AMOSWAP_W_def AMOADD_D_def AMOXOR_D_def AMOOR_D_def AMOAND_D_def AMOMAX_D_def AMOMIN_D_def AMOMAXU_D_def AMOMINU_D_def
      AMOSWAP_D_def amo_w_def amo_d_def)

lemma pc_lrsc:
  "load_resv_n n cv E i (at_pc a c) = map_pc a (load_resv_n n cv E i c)"
  "store_cond_n n E i (at_pc a c) = map_pc a (store_cond_n n E i c)"
  by (auto simp: load_resv_n_def load_reserve_def store_cond_n_def store_conditional_def Let_def pc_case)

lemma pc_free_lrsc [simp]: "pc_free LOAD_RESV" "pc_free STORE_COND"
  by (simp_all add: pc_free_def LOAD_RESV_def STORE_COND_def pc_lrsc)

lemma pc_free_float [simp]: "pc_free FSGNJ_NX" "pc_free FMV_X_W" "pc_free FMV_W_X"
  by (simp_all add: pc_free_def FSGNJ_NX_def FMV_X_W_def FMV_W_X_def Let_def split: option.split)

section \<open>One instruction, by its handler and by its bytecode\<close>

definition flow_target :: "64 word \<Rightarrow> 64 word \<Rightarrow> flow \<Rightarrow> 64 word" where
  "flow_target a pc fl =
    (case fl of NEXT_INSTR \<Rightarrow> a + 4 | NEXT_C_INSTR \<Rightarrow> a + 2 | NEXT_BLOCK len _ \<Rightarrow> pc + len
     | PERFORM_BRANCH off \<Rightarrow> pc + off | OVERFLOW_CHECKED_JUMP t \<Rightarrow> t)"

definition settle :: "64 word \<Rightarrow> 64 word \<Rightarrow> (flow, 'w CPU) thrown \<Rightarrow> (unit, 'w CPU) thrown" where
  "settle a pc r =
    (case r of (Inl e, c) \<Rightarrow> (Inl e, at_pc a c) | (Inr fl, c) \<Rightarrow> (Inr (), at_pc (flow_target a pc fl) c))"

definition run_bytecode ::
  "(bytecode \<Rightarrow> 32 word \<Rightarrow> 'w effect) \<Rightarrow> 'w Env \<Rightarrow> 64 word \<Rightarrow> nat \<Rightarrow> bytecode \<times> 32 word \<Rightarrow> 'w CPU \<Rightarrow> (unit, 'w CPU) thrown option" where
  "run_bytecode FB E a k bw c =
    (case bytecode_impl FB (fst bw) of
       None \<Rightarrow> None
     | Some h \<Rightarrow>
         let d = \<lparr>dd_bytecode = fst bw, dd_idxend = k, dd_icount = 0, dd_instr = snd bw\<rparr>; pc = a + block_bytes d
         in Some (settle a pc (h E pc d c)))"

definition reference_step :: "'w Env \<Rightarrow> 64 word \<Rightarrow> 32 word \<Rightarrow> 'w CPU \<Rightarrow> (unit, 'w CPU) thrown" where
  "reference_step E a i c =
    (case execute E i (at_pc a c) of
       (Inl e, c1) \<Rightarrow> (Inl e, c1) | (Inr _, c1) \<Rightarrow> (Inr (), increment_pc (of_nat (instr_length i)) c1))"

text \<open>Instructions that end a block of the decoder cache.\<close>

definition is_regular_compressed :: "32 word \<Rightarrow> bool" where
  "is_regular_compressed i \<longleftrightarrow>
    \<not> (i AND 3 = 1 \<and> (c_funct3 i = 5 \<or> c_funct3 i = 6 \<or> c_funct3 i = 7)) \<and>
    \<not> (i AND 3 = 2 \<and> c_funct3 i = 4 \<and> CR_rd i \<noteq> 0 \<and> CR_rs2 i = 0)"

definition ends_block :: "32 word \<Rightarrow> bool" where
  "ends_block i \<longleftrightarrow>
    (if instr_length i = 2 then \<not> is_regular_compressed i
     else opcode i = RV32I_BRANCH \<or> opcode i = RV32I_SYSTEM \<or> opcode i = RV32I_JAL \<or> opcode i = RV32I_JALR)"

text \<open>Instructions whose effect is the host's: system calls, CSRs, floating-point arithmetic.\<close>

definition host_instr :: "nat \<Rightarrow> 32 word \<Rightarrow> bool" where
  "host_instr n i \<longleftrightarrow>
    (if is_long i then
       opcode i = RV32I_SYSTEM \<or> opcode i = RV32F_FMADD \<or> opcode i = RV32F_FMSUB \<or> opcode i = RV32F_FNMSUB \<or> opcode i = RV32F_FNMADD \<or>
       (opcode i = RV32F_FPFUNC \<and> \<not> (funct5 i = 0x04 \<or> funct5 i = 0x1E \<or> (funct5 i = 0x1C \<and> funct3 i = 0))) \<or>
       (opcode i = 0x5B \<and> rs1 i = 0 \<and> rd i = 0 \<and> unat (Itype_imm i) < n)
     else i AND 3 = 2 \<and> c_funct3 i = 4 \<and> bit i 12 \<and> CR_rd i = 0 \<and> CR_rs2 i = 0)"

text \<open>Where the bytecodes differ from the handlers: remainders, writes to \<open>x0\<close>, odd jump targets.\<close>

definition rem_diverges :: "32 word \<Rightarrow> 'w CPU \<Rightarrow> bool" where
  "rem_diverges i c \<longleftrightarrow>
    is_long i \<and> opcode i = RV32I_OP \<and>
    (jumptable_friendly_op i = 0x17 \<and> reg c (rs2 i) = 0 \<or>
     jumptable_friendly_op i = 0x16 \<and>
       (reg c (rs2 i) = 0 \<or> sint (reg c (rs1 i)) = INT64_MIN \<and> sint (reg c (rs2 i)) = -1))"

definition clobbers_zero :: "32 word \<Rightarrow> bool" where
  "clobbers_zero i \<longleftrightarrow>
    (if is_long i then opcode i = RV64I_OP32 \<and> rd i = 0 \<and> jumptable_friendly_op i \<in> {0, 0x200, 0x10, 0x40, 0x44}
     else i AND 3 = 1 \<and> c_funct3 i = 1 \<and> CI_rd i = 0)"

definition odd_target :: "64 word \<Rightarrow> 32 word \<Rightarrow> 'w CPU \<Rightarrow> bool" where
  "odd_target a i c \<longleftrightarrow>
    (if is_long i then opcode i = RV32I_JALR \<and> (reg c (rs1 i) + RVIMM_I i) AND 1 \<noteq> 0
     else i AND 3 = 2 \<and> c_funct3 i = 4 \<and> CR_rd i \<noteq> 0 \<and> CR_rs2 i = 0 \<and>
       (if bit i 12 then reg (set_reg REG_RA (a + 2) c) (CR_rd i) else reg c (CR_rd i)) AND 1 \<noteq> 0)"

section \<open>Facts\<close>

lemma long_length [simp]: "is_long i \<Longrightarrow> instr_length i = 4" "\<not> is_long i \<Longrightarrow> instr_length i = 2"
  by (simp_all add: instr_length_def)

lemma flow_target_simps [simp]:
  "flow_target a pc NEXT_INSTR = a + 4" "flow_target a pc NEXT_C_INSTR = a + 2" "flow_target a pc (NEXT_BLOCK len f) = pc + len"
  "flow_target a pc (PERFORM_BRANCH off) = pc + off" "flow_target a pc (OVERFLOW_CHECKED_JUMP t) = t"
  by (simp_all add: flow_target_def)

lemma settle_simps:
  "settle a pc (go fl c) = (Inr (), at_pc (flow_target a pc fl) c)"
  "settle a pc (then_go NEXT_INSTR r) = (case r of (Inl e, c) \<Rightarrow> (Inl e, at_pc a c) | (Inr _, c) \<Rightarrow> (Inr (), at_pc (a + 4) c))"
  "settle a pc (then_go NEXT_C_INSTR r) = (case r of (Inl e, c) \<Rightarrow> (Inl e, at_pc a c) | (Inr _, c) \<Rightarrow> (Inr (), at_pc (a + 2) c))"
  by (auto simp: settle_def go_def then_go_def split: prod.split sum.split)

lemma increment_at_pc [simp]: "increment_pc x (at_pc a c) = at_pc (a + x) c"
  by (simp add: increment_pc_def at_pc_def)

lemma retire_case [simp]: "(case retire c of (Inl e, c1) \<Rightarrow> f e c1 | (Inr x, c1) \<Rightarrow> g x c1) = g () c"
  by (simp add: retire_def)

lemma run_function:
  fixes E :: "'w Env"
  assumes "pc_free (decode (env_custom_count E) i :: 'w handler)"
  shows "is_long i \<Longrightarrow> run_bytecode FB E a k (RV32I_BC_FUNCTION, i) c = Some (reference_step E a i c)"
    and "\<not> is_long i \<Longrightarrow> run_bytecode FB E a k (RV32C_BC_FUNCTION, i) c = Some (reference_step E a i c)"
proof -
  have e: "execute E i (at_pc a c) = map_pc a (execute E i c)"
    using assms by (simp add: execute_def pc_free_def)
  show "run_bytecode FB E a k (RV32I_BC_FUNCTION, i) c = Some (reference_step E a i c)" if "is_long i"
    using that by (cases "execute E i c") (auto simp: run_bytecode_def bytecode_impl_def execute_decoded_function_def settle_simps
        reference_step_def e split: sum.split)
  show "run_bytecode FB E a k (RV32C_BC_FUNCTION, i) c = Some (reference_step E a i c)" if "\<not> is_long i"
    using that by (cases "execute E i c") (auto simp: run_bytecode_def bytecode_impl_def rv32c_func_def settle_simps
        reference_step_def e split: sum.split)
qed

lemma map_pc_case [simp]:
  "(case map_pc a r of (Inl e, c1) \<Rightarrow> (Inl e, c1) | (Inr _, c1) \<Rightarrow> (Inr (), increment_pc x c1)) =
    (case r of (Inl e, c1) \<Rightarrow> (Inl e, at_pc a c1) | (Inr _, c1) \<Rightarrow> (Inr (), at_pc (a + x) c1))"
  by (cases r) (simp split: sum.split)

lemmas choose_simps = computed_index_for_def computed_long_def Let_def opcode_defs
lemmas rewrite_simps = threaded_rewrite_def rewrite_long_def rewrite_compressed_def bytecode_groups rewrite_itype_def rewrite_stype_def rewrite_optype_def
lemmas run_simps = run_bytecode_def bytecode_impl_def settle_simps
lemma reference_long:
  "is_long i \<Longrightarrow> reference_step E a i c =
    (case decode (env_custom_count E) i E i (at_pc a c) of
       (Inl e, c1) \<Rightarrow> (Inl e, c1) | (Inr _, c1) \<Rightarrow> (Inr (), increment_pc 4 c1))"
  by (simp add: reference_step_def execute_def cong: prod.case_cong sum.case_cong)

lemma reference_compressed:
  "\<not> is_long i \<Longrightarrow> reference_step E a i c =
    (case decode (env_custom_count E) i E i (at_pc a c) of
       (Inl e, c1) \<Rightarrow> (Inl e, c1) | (Inr _, c1) \<Rightarrow> (Inr (), increment_pc 2 c1))"
  by (simp add: reference_step_def execute_def cong: prod.case_cong sum.case_cong)

lemmas ref_simps = reference_long reference_compressed decode_def decode_long_def decode_compressed_def

lemma pc_free_if [simp]: "pc_free (if p then g else h) = (if p then pc_free g else pc_free h)"
  by simp

lemma pc_free_fallback:
  "\<not> (opcode i = 0x5B \<and> rs1 i = 0 \<and> rd i = 0 \<and> unat (Itype_imm i) < n) \<Longrightarrow> pc_free (on_unimplemented_instruction n i)"
  by (auto simp: on_unimplemented_instruction_def)

lemma three_bits:
  assumes "unat (w :: 32 word) < 8"
  shows "w = 0 \<or> w = 1 \<or> w = 2 \<or> w = 3 \<or> w = 4 \<or> w = 5 \<or> w = 6 \<or> w = 7"
  using assms unfolding word_unat_eq_iff by (simp, linarith)

lemma funct3_cases:
  "funct3 i = 0 \<or> funct3 i = 1 \<or> funct3 i = 2 \<or> funct3 i = 3 \<or> funct3 i = 4 \<or> funct3 i = 5 \<or> funct3 i = 6 \<or> funct3 i = 7"
  "c_funct3 i = 0 \<or> c_funct3 i = 1 \<or> c_funct3 i = 2 \<or> c_funct3 i = 3 \<or> c_funct3 i = 4 \<or> c_funct3 i = 5 \<or> c_funct3 i = 6 \<or> c_funct3 i = 7"
  using field_lt [of 3] by (intro three_bits; simp add: funct3_def c_funct3_def)+

lemma quadrant_cases: "\<not> is_long i \<Longrightarrow> i AND 3 = 0 \<or> i AND 3 = 1 \<or> i AND 3 = 2"
proof -
  assume "\<not> is_long i"
  then have n: "i AND 3 \<noteq> 3" by (simp add: is_long_def)
  have e: "i AND 3 = field 0 2 i" by (simp add: field_def take_bit_eq_mask mask_eq_exp_minus_1)
  have "unat (i AND 3) < 4" unfolding e using field_lt [of 2 0 i] by simp
  then have "i AND 3 = 0 \<or> i AND 3 = 1 \<or> i AND 3 = 2 \<or> i AND 3 = 3"
    using three_bits [of "i AND 3"] by auto
  with n show ?thesis by blast
qed

lemma custom_is_long: "opcode i = 0x5B \<Longrightarrow> is_long i"
proof -
  assume "opcode i = 0x5B"
  moreover have "take_bit 2 i = take_bit 2 (opcode i)" by (simp add: opcode_def field_def)
  ultimately have "take_bit 2 i = 3" by simp
  moreover have "i AND 3 = take_bit 2 i" by (simp add: take_bit_eq_mask mask_eq_exp_minus_1)
  ultimately show "is_long i" by (simp add: is_long_def)
qed

lemma pc_free_atomic: "decode_atomic i = Some h \<Longrightarrow> pc_free h"
  by (auto simp: decode_atomic_def Let_def split: if_splits)

lemma pc_free_fpfunc:
  "decode_fpfunc i = Some h \<Longrightarrow> funct5 i = 0x04 \<or> funct5 i = 0x1E \<or> funct5 i = 0x1C \<and> funct3 i = 0 \<Longrightarrow> pc_free h"
  by (auto simp: decode_fpfunc_def Let_def split: if_splits)

lemma pc_free_long:
  assumes i: "is_long i" "\<not> host_instr n i" "computed_index_for i = RV32I_BC_FUNCTION"
  shows "pc_free (decode n i :: 'w handler)"
proof (cases "decode_long i :: 'w handler option")
  case None
  then show ?thesis
    using i by (auto simp: decode_def host_instr_def pc_free_fallback)
next
  case (Some h)
  then have "pc_free h"
    using i
    by (auto simp: choose_simps decode_long_def host_instr_def computed_load_def computed_store_def computed_branch_def
      computed_op_imm_def computed_op_def computed_op32_def computed_op_imm32_def computed_fpfunc_def computed_system_def
      decode_load_def decode_store_def decode_branch_def decode_op_imm_def decode_op_def decode_op32_def decode_op_imm32_def
      pc_free_atomic pc_free_fpfunc split: if_splits)
  with Some i show ?thesis by (simp add: decode_def)
qed

lemma pc_free_compressed:
  assumes i: "\<not> is_long i" "\<not> host_instr n i" "computed_index_for i = RV32C_BC_FUNCTION"
  shows "pc_free (decode n i :: 'w handler)"
proof (cases "decode_compressed i :: 'w handler option")
  case None
  then show ?thesis
    using i custom_is_long [of i] by (simp add: decode_def, intro conjI impI pc_free_fallback) auto
next
  case (Some h)
  then have "pc_free h"
    using i quadrant_cases [of i] funct3_cases(2) [of i]
    by (elim disjE) (auto simp: computed_index_for_def Let_def decode_compressed_def host_instr_def computed_c0_def computed_c1_def computed_c2_def computed_c1_alu_def
      decode_c0_def decode_c1_def decode_c2_def split: if_splits)
  with Some i show ?thesis by (simp add: decode_def)
qed

end
