(* ===== verification/Dispatch.thy ===== *)
theory Dispatch
  imports Bytecode_Step
begin

text \<open>
  The dispatcher of the fast simulator (\<open>CPU::simulate\<close> of \<open>cpu_dispatch.cpp\<close> with the counters of
  \<open>instruction_counter.hpp\<close>) and the precise simulator (\<open>CPU::simulate_precise\<close> of \<open>cpu.cpp\<close>), under
  \<open>src/src/libriscv/lib/libriscv\<close>, in one execute segment: leaving the segment is an outcome of a step.  The
  decoder pointer of the source is the index of its entry, so that \<open>decoder += n\<close> adds to the index.  The loops are iterations of one step
  with a bound on the number of steps.
\<close>

unbundle bit_operations_syntax

section \<open>State of the dispatcher\<close>

record 'w Sim =
  sim_pc :: "64 word"
  sim_decoder :: "64 word"
  sim_counter :: "64 word"
  sim_max :: "64 word"
  sim_cpu :: "'w CPU"

datatype 'w outcome =
    Running "'w Sim"
  | New_segment "'w Sim"
  | Returned bool "'w CPU"
  | Raised machine_exception "'w CPU"

definition overflowed :: "'w Sim \<Rightarrow> bool" where
  "overflowed st \<longleftrightarrow> sim_counter st \<ge> sim_max st"

definition entry_at :: "Segment \<Rightarrow> 64 word \<Rightarrow> DecoderData" where
  "entry_at s idx = seg_decoder s (unat idx)"

text \<open>Starting a block at the current decoder entry: the end of \<open>NEXT_BLOCK\<close> and of \<open>continue_segment\<close>.\<close>

definition begin_block :: "Segment \<Rightarrow> 'w Sim \<Rightarrow> 'w Sim" where
  "begin_block s st =
    (let d = entry_at s (sim_decoder st) in
     st\<lparr>sim_pc := sim_pc st + block_bytes d, sim_counter := sim_counter st + of_nat (dd_icount d)\<rparr>)"

definition continue_segment :: "Segment \<Rightarrow> 'w Sim \<Rightarrow> 'w outcome" where
  "continue_segment s st = Running (begin_block s (st\<lparr>sim_decoder := drop_bit 1 (sim_pc st)\<rparr>))"

definition counter_overflow :: "'w Sim \<Rightarrow> 'w outcome" where
  "counter_overflow st =
    Returned (sim_max st = 0) ((sim_cpu st)\<lparr>cpu_pc := sim_pc st, cpu_counter := sim_counter st\<rparr>)"

definition check_jump :: "Segment \<Rightarrow> 'w Sim \<Rightarrow> 'w outcome" where
  "check_jump s st =
    (if overflowed st then counter_overflow st
     else if sim_pc st - m_vaddr_begin s < m_vaddr_end s - m_vaddr_begin s then continue_segment s st
     else New_segment st)"

definition next_block :: "Segment \<Rightarrow> 64 word \<Rightarrow> bool \<Rightarrow> 'w Sim \<Rightarrow> 'w outcome" where
  "next_block s len OF st =
    (let st1 = st\<lparr>sim_pc := sim_pc st + len, sim_decoder := sim_decoder st + signed_drop_bit 1 len\<rparr> in
     if OF \<and> overflowed st1 then check_jump s st1 else Running (begin_block s st1))"

definition perform_branch :: "Segment \<Rightarrow> 64 word \<Rightarrow> 'w Sim \<Rightarrow> 'w outcome" where
  "perform_branch s off st =
    (if \<not> overflowed st then next_block s off False st else check_jump s (st\<lparr>sim_pc := sim_pc st + off\<rparr>))"

definition follow :: "Segment \<Rightarrow> flow \<Rightarrow> 'w Sim \<Rightarrow> 'w outcome" where
  "follow s fl st =
    (case fl of
       NEXT_INSTR \<Rightarrow> Running (st\<lparr>sim_decoder := sim_decoder st + 2\<rparr>)
     | NEXT_C_INSTR \<Rightarrow> Running (st\<lparr>sim_decoder := sim_decoder st + 1\<rparr>)
     | NEXT_BLOCK len OF \<Rightarrow> next_block s len OF st
     | PERFORM_BRANCH off \<Rightarrow> perform_branch s off st
     | OVERFLOW_CHECKED_JUMP t \<Rightarrow> check_jump s (st\<lparr>sim_pc := t\<rparr>))"

section \<open>Bytecodes of the dispatcher\<close>

text \<open>Making the program counter and the counters visible to the host, and reading them back.\<close>

definition expose :: "'w Sim \<Rightarrow> 'w CPU" where
  "expose st = (sim_cpu st)\<lparr>cpu_pc := sim_pc st, cpu_counter := sim_counter st, cpu_max_counter := sim_max st\<rparr>"

definition retrieve_counters :: "'w CPU \<Rightarrow> 'w Sim \<Rightarrow> 'w Sim" where
  "retrieve_counters c st = st\<lparr>sim_counter := cpu_counter c, sim_max := cpu_max_counter c, sim_cpu := c\<rparr>"

definition rv32i_system :: "'w Env \<Rightarrow> Segment \<Rightarrow> 32 word \<Rightarrow> 'w Sim \<Rightarrow> 'w outcome" where
  "rv32i_system E s w st =
    (case SYSTEM E w (expose st) of
       (Inl e, c) \<Rightarrow> Raised e c
     | (Inr _, c) \<Rightarrow>
         let st1 = retrieve_counters c st in
         if overflowed st1 \<or> sim_pc st1 \<noteq> cpu_pc c then check_jump s (st1\<lparr>sim_pc := cpu_pc c\<rparr>)
         else next_block s 4 True st1)"

definition rv32i_syscall :: "'w Env \<Rightarrow> Segment \<Rightarrow> 'w Sim \<Rightarrow> 'w outcome" where
  "rv32i_syscall E s st =
    (case system_call E (reg (expose st) REG_ECALL) (expose st) of
       (Inl e, c) \<Rightarrow> Raised e c
     | (Inr _, c) \<Rightarrow>
         let st1 = retrieve_counters c st in
         if overflowed st1 \<or> sim_pc st1 \<noteq> cpu_pc c then check_jump s (st1\<lparr>sim_pc := cpu_pc c + 4\<rparr>)
         else next_block s 4 False st1)"

definition rv32i_stop :: "'w Sim \<Rightarrow> 'w outcome" where
  "rv32i_stop st = Returned True ((sim_cpu st)\<lparr>cpu_pc := sim_pc st + 4, cpu_counter := sim_counter st\<rparr>)"

definition execute_invalid :: "'w Env \<Rightarrow> 32 word \<Rightarrow> 'w Sim \<Rightarrow> 'w outcome" where
  "execute_invalid E w st =
    (let pc = push_bit 1 (sim_decoder st);
         raise = (\<lambda>c. Raised (MachineException ILLEGAL_OPCODE (unat w)) (c\<lparr>cpu_pc := pc, cpu_counter := sim_counter st\<rparr>))
     in if w = 0 then
          (case cpu_read E 2 pc (sim_cpu st) of
             (Inl _, c) \<Rightarrow> raise c
           | (Inr v, c) \<Rightarrow> if v \<noteq> 0 then New_segment (st\<lparr>sim_pc := pc, sim_cpu := c\<rparr>) else raise c)
        else raise (sim_cpu st))"

section \<open>The loops\<close>

definition dispatch :: "(bytecode \<Rightarrow> 32 word \<Rightarrow> 'w effect) \<Rightarrow> 'w Env \<Rightarrow> Segment \<Rightarrow> 'w Sim \<Rightarrow> 'w outcome" where
  "dispatch FB E s st =
    (let d = entry_at s (sim_decoder st); bc = dd_bytecode d; w = dd_instr d in
     if bc = RV32I_BC_SYSTEM then rv32i_system E s w st
     else if bc = RV32I_BC_SYSCALL then rv32i_syscall E s st
     else if bc = RV32I_BC_STOP then rv32i_stop st
     else
       case bytecode_impl FB bc of
         None \<Rightarrow> execute_invalid E w st
       | Some h \<Rightarrow>
           case h E (sim_pc st) d (sim_cpu st) of
             (Inl e, c) \<Rightarrow> Raised e c
           | (Inr fl, c) \<Rightarrow> follow s fl (st\<lparr>sim_cpu := c\<rparr>))"

fun run_dispatch :: "nat \<Rightarrow> (bytecode \<Rightarrow> 32 word \<Rightarrow> 'w effect) \<Rightarrow> 'w Env \<Rightarrow> Segment \<Rightarrow> 'w Sim \<Rightarrow> 'w outcome" where
  "run_dispatch 0 FB E s st = Running st"
| "run_dispatch (Suc n) FB E s st =
    (case dispatch FB E s st of Running st1 \<Rightarrow> run_dispatch n FB E s st1 | out \<Rightarrow> out)"

definition simulate :: "nat \<Rightarrow> (bytecode \<Rightarrow> 32 word \<Rightarrow> 'w effect) \<Rightarrow> 'w Env \<Rightarrow> Segment \<Rightarrow> 64 word \<Rightarrow> 64 word \<Rightarrow> 64 word \<Rightarrow> 'w CPU \<Rightarrow> 'w outcome" where
  "simulate n FB E s pc inscounter maxcounter c =
    (let st = \<lparr>sim_pc = pc, sim_decoder = 0, sim_counter = inscounter, sim_max = maxcounter, sim_cpu = c\<rparr> in
     if m_vaddr_begin s \<le> pc \<and> pc < m_vaddr_end s then
       (case continue_segment s st of Running st1 \<Rightarrow> run_dispatch n FB E s st1 | out \<Rightarrow> out)
     else New_segment st)"

text \<open>
  One round of the precise simulator: the instruction at the program counter, read from the bytes of the
  segment, is executed by its reference handler; \<open>None\<close> when the program counter leaves the segment.
\<close>

definition precise_step :: "'w Env \<Rightarrow> Segment \<Rightarrow> (64 word \<Rightarrow> 32 word) \<Rightarrow> 'w CPU \<Rightarrow> (unit, 'w CPU) thrown option" where
  "precise_step E s fetch c =
    (if \<not> is_within s (cpu_pc c) 2 then None
     else
       let i = fetch (cpu_pc c) in
       Some (case execute E i c of
         (Inl e, c1) \<Rightarrow> (Inl e, c1)
       | (Inr _, c1) \<Rightarrow> (Inr (), (increment_pc (of_nat (instr_length i)) c1)\<lparr>cpu_counter := cpu_counter c1 + 1\<rparr>)))"

end
