(* ===== verification/Bytecode_Equiv.thy ===== *)
theory Bytecode_Equiv
  imports Bytecode_Step
begin

text \<open>
  Equivalence of the bytecodes with the reference handlers, opcode by opcode and then for every instruction.
\<close>

unbundle bit_operations_syntax

section \<open>Tables\<close>

text \<open>The handler and the rewrite of each bytecode.\<close>

lemma impl_table:
  "bytecode_impl FB RV32C_BC_ADDI = Some rv32c_addi"
  "bytecode_impl FB RV32C_BC_MV = Some rv32c_mv"
  "bytecode_impl FB RV32C_BC_SLLI = Some rv32c_slli"
  "bytecode_impl FB RV32I_BC_ADDI = Some rv32i_addi"
  "bytecode_impl FB RV32I_BC_LI = Some rv32i_li"
  "bytecode_impl FB RV32I_BC_MV = Some rv32i_mv"
  "bytecode_impl FB RV64I_BC_ADDIW = Some rv64i_addiw"
  "bytecode_impl FB RV32I_BC_FAST_JAL = Some rv32i_fast_jal"
  "bytecode_impl FB RV32I_BC_FAST_CALL = Some rv32i_fast_call"
  "bytecode_impl FB RV32I_BC_SLLI = Some rv32i_slli"
  "bytecode_impl FB RV32I_BC_SLTI = Some rv32i_slti"
  "bytecode_impl FB RV32I_BC_SLTIU = Some rv32i_sltiu"
  "bytecode_impl FB RV32I_BC_XORI = Some rv32i_xori"
  "bytecode_impl FB RV32I_BC_SRLI = Some rv32i_srli"
  "bytecode_impl FB RV32I_BC_SRAI = Some rv32i_srai"
  "bytecode_impl FB RV32I_BC_ORI = Some rv32i_ori"
  "bytecode_impl FB RV32I_BC_ANDI = Some rv32i_andi"
  "bytecode_impl FB RV32C_BC_BNEZ = Some rv32c_bnez"
  "bytecode_impl FB RV32C_BC_BEQZ = Some rv32c_beqz"
  "bytecode_impl FB RV32C_BC_JMP = Some rv32c_jmp"
  "bytecode_impl FB RV32C_BC_JAL_ADDIW = Some rv32c_jal_addiw"
  "bytecode_impl FB RV32C_BC_JR = Some rv32c_jr"
  "bytecode_impl FB RV32C_BC_JALR = Some rv32c_jalr"
  "bytecode_impl FB RV32I_BC_JAL = Some rv32i_jal"
  "bytecode_impl FB RV32I_BC_BEQ = Some rv32i_beq"
  "bytecode_impl FB RV32I_BC_BNE = Some rv32i_bne"
  "bytecode_impl FB RV32I_BC_BEQ_FW = Some rv32i_beq_fw"
  "bytecode_impl FB RV32I_BC_BNE_FW = Some rv32i_bne_fw"
  "bytecode_impl FB RV32I_BC_BLT = Some rv32i_blt"
  "bytecode_impl FB RV32I_BC_BGE = Some rv32i_bge"
  "bytecode_impl FB RV32I_BC_BLTU = Some rv32i_bltu"
  "bytecode_impl FB RV32I_BC_BGEU = Some rv32i_bgeu"
  "bytecode_impl FB RV32I_BC_LDW = Some rv32i_ldw"
  "bytecode_impl FB RV32I_BC_LDD = Some rv32i_ldd"
  "bytecode_impl FB RV32I_BC_LDB = Some rv32i_ldb"
  "bytecode_impl FB RV32I_BC_LDBU = Some rv32i_ldbu"
  "bytecode_impl FB RV32I_BC_LDH = Some rv32i_ldh"
  "bytecode_impl FB RV32I_BC_LDHU = Some rv32i_ldhu"
  "bytecode_impl FB RV32I_BC_LDWU = Some rv32i_ldwu"
  "bytecode_impl FB RV32I_BC_STW = Some rv32i_stw"
  "bytecode_impl FB RV32I_BC_STD = Some rv32i_std"
  "bytecode_impl FB RV32I_BC_STB = Some rv32i_stb"
  "bytecode_impl FB RV32I_BC_STH = Some rv32i_sth"
  "bytecode_impl FB RV32C_BC_LDD = Some rv32c_ldd"
  "bytecode_impl FB RV32C_BC_LDW = Some rv32c_ldw"
  "bytecode_impl FB RV32C_BC_STD = Some rv32c_std"
  "bytecode_impl FB RV32C_BC_STW = Some rv32c_stw"
  "bytecode_impl FB RV32F_BC_FLW = Some rv32i_flw"
  "bytecode_impl FB RV32F_BC_FLD = Some rv32i_fld"
  "bytecode_impl FB RV32F_BC_FSW = Some rv32i_fsw"
  "bytecode_impl FB RV32F_BC_FSD = Some rv32i_fsd"
  "bytecode_impl FB RV32I_BC_AUIPC = Some rv32i_auipc"
  "bytecode_impl FB RV32I_BC_LUI = Some rv32i_lui"
  "bytecode_impl FB RV32I_BC_OP_ADD = Some rv32i_op_add"
  "bytecode_impl FB RV32I_BC_OP_SUB = Some rv32i_op_sub"
  "bytecode_impl FB RV32I_BC_OP_SLL = Some rv32i_op_sll"
  "bytecode_impl FB RV32I_BC_OP_SLT = Some rv32i_op_slt"
  "bytecode_impl FB RV32I_BC_OP_SLTU = Some rv32i_op_sltu"
  "bytecode_impl FB RV32I_BC_OP_XOR = Some rv32i_op_xor"
  "bytecode_impl FB RV32I_BC_OP_SRL = Some rv32i_op_srl"
  "bytecode_impl FB RV32I_BC_OP_OR = Some rv32i_op_or"
  "bytecode_impl FB RV32I_BC_OP_AND = Some rv32i_op_and"
  "bytecode_impl FB RV32I_BC_OP_MUL = Some rv32i_op_mul"
  "bytecode_impl FB RV32I_BC_OP_SH1ADD = Some rv32i_op_sh1add"
  "bytecode_impl FB RV32I_BC_OP_SH2ADD = Some rv32i_op_sh2add"
  "bytecode_impl FB RV32I_BC_OP_SH3ADD = Some rv32i_op_sh3add"
  "bytecode_impl FB RV32I_BC_OP_SRA = Some rv32i_op_sra"
  "bytecode_impl FB RV32I_BC_OP_ZEXT_H = Some rv32i_op_zext_h"
  "bytecode_impl FB RV64I_BC_OP_ADDW = Some rv64i_op_addw"
  "bytecode_impl FB RV64I_BC_OP_SUBW = Some rv64i_op_subw"
  "bytecode_impl FB RV64I_BC_OP_MULW = Some rv64i_op_mulw"
  "bytecode_impl FB RV64I_BC_OP_ADD_UW = Some rv64i_op_add_uw"
  "bytecode_impl FB RV64I_BC_SLLIW = Some rv64i_slliw"
  "bytecode_impl FB RV64I_BC_SRLIW = Some rv64i_srliw"
  "bytecode_impl FB RV32I_BC_SEXT_B = Some rv32i_sext_b"
  "bytecode_impl FB RV32I_BC_SEXT_H = Some rv32i_sext_h"
  "bytecode_impl FB RV32I_BC_BSETI = Some rv32i_bseti"
  "bytecode_impl FB RV32I_BC_BEXTI = Some rv32i_bexti"
  "bytecode_impl FB RV32I_BC_JALR = Some rv32i_jalr"
  "bytecode_impl FB RV64I_BC_SRAIW = Some rv64i_sraiw"
  "bytecode_impl FB RV64I_BC_OP_SH1ADD_UW = Some rv64i_op_sh1add_uw"
  "bytecode_impl FB RV64I_BC_OP_SH2ADD_UW = Some rv64i_op_sh2add_uw"
  "bytecode_impl FB RV32I_BC_OP_DIV = Some rv32i_op_div"
  "bytecode_impl FB RV32I_BC_OP_DIVU = Some rv32i_op_divu"
  "bytecode_impl FB RV32I_BC_OP_REM = Some rv32i_op_rem"
  "bytecode_impl FB RV32I_BC_OP_REMU = Some rv32i_op_remu"
  "bytecode_impl FB RV32C_BC_SRLI = Some rv32c_srli"
  "bytecode_impl FB RV32C_BC_ADD = Some rv32c_add"
  "bytecode_impl FB RV32C_BC_XOR = Some rv32c_xor"
  "bytecode_impl FB RV32C_BC_OR = Some rv32c_or"
  "bytecode_impl FB RV32C_BC_ANDI = Some rv32c_andi"
  "bytecode_impl FB RV32C_BC_FUNCTION = Some rv32c_func"
  "bytecode_impl FB RV32I_BC_FUNCTION = Some execute_decoded_function"
  "bytecode_impl FB RV32I_BC_FUNCBLOCK = Some execute_function_block"
  by (simp_all only: bytecode_impl_def bytecode.case)

lemma rewrite_table:
  "threaded_rewrite u s RV32I_BC_INVALID pc i = Some (RV32I_BC_INVALID, i)"
  "threaded_rewrite u s RV32I_BC_FUNCTION pc i = Some (RV32I_BC_FUNCTION, i)"
  "threaded_rewrite u s RV32I_BC_FUNCBLOCK pc i = Some (RV32I_BC_FUNCBLOCK, i)"
  "threaded_rewrite u s RV32I_BC_STOP pc i = Some (RV32I_BC_STOP, i)"
  "threaded_rewrite u s RV32I_BC_SYSTEM pc i = Some (RV32I_BC_SYSTEM, i)"
  "threaded_rewrite u s RV32F_BC_FMADD pc i = Some (RV32F_BC_FMADD, i)"
  "threaded_rewrite u s RV32C_BC_FUNCTION pc i = Some (RV32C_BC_FUNCTION, i)"
  "threaded_rewrite u s RV32I_BC_SYSCALL pc i = Some (RV32I_BC_SYSCALL, i)"
  "threaded_rewrite u s RV32I_BC_LUI pc i = Some (RV32I_BC_LUI, FasterJtype (rd i) (push_bit 4 (field 12 20 i)))"
  "threaded_rewrite u s RV32I_BC_AUIPC pc i = Some (RV32I_BC_AUIPC, FasterJtype (rd i) (push_bit 4 (field 12 20 i)))"
  "threaded_rewrite u s RV32I_BC_MV pc i = Some (RV32I_BC_MV, FasterMove u (rd i) (rs1 i))"
  "threaded_rewrite u s RV32I_BC_LI pc i = Some (RV32I_BC_LI, FasterImmediate u (rd i) (Itype_signed_imm i))"
  "threaded_rewrite u s RV64I_BC_SLLIW pc i = Some (RV64I_BC_SLLIW, rewrite_itype (Itype_imm i AND 31) i)"
  "threaded_rewrite u s RV64I_BC_SRLIW pc i = Some (RV64I_BC_SRLIW, rewrite_itype (Itype_imm i AND 31) i)"
  "threaded_rewrite u s RV64I_BC_SRAIW pc i = Some (RV64I_BC_SRAIW, rewrite_itype (Itype_imm i AND 31) i)"
  "threaded_rewrite u s RV32I_BC_SLLI pc i = Some (RV32I_BC_SLLI, rewrite_itype (Itype_imm i AND 63) i)"
  "threaded_rewrite u s RV32I_BC_SRLI pc i = Some (RV32I_BC_SRLI, rewrite_itype (Itype_imm i AND 63) i)"
  "threaded_rewrite u s RV32I_BC_SRAI pc i = Some (RV32I_BC_SRAI, rewrite_itype (Itype_imm i AND 63) i)"
  "threaded_rewrite u s RV32I_BC_BSETI pc i = Some (RV32I_BC_BSETI, rewrite_itype (Itype_imm i AND 63) i)"
  "threaded_rewrite u s RV32I_BC_BEXTI pc i = Some (RV32I_BC_BEXTI, rewrite_itype (Itype_imm i AND 63) i)"
  "threaded_rewrite u s RV64I_BC_ADDIW pc i = Some (RV64I_BC_ADDIW, rewrite_itype (Itype_signed_imm i) i)"
  "threaded_rewrite u s RV32I_BC_SEXT_B pc i = Some (RV32I_BC_SEXT_B, rewrite_itype (Itype_signed_imm i) i)"
  "threaded_rewrite u s RV32I_BC_SEXT_H pc i = Some (RV32I_BC_SEXT_H, rewrite_itype (Itype_signed_imm i) i)"
  "threaded_rewrite u s RV32I_BC_ADDI pc i = Some (RV32I_BC_ADDI, rewrite_itype (Itype_signed_imm i) i)"
  "threaded_rewrite u s RV32I_BC_SLTI pc i = Some (RV32I_BC_SLTI, rewrite_itype (Itype_signed_imm i) i)"
  "threaded_rewrite u s RV32I_BC_SLTIU pc i = Some (RV32I_BC_SLTIU, rewrite_itype (Itype_signed_imm i) i)"
  "threaded_rewrite u s RV32I_BC_XORI pc i = Some (RV32I_BC_XORI, rewrite_itype (Itype_signed_imm i) i)"
  "threaded_rewrite u s RV32I_BC_ORI pc i = Some (RV32I_BC_ORI, rewrite_itype (Itype_signed_imm i) i)"
  "threaded_rewrite u s RV32I_BC_ANDI pc i = Some (RV32I_BC_ANDI, rewrite_itype (Itype_signed_imm i) i)"
  "threaded_rewrite u s RV32I_BC_LDWU pc i = Some (RV32I_BC_LDWU, rewrite_itype (Itype_signed_imm i) i)"
  "threaded_rewrite u s RV32I_BC_LDD pc i = Some (RV32I_BC_LDD, rewrite_itype (Itype_signed_imm i) i)"
  "threaded_rewrite u s RV32I_BC_LDB pc i = Some (RV32I_BC_LDB, rewrite_itype (Itype_signed_imm i) i)"
  "threaded_rewrite u s RV32I_BC_LDBU pc i = Some (RV32I_BC_LDBU, rewrite_itype (Itype_signed_imm i) i)"
  "threaded_rewrite u s RV32I_BC_LDH pc i = Some (RV32I_BC_LDH, rewrite_itype (Itype_signed_imm i) i)"
  "threaded_rewrite u s RV32I_BC_LDHU pc i = Some (RV32I_BC_LDHU, rewrite_itype (Itype_signed_imm i) i)"
  "threaded_rewrite u s RV32I_BC_LDW pc i = Some (RV32I_BC_LDW, rewrite_itype (Itype_signed_imm i) i)"
  "threaded_rewrite u s RV32F_BC_FLW pc i = Some (RV32F_BC_FLW, rewrite_itype (Itype_signed_imm i) i)"
  "threaded_rewrite u s RV32F_BC_FLD pc i = Some (RV32F_BC_FLD, rewrite_itype (Itype_signed_imm i) i)"
  "threaded_rewrite u s RV32I_BC_JALR pc i = Some (RV32I_BC_JALR, rewrite_itype (Itype_signed_imm i) i)"
  "threaded_rewrite u s RV32I_BC_STD pc i = Some (RV32I_BC_STD, rewrite_stype i)"
  "threaded_rewrite u s RV32I_BC_STB pc i = Some (RV32I_BC_STB, rewrite_stype i)"
  "threaded_rewrite u s RV32I_BC_STH pc i = Some (RV32I_BC_STH, rewrite_stype i)"
  "threaded_rewrite u s RV32I_BC_STW pc i = Some (RV32I_BC_STW, rewrite_stype i)"
  "threaded_rewrite u s RV32F_BC_FSW pc i = Some (RV32F_BC_FSW, rewrite_stype i)"
  "threaded_rewrite u s RV32F_BC_FSD pc i = Some (RV32F_BC_FSD, rewrite_stype i)"
  "threaded_rewrite u s RV32I_BC_BEQ pc i = Some (rewrite_branch s RV32I_BC_BEQ pc i)"
  "threaded_rewrite u s RV32I_BC_BNE pc i = Some (rewrite_branch s RV32I_BC_BNE pc i)"
  "threaded_rewrite u s RV32I_BC_BLT pc i = Some (rewrite_branch s RV32I_BC_BLT pc i)"
  "threaded_rewrite u s RV32I_BC_BGE pc i = Some (rewrite_branch s RV32I_BC_BGE pc i)"
  "threaded_rewrite u s RV32I_BC_BLTU pc i = Some (rewrite_branch s RV32I_BC_BLTU pc i)"
  "threaded_rewrite u s RV32I_BC_BGEU pc i = Some (rewrite_branch s RV32I_BC_BGEU pc i)"
  "threaded_rewrite u s RV64I_BC_OP_ADDW pc i = Some (RV64I_BC_OP_ADDW, rewrite_optype i)"
  "threaded_rewrite u s RV64I_BC_OP_SUBW pc i = Some (RV64I_BC_OP_SUBW, rewrite_optype i)"
  "threaded_rewrite u s RV64I_BC_OP_MULW pc i = Some (RV64I_BC_OP_MULW, rewrite_optype i)"
  "threaded_rewrite u s RV64I_BC_OP_ADD_UW pc i = Some (RV64I_BC_OP_ADD_UW, rewrite_optype i)"
  "threaded_rewrite u s RV64I_BC_OP_SH1ADD_UW pc i = Some (RV64I_BC_OP_SH1ADD_UW, rewrite_optype i)"
  "threaded_rewrite u s RV64I_BC_OP_SH2ADD_UW pc i = Some (RV64I_BC_OP_SH2ADD_UW, rewrite_optype i)"
  "threaded_rewrite u s RV32I_BC_OP_ADD pc i = Some (RV32I_BC_OP_ADD, rewrite_optype i)"
  "threaded_rewrite u s RV32I_BC_OP_SUB pc i = Some (RV32I_BC_OP_SUB, rewrite_optype i)"
  "threaded_rewrite u s RV32I_BC_OP_SLL pc i = Some (RV32I_BC_OP_SLL, rewrite_optype i)"
  "threaded_rewrite u s RV32I_BC_OP_SLT pc i = Some (RV32I_BC_OP_SLT, rewrite_optype i)"
  "threaded_rewrite u s RV32I_BC_OP_SLTU pc i = Some (RV32I_BC_OP_SLTU, rewrite_optype i)"
  "threaded_rewrite u s RV32I_BC_OP_XOR pc i = Some (RV32I_BC_OP_XOR, rewrite_optype i)"
  "threaded_rewrite u s RV32I_BC_OP_SRL pc i = Some (RV32I_BC_OP_SRL, rewrite_optype i)"
  "threaded_rewrite u s RV32I_BC_OP_SRA pc i = Some (RV32I_BC_OP_SRA, rewrite_optype i)"
  "threaded_rewrite u s RV32I_BC_OP_OR pc i = Some (RV32I_BC_OP_OR, rewrite_optype i)"
  "threaded_rewrite u s RV32I_BC_OP_AND pc i = Some (RV32I_BC_OP_AND, rewrite_optype i)"
  "threaded_rewrite u s RV32I_BC_OP_MUL pc i = Some (RV32I_BC_OP_MUL, rewrite_optype i)"
  "threaded_rewrite u s RV32I_BC_OP_DIV pc i = Some (RV32I_BC_OP_DIV, rewrite_optype i)"
  "threaded_rewrite u s RV32I_BC_OP_DIVU pc i = Some (RV32I_BC_OP_DIVU, rewrite_optype i)"
  "threaded_rewrite u s RV32I_BC_OP_REM pc i = Some (RV32I_BC_OP_REM, rewrite_optype i)"
  "threaded_rewrite u s RV32I_BC_OP_REMU pc i = Some (RV32I_BC_OP_REMU, rewrite_optype i)"
  "threaded_rewrite u s RV32I_BC_OP_ZEXT_H pc i = Some (RV32I_BC_OP_ZEXT_H, rewrite_optype i)"
  "threaded_rewrite u s RV32I_BC_OP_SH1ADD pc i = Some (RV32I_BC_OP_SH1ADD, rewrite_optype i)"
  "threaded_rewrite u s RV32I_BC_OP_SH2ADD pc i = Some (RV32I_BC_OP_SH2ADD, rewrite_optype i)"
  "threaded_rewrite u s RV32I_BC_OP_SH3ADD pc i = Some (RV32I_BC_OP_SH3ADD, rewrite_optype i)"
  "threaded_rewrite u s RV32I_BC_JAL pc i = Some (rewrite_jal s pc i)"
  by (simp_all add: threaded_rewrite_def rewrite_long_def bytecode_groups)

lemma rewrite_c_table:
  "threaded_rewrite u s RV32C_BC_ADDI pc i = Some (RV32C_BC_ADDI, rewrite_c_addi i)"
  "threaded_rewrite u s RV32C_BC_LI pc i = Some (RV32C_BC_ADDI, FasterItype (CI_rd i) 0 (CI_signed_imm i))"
  "threaded_rewrite u s RV32C_BC_MV pc i = Some (RV32C_BC_MV, FasterMove u (CR_rd i) (CR_rs2 i))"
  "threaded_rewrite u s RV32C_BC_SLLI pc i = Some (RV32C_BC_SLLI, FasterItype (CI_rd i) 0 (CI_shift64_imm i))"
  "threaded_rewrite u s RV32C_BC_SRLI pc i = Some (RV32C_BC_SRLI, FasterItype (CA_srd i + 8) (get_rs2 u) (CAB_shift64_imm i))"
  "threaded_rewrite u s RV32C_BC_ANDI pc i = Some (RV32C_BC_ANDI, FasterItype (CA_srd i + 8) (get_rs2 u) (CAB_signed_imm i))"
  "threaded_rewrite u s RV32C_BC_ADD pc i = Some (RV32C_BC_ADD, FasterItype (CR_rd i) (CR_rs2 i) u)"
  "threaded_rewrite u s RV32C_BC_XOR pc i = Some (RV32C_BC_XOR, FasterItype (CA_srd i + 8) (srs2 i + 8) u)"
  "threaded_rewrite u s RV32C_BC_OR pc i = Some (RV32C_BC_OR, FasterItype (CA_srd i + 8) (srs2 i + 8) u)"
  "threaded_rewrite u s RV32C_BC_BEQZ pc i = Some (rewrite_c_branch s RV32C_BC_BEQZ pc i)"
  "threaded_rewrite u s RV32C_BC_BNEZ pc i = Some (rewrite_c_branch s RV32C_BC_BNEZ pc i)"
  "threaded_rewrite u s RV32C_BC_JAL_ADDIW pc i = Some (RV32C_BC_JAL_ADDIW, FasterItype (CI_rd i) (CI_rd i) (CI_signed_imm i))"
  "threaded_rewrite u s RV32C_BC_JMP pc i = Some (rewrite_c_jmp s pc i)"
  "threaded_rewrite u s RV32C_BC_JALR pc i = Some (RV32C_BC_JALR, of_nat (CR_rd i))"
  "threaded_rewrite u s RV32C_BC_JR pc i = Some (RV32C_BC_JR, of_nat (CR_rd i))"
  "threaded_rewrite u s RV32C_BC_LDD pc i = Some (RV32C_BC_LDD, rewrite_c_ldd i)"
  "threaded_rewrite u s RV32C_BC_STD pc i = Some (RV32C_BC_STD, rewrite_c_std i)"
  "threaded_rewrite u s RV32C_BC_LDW pc i = Some (RV32C_BC_LDW, rewrite_c_ldw i)"
  "threaded_rewrite u s RV32C_BC_STW pc i = Some (RV32C_BC_STW, rewrite_c_stw i)"
  by (simp_all add: threaded_rewrite_def rewrite_long_def rewrite_compressed_def bytecode_groups)

section \<open>Opcode by opcode\<close>

lemmas table = impl_table rewrite_table rewrite_c_table
lemmas view_simps = rewrite_itype_def rewrite_stype_def rewrite_optype_def

lemma imm12 [simp]: "take_bit 16 (Itype_imm i) = Itype_imm i"
  by (rule bit_word_eqI) (auto simp: Itype_imm_def imm16_bits)

definition plain :: "bytecode \<times> 32 word \<Rightarrow> bool" where
  "plain bw \<longleftrightarrow> fst bw \<noteq> RV32I_BC_INVALID \<and> fst bw \<noteq> RV32I_BC_FUNCTION \<and> fst bw \<noteq> RV32C_BC_FUNCTION"

lemmas run_simps = run_bytecode_def settle_simps table view_simps plain_def

lemma plain_computed:
  "threaded_rewrite u s b a i = Some bw \<Longrightarrow> plain bw \<Longrightarrow> b \<noteq> RV32I_BC_FUNCTION \<and> b \<noteq> RV32C_BC_FUNCTION \<and> b \<noteq> RV32I_BC_INVALID"
  by (auto simp: plain_def rewrite_table)

lemma run_load:
  assumes i: "is_long i" "opcode i = RV32I_LOAD"
    and r: "threaded_rewrite u s (computed_index_for i) a i = Some bw" "plain bw"
  shows "run_bytecode FB E a k bw c = Some (reference_step E a i c)"
  using i r
  by (auto simp: choose_simps computed_load_def run_simps load_instr_def
      rv32i_ldb_def rv32i_ldh_def rv32i_ldw_def rv32i_ldd_def rv32i_ldbu_def rv32i_ldhu_def rv32i_ldwu_def
      ref_simps decode_load_def LOAD_I8_def LOAD_I16_def LOAD_I32_def LOAD_I64_def LOAD_U8_def LOAD_U16_def LOAD_U32_def RVIMM_I_def
      split: if_splits)

lemma run_store:
  assumes i: "is_long i" "opcode i = RV32I_STORE"
    and r: "threaded_rewrite u s (computed_index_for i) a i = Some bw" "plain bw"
  shows "run_bytecode FB E a k bw c = Some (reference_step E a i c)"
  using i r
  by (auto simp: choose_simps computed_store_def run_simps store_instr_def
      rv32i_stb_def rv32i_sth_def rv32i_stw_def rv32i_std_def sext_def
      ref_simps decode_store_def STORE_I8_def STORE_I8_IMM_def STORE_I16_IMM_def STORE_I32_IMM_def STORE_I64_IMM_def RVIMM_S_def
      split: if_splits)

lemma run_lui:
  assumes i: "is_long i" "opcode i = RV32I_LUI"
    and r: "threaded_rewrite u s (computed_index_for i) a i = Some bw" "plain bw"
  shows "run_bytecode FB E a k bw c = Some (reference_step E a i c)"
  using i r
  by (auto simp: choose_simps run_simps rv32i_lui_def ref_simps LUI_def upper_imm_def split: if_splits)

lemma run_auipc:
  assumes i: "is_long i" "opcode i = RV32I_AUIPC"
    and r: "threaded_rewrite u s (computed_index_for i) a i = Some bw" "plain bw"
  shows "run_bytecode FB E a k bw c = Some (reference_step E a i c)"
  using i r
  by (auto simp: choose_simps run_simps rv32i_auipc_def ref_simps AUIPC_def upper_imm_def split: if_splits)

lemma run_float_load:
  assumes i: "is_long i" "opcode i = RV32F_LOAD"
    and r: "threaded_rewrite u s (computed_index_for i) a i = Some bw" "plain bw"
  shows "run_bytecode FB E a k bw c = Some (reference_step E a i c)"
  using i r
  by (auto simp: choose_simps run_simps rv32i_flw_def rv32i_fld_def ref_simps FLW_def FLD_def RVIMM_I_def split: if_splits)

lemma run_float_store:
  assumes i: "is_long i" "opcode i = RV32F_STORE"
    and r: "threaded_rewrite u s (computed_index_for i) a i = Some bw" "plain bw"
  shows "run_bytecode FB E a k bw c = Some (reference_step E a i c)"
  using i r
  by (auto simp: choose_simps run_simps rv32i_fsw_def rv32i_fsd_def ref_simps FSW_def FSD_def RVIMM_S_def split: if_splits)

lemma run_op_imm32:
  assumes i: "is_long i" "opcode i = RV64I_OP_IMM32"
    and r: "threaded_rewrite u s (computed_index_for i) a i = Some bw" "plain bw"
  shows "run_bytecode FB E a k bw c = Some (reference_step E a i c)"
  using i r
  by (auto simp: choose_simps computed_op_imm32_def run_simps imm_instr_def shift_instr_def
      rv64i_addiw_def rv64i_slliw_def rv64i_srliw_def
      ref_simps decode_op_imm32_def OP_IMM32_ADDIW_def OP_IMM32_SLLIW_def OP_IMM32_SRLIW_def shift_imm_def
      split: if_splits)

lemma signed_imm_zero: "Itype_signed_imm i = 0 \<longleftrightarrow> Itype_imm i = 0"
proof
  assume "Itype_signed_imm i = 0"
  then have b: "\<not> bit (Itype_signed_imm i) n" for n by simp
  show "Itype_imm i = 0"
  proof (rule bit_word_eqI)
    fix n assume "n < LENGTH(32)"
    have "n < 12 \<Longrightarrow> \<not> bit (Itype_imm i) n"
      using b [of n] by (auto simp: Itype_signed_imm_def imm16_bits simp del: push_bit_Suc)
    moreover have "12 \<le> n \<Longrightarrow> \<not> bit (Itype_imm i) n" by (simp add: Itype_imm_def bit_field)
    ultimately show "bit (Itype_imm i) n = bit 0 n" by (cases "n < 12") auto
  qed
qed (simp add: Itype_signed_imm_def)

lemma sint_sext [simp]: "sint (sext w) = sint w"
  by (simp add: sext_def sint_up_scast is_up)

lemma mul_words: "word_of_int (sint a * sint b) = a * (b :: 'a::len word)"
  by (subst wi_hom_mult [symmetric]) simp

lemma run_op:
  assumes i: "is_long i" "opcode i = RV32I_OP"
    and r: "threaded_rewrite u s (computed_index_for i) a i = Some bw" "plain bw" and d: "\<not> rem_diverges i c"
  shows "run_bytecode FB E a k bw c = Some (reference_step E a i c)"
proof -
  let ?code = "jumptable_friendly_op i"
  have c: "computed_index_for i = computed_op i" using i by (simp add: choose_simps)
  have n: "computed_op i \<noteq> RV32I_BC_FUNCTION" using plain_computed [OF r] c by simp
  have z: "rd i \<noteq> 0"
  proof
    assume "rd i = 0"
    with n show False by (simp add: computed_op_def)
  qed
  have "?code = 0 \<or> ?code = 0x200 \<or> ?code = 1 \<or> ?code = 2 \<or> ?code = 3 \<or> ?code = 4 \<or> ?code = 5 \<or> ?code = 6 \<or> ?code = 7 \<or>
      ?code = 0x10 \<or> ?code = 0x14 \<or> ?code = 0x15 \<or> ?code = 0x16 \<or> ?code = 0x17 \<or> ?code = 0x44 \<or> ?code = 0x102 \<or> ?code = 0x104 \<or>
      ?code = 0x106 \<or> ?code = 0x205"
  proof (rule ccontr)
    assume "\<not> ?thesis"
    then have "computed_op i = RV32I_BC_FUNCTION" using z by (simp add: computed_op_def)
    with n show False by simp
  qed
  then show ?thesis
    using i r d z unfolding c
    by (elim disjE) (auto simp: computed_op_def run_simps OP_INSTR_def opcode_defs
      rv32i_op_add_def rv32i_op_sub_def rv32i_op_sll_def rv32i_op_slt_def rv32i_op_sltu_def rv32i_op_xor_def rv32i_op_srl_def rv32i_op_or_def
      rv32i_op_and_def rv32i_op_mul_def rv32i_op_div_def rv32i_op_divu_def rv32i_op_rem_def rv32i_op_remu_def rv32i_op_zext_h_def
      rv32i_op_sh1add_def rv32i_op_sh2add_def rv32i_op_sh3add_def rv32i_op_sra_def rem_diverges_def mul_words
      ref_simps decode_op_def OP_ADD_def OP_SUB_def OP_def op_alu_def op_div_def op_divu_def op_rem_def op_remu_def finish_op_def Let_def)
qed

lemma ucast_lo32 [simp]: "(ucast (lo32 x) :: 16 word) = ucast x"
  by (rule bit_word_eqI) (simp add: lo32_def bit_simps)

lemma add_uw: "(ucast (lo32 x) :: 64 word) + y = y + ucast (lo32 x)"
  by simp

lemma run_op32:
  assumes i: "is_long i" "opcode i = RV64I_OP32"
    and r: "threaded_rewrite u s (computed_index_for i) a i = Some bw" "plain bw" and d: "\<not> clobbers_zero i"
  shows "run_bytecode FB E a k bw c = Some (reference_step E a i c)"
proof -
  let ?code = "jumptable_friendly_op i"
  have c: "computed_index_for i = computed_op32 i" using i by (simp add: choose_simps)
  have "?code = 0 \<or> ?code = 0x200 \<or> ?code = 0x10 \<or> ?code = 0x40 \<or> ?code = 0x44"
  proof (rule ccontr)
    assume "\<not> ?thesis"
    then have "computed_op32 i = RV32I_BC_FUNCTION" by (simp add: computed_op32_def)
    with plain_computed [OF r] c show False by simp
  qed
  then show ?thesis
    using i r d unfolding c
    by (elim disjE) (auto simp: computed_op32_def run_simps OP_INSTR_def opcode_defs clobbers_zero_def mul_words
      rv64i_op_addw_def rv64i_op_subw_def rv64i_op_mulw_def rv64i_op_add_uw_def rv32i_op_zext_h_def
      ref_simps decode_op32_def OP32_ADDW_def OP32_def op_alu32_def finish_op_def Let_def add_uw)
qed

lemma run_op_imm:
  assumes i: "is_long i" "opcode i = RV32I_OP_IMM"
    and r: "threaded_rewrite u s (computed_index_for i) a i = Some bw" "plain bw"
  shows "run_bytecode FB E a k bw c = Some (reference_step E a i c)"
proof -
  have c: "computed_index_for i = computed_op_imm i" using i by (simp add: choose_simps)
  have n: "computed_op_imm i \<noteq> RV32I_BC_FUNCTION" using plain_computed [OF r] c by simp
  have z: "rd i \<noteq> 0"
  proof
    assume "rd i = 0"
    with n show False by (simp add: computed_op_imm_def)
  qed
  note d = decode_op_imm_def OP_IMM_LI_def OP_MV_def OP_IMM_ADDI_def OP_IMM_SLLI_def OP_IMM_SRLI_def OP_IMM_ANDI_def OP_IMM_def op_imm_def
      finish_op_def RVIMM_I_def Let_def
  note b = rv32i_li_def rv32i_mv_def rv32i_addi_def rv32i_slli_def rv32i_sext_b_def rv32i_sext_h_def rv32i_bseti_def rv32i_slti_def
      rv32i_sltiu_def rv32i_xori_def rv32i_srli_def rv32i_srai_def rv32i_bexti_def rv32i_ori_def rv32i_andi_def imm_instr_def shift_instr_def
  show ?thesis
  proof (cases "funct3 i = 1 \<or> funct3 i = 5")
    case False
    with funct3_cases(1) [of i] have
      "funct3 i = 0 \<or> funct3 i = 2 \<or> funct3 i = 3 \<or> funct3 i = 4 \<or> funct3 i = 6 \<or> funct3 i = 7" by blast
    then show ?thesis
      using i r z unfolding c
      by (elim disjE) (auto simp: computed_op_imm_def run_simps b opcode_defs signed_imm_zero ref_simps d)
  next
    case True
    then show ?thesis
    proof
      assume f: "funct3 i = 1"
      have "high_bits i = 0 \<or> Itype_imm i = 0x604 \<or> Itype_imm i = 0x605 \<or> high_bits i = 0x280"
      proof (rule ccontr)
        assume "\<not> ?thesis"
        with n f z show False by (simp add: computed_op_imm_def)
      qed
      then show ?thesis
        using i r z f unfolding c
        by (elim disjE) (auto simp: computed_op_imm_def run_simps b opcode_defs ref_simps d high_bits_def)
    next
      assume f: "funct3 i = 5"
      have "high_bits i = 0 \<or> is_srai i \<or> high_bits i = 0x480"
      proof (rule ccontr)
        assume "\<not> ?thesis"
        with n f z show False by (simp add: computed_op_imm_def)
      qed
      then show ?thesis
        using i r z f unfolding c
        by (elim disjE) (auto simp: computed_op_imm_def run_simps b opcode_defs ref_simps d high_bits_def is_srai_def is_rori_def)
    qed
  qed
qed

lemma parity_minus: "even y \<Longrightarrow> (x - y) AND 1 = x AND (1 :: 64 word)"
  by (simp add: and_one_eq mod_2_eq_odd)

lemma jump_even:
  "x AND 1 = 0 \<Longrightarrow> jump (x - 4) c = retire (at_pc (x - 4) c)"
  "x AND 1 = 0 \<Longrightarrow> jump (x - 2) c = retire (at_pc (x - 2) c)"
  by (simp_all add: jump_def parity_minus at_pc_def)

lemma block_bytes_0 [simp]: "block_bytes \<lparr>dd_bytecode = b, dd_idxend = 0, dd_icount = n, dd_instr = w\<rparr> = 0"
  by (simp add: block_bytes_def)

lemma run_branch:
  assumes i: "is_long i" "opcode i = RV32I_BRANCH"
    and r: "threaded_rewrite u s (computed_index_for i) a i = Some bw" "plain bw"
  shows "run_bytecode FB E a 0 bw c = Some (reference_step E a i c)"
proof -
  have c: "computed_index_for i = computed_branch i" using i by (simp add: choose_simps)
  have "funct3 i = 0 \<or> funct3 i = 1 \<or> funct3 i = 4 \<or> funct3 i = 5 \<or> funct3 i = 6 \<or> funct3 i = 7"
  proof (rule ccontr)
    assume "\<not> ?thesis"
    then have "computed_branch i = RV32I_BC_INVALID" by (simp add: computed_branch_def)
    with plain_computed [OF r] c show False by simp
  qed
  then show ?thesis
    using i r unfolding c
    by (elim disjE) (auto simp: computed_branch_def run_simps rewrite_branch_def opcode_defs Let_def branch_instr_def forward_branch_instr_def
      rv32i_beq_def rv32i_bne_def rv32i_blt_def rv32i_bge_def rv32i_bltu_def rv32i_bgeu_def rv32i_beq_fw_def rv32i_bne_fw_def
      ref_simps decode_branch_def branch_if_def RVIMM_B_def jump_even
      BRANCH_EQ_def BRANCH_NE_def BRANCH_LT_def BRANCH_GE_def BRANCH_LTU_def BRANCH_GEU_def split: if_splits)
qed

lemma ucast_sext [simp]: "(ucast (sext w) :: 32 word) = w"
  by (rule bit_word_eqI) (auto simp: sext_def bit_simps)

lemma run_jal:
  assumes i: "is_long i" "opcode i = RV32I_JAL"
    and r: "threaded_rewrite u s (computed_index_for i) a i = Some bw" "plain bw"
  shows "run_bytecode FB E a 0 bw c = Some (reference_step E a i c)"
  using i r
  by (auto simp: choose_simps run_simps rewrite_jal_def Let_def rv32i_jal_def rv32i_fast_jal_def rv32i_fast_call_def
      ref_simps JAL_def JMPI_def jump_even split: if_splits)

lemma even_mask: "x AND 1 = 0 \<Longrightarrow> x AND - 2 = (x :: 64 word)"
proof -
  assume "x AND 1 = 0"
  then have "even x" by (simp add: and_one_eq mod_2_eq_odd)
  then have "x AND NOT 1 = x" by (intro bit_word_eqI) (auto simp: bit_simps bit_0 intro: gr0I)
  then show "x AND - 2 = x" by simp
qed

lemma run_jalr:
  assumes i: "is_long i" "opcode i = RV32I_JALR"
    and r: "threaded_rewrite u s (computed_index_for i) a i = Some bw" "plain bw" and d: "\<not> odd_target a i c"
  shows "run_bytecode FB E a 0 bw c = Some (reference_step E a i c)"
  using i r d
  by (auto simp: choose_simps run_simps rv32i_jalr_def ref_simps JALR_def jump_even odd_target_def even_mask RVIMM_I_def split: if_splits)

lemma c_opcode_eq:
  "c_opcode i = 0 \<longleftrightarrow> c_funct3 i = 0 \<and> i AND 3 = 0"
  "c_opcode i = 0x6001 \<longleftrightarrow> c_funct3 i = 3 \<and> i AND 3 = 1"
proof -
  have m: "(0xE003 :: 32 word) = push_bit 13 (mask 3) OR mask 2" "(3 :: 32 word) = mask 2" by (simp_all add: mask_eq_exp_minus_1)
  have o: "c_opcode i = push_bit 13 (c_funct3 i) OR (i AND 3)"
    unfolding c_opcode_def c_funct3_def half0_def m by (rule bit_word_eqI) (auto simp: bit_field bit_simps)
  have f: "c_funct3 i = drop_bit 13 (c_opcode i)" and q: "i AND 3 = take_bit 2 (c_opcode i)"
    unfolding c_opcode_def c_funct3_def half0_def m by (rule bit_word_eqI, auto simp: bit_field bit_simps)+
  show "c_opcode i = 0 \<longleftrightarrow> c_funct3 i = 0 \<and> i AND 3 = 0"
    using o f q by auto
  show "c_opcode i = 0x6001 \<longleftrightarrow> c_funct3 i = 3 \<and> i AND 3 = 1"
  proof
    assume "c_opcode i = 0x6001"
    with f q show "c_funct3 i = 3 \<and> i AND 3 = 1" by simp
  next
    assume "c_funct3 i = 3 \<and> i AND 3 = 1"
    with o show "c_opcode i = 0x6001" by simp
  qed
qed

lemma run_c0:
  assumes i: "\<not> is_long i" "i AND 3 = 0"
    and r: "threaded_rewrite u s (computed_index_for i) a i = Some bw" "plain bw"
  shows "run_bytecode FB E a k bw c = Some (reference_step E a i c)"
proof -
  have c: "computed_index_for i = computed_c0 i" using i by (simp add: choose_simps)
  note p = plain_computed [OF r, unfolded c]
  have "c_funct3 i = 0 \<or> c_funct3 i = 2 \<or> c_funct3 i = 6 \<or> c_funct3 i = 7"
    using p by (rule_tac ccontr) (simp add: computed_c0_def Let_def)
  then show ?thesis
    using i r p unfolding c
    by (elim disjE) (auto simp: computed_c0_def run_simps Let_def c_opcode_eq
      rewrite_c_addi_def rewrite_c_ldw_def rewrite_c_stw_def rewrite_c_std_def
      rv32c_addi_def imm_instr_def rv32c_ldw_def load_instr_def rv32c_stw_def rv32c_std_def store_instr_def
      ref_simps decode_c0_def C0_ADDI4SPN_def C0_REG_LW_def C0_REG_SW_def C0_REG_SD_def cireg_def REG_SP_def split: if_splits)
qed

lemma fi_CJ [simp]: "fi_signed_imm (CJ_signed_imm i) = CJ_signed_imm i"
  by (simp add: fi_signed_imm_def)

lemma run_c1:
  assumes i: "\<not> is_long i" "i AND 3 = 1"
    and r: "threaded_rewrite u s (computed_index_for i) a i = Some bw" "plain bw"
    and d: "\<not> clobbers_zero i" "reg c 0 = 0" and k: "ends_block i \<longrightarrow> k = 0"
  shows "run_bytecode FB E a k bw c = Some (reference_step E a i c)"
proof -
  have c: "computed_index_for i = computed_c1 i" using i by (simp add: choose_simps)
  note p = plain_computed [OF r, unfolded c]
  note b = rewrite_c_addi_def c_opcode_eq rv32c_addi_def imm_instr_def rv32c_jal_addiw_def REG_SP_def
  note e = decode_c1_def C1_ADDI_def C1_LI_def C1_ADDI16SP_def C1_ADDIW_def
  note j = rewrite_c_jmp_def rewrite_c_branch_def rv32c_jmp_def rv32c_beqz_def rv32c_bnez_def
    C1_JUMP_def C1_BEQZ_def C1_BNEZ_def branch_if_def jump_even
  show ?thesis
  proof (cases "c_funct3 i = 4")
    case True
    then have a: "computed_c1 i = computed_c1_alu i" by (simp add: computed_c1_def)
    have "CA_funct6 i AND 3 = 0 \<or> CA_funct6 i AND 3 = 2 \<or>
        CA_funct6 i AND 3 \<noteq> 0 \<and> CA_funct6 i AND 3 \<noteq> 1 \<and> CA_funct6 i AND 3 \<noteq> 2 \<and>
          (CA_funct2 i OR (CA_funct6 i AND 4) = 1 \<or> CA_funct2 i OR (CA_funct6 i AND 4) = 2)"
      using p unfolding a by (rule_tac ccontr) (simp add: computed_c1_alu_def Let_def split: if_splits)
    then show ?thesis
      using i r True unfolding c a
      by (elim disjE conjE) (auto simp: computed_c1_alu_def run_simps Let_def cireg_def shift_amounts
        rv32c_srli_def rv32c_andi_def rv32c_xor_def rv32c_or_def ref_simps decode_c1_def C1_ALU_OPS_def c1_alu_def)
  next
    case False
    with funct3_cases(2) [of i] have f: "c_funct3 i = 0 \<or> c_funct3 i = 1 \<or> c_funct3 i = 2 \<or> c_funct3 i = 3 \<or>
        c_funct3 i = 5 \<or> c_funct3 i = 6 \<or> c_funct3 i = 7" by blast
    have "c_funct3 i = 5 \<or> c_funct3 i = 6 \<or> c_funct3 i = 7 \<Longrightarrow> k = 0"
      using k i by (simp add: ends_block_def is_regular_compressed_def)
    with f show ?thesis
      using i r p d unfolding c
      by (elim disjE) (auto simp: computed_c1_def run_simps Let_def clobbers_zero_def b cireg_def ref_simps e j split: if_splits)
  qed
qed

lemma parity_plus: "(x + 2) AND 1 = x AND (1 :: 64 word)"
  by (simp add: and_one_eq mod_2_eq_odd)

lemma jump_here: "a AND 1 = 0 \<Longrightarrow> jump a c = retire (at_pc a c)"
  by (simp add: jump_def at_pc_def)

lemma unat_CR_rd: "unat (of_nat (CR_rd i) :: 32 word) = CR_rd i"
  using reg_lt(5) [of i] by (simp add: unat_of_nat take_bit_nat_eq_self)

lemma run_c2:
  assumes i: "\<not> is_long i" "i AND 3 = 2"
    and r: "threaded_rewrite u s (computed_index_for i) a i = Some bw" "plain bw"
    and d: "\<not> odd_target a i c" and k: "ends_block i \<longrightarrow> k = 0"
  shows "run_bytecode FB E a k bw c = Some (reference_step E a i c)"
proof -
  have c: "computed_index_for i = computed_c2 i" using i by (simp add: choose_simps)
  note p = plain_computed [OF r, unfolded c]
  have "c_funct3 i = 0 \<or> c_funct3 i = 2 \<or> c_funct3 i = 3 \<or> c_funct3 i = 4 \<or> c_funct3 i = 6 \<or> c_funct3 i = 7"
  proof (rule ccontr)
    assume "\<not> ?thesis"
    with funct3_cases(2) [of i] have "c_funct3 i = 1 \<or> c_funct3 i = 5" by blast
    with p show False by (elim disjE) (simp_all add: computed_c2_def)
  qed
  moreover have "c_funct3 i = 4 \<Longrightarrow> CR_rd i \<noteq> 0 \<Longrightarrow> CR_rs2 i = 0 \<Longrightarrow> k = 0"
    using k i by (simp add: ends_block_def is_regular_compressed_def)
  ultimately show ?thesis
    using i r p d unfolding c
    by (elim disjE) (auto simp: computed_c2_def run_simps Let_def shift_amounts odd_target_def unat_CR_rd
      rewrite_c_ldw_def rewrite_c_ldd_def rewrite_c_stw_def rewrite_c_std_def
      rv32c_slli_def rv32c_ldw_def rv32c_ldd_def load_instr_def rv32c_stw_def rv32c_std_def store_instr_def
      rv32c_jr_def rv32c_jalr_def rv32c_mv_def rv32c_add_def jump_even even_mask
      ref_simps decode_c2_def C2_SLLI_def C2_LWSP_def C2_LDSP_def C2_SWSP_def C2_SDSP_def C2_JR_def C2_JALR_def C2_MV_def C2_ADD_def
      REG_SP_def REG_RA_def parity_plus jump_here split: if_splits)
qed

section \<open>Every instruction\<close>

lemma rewrite_rest_table:
  "threaded_rewrite u s RV32I_BC_BEQ_FW pc i = None" "threaded_rewrite u s RV32I_BC_BNE_FW pc i = None"
  "threaded_rewrite u s RV32I_BC_FAST_JAL pc i = None" "threaded_rewrite u s RV32I_BC_FAST_CALL pc i = None"
  "threaded_rewrite u s RV32F_BC_FADD pc i = Some (RV32F_BC_FADD, FasterFloatType (unat (funct2 i)) (rd i) (rs1 i) (rs2 i))"
  "threaded_rewrite u s RV32F_BC_FSUB pc i = Some (RV32F_BC_FSUB, FasterFloatType (unat (funct2 i)) (rd i) (rs1 i) (rs2 i))"
  "threaded_rewrite u s RV32F_BC_FMUL pc i = Some (RV32F_BC_FMUL, FasterFloatType (unat (funct2 i)) (rd i) (rs1 i) (rs2 i))"
  "threaded_rewrite u s RV32F_BC_FDIV pc i = Some (RV32F_BC_FDIV, FasterFloatType (unat (funct2 i)) (rd i) (rs1 i) (rs2 i))"
  by (simp_all add: threaded_rewrite_def rewrite_long_def rewrite_compressed_def bytecode_groups)

lemma rewrite_keeps_function:
  assumes "threaded_rewrite u s b a i = Some bw" "b \<noteq> RV32I_BC_FUNCTION" "b \<noteq> RV32C_BC_FUNCTION"
  shows "fst bw \<noteq> RV32I_BC_FUNCTION \<and> fst bw \<noteq> RV32C_BC_FUNCTION"
  using assms
  by (cases b) (auto simp: rewrite_table rewrite_c_table rewrite_branch_def rewrite_jal_def rewrite_c_branch_def rewrite_c_jmp_def Let_def
      rewrite_rest_table split: if_splits)

lemma if_neq: "x \<noteq> z \<Longrightarrow> y \<noteq> z \<Longrightarrow> (if p then x else y) \<noteq> z"
  by simp

lemma function_lengths:
  "is_long i \<Longrightarrow> computed_index_for i \<noteq> RV32C_BC_FUNCTION" "\<not> is_long i \<Longrightarrow> computed_index_for i \<noteq> RV32I_BC_FUNCTION"
proof -
  have "computed_long i \<noteq> RV32C_BC_FUNCTION"
    unfolding computed_long_def computed_load_def computed_store_def computed_branch_def computed_op_imm_def computed_op_def
      computed_op32_def computed_op_imm32_def computed_fpfunc_def computed_system_def Let_def
    by (intro if_neq bytecode.distinct)
  then show "is_long i \<Longrightarrow> computed_index_for i \<noteq> RV32C_BC_FUNCTION" by (simp add: computed_index_for_def)
  have "computed_c0 i \<noteq> RV32I_BC_FUNCTION" "computed_c1 i \<noteq> RV32I_BC_FUNCTION" "computed_c2 i \<noteq> RV32I_BC_FUNCTION"
    unfolding computed_c0_def computed_c1_def computed_c2_def computed_c1_alu_def Let_def
    by (intro if_neq bytecode.distinct)+
  then show "\<not> is_long i \<Longrightarrow> computed_index_for i \<noteq> RV32I_BC_FUNCTION" by (simp add: computed_index_for_def)
qed

lemma plain_opcode:
  assumes "is_long i" "\<not> host_instr n i" "computed_index_for i \<noteq> RV32I_BC_FUNCTION"
  shows "opcode i = RV32I_LOAD \<or> opcode i = RV32I_STORE \<or> opcode i = RV32I_BRANCH \<or> opcode i = RV32I_LUI \<or> opcode i = RV32I_AUIPC \<or>
    opcode i = RV32I_JAL \<or> opcode i = RV32I_JALR \<or> opcode i = RV32I_OP_IMM \<or> opcode i = RV32I_OP \<or> opcode i = RV64I_OP32 \<or>
    opcode i = RV64I_OP_IMM32 \<or> opcode i = RV32F_LOAD \<or> opcode i = RV32F_STORE"
  using assms by (rule_tac ccontr) (auto simp: choose_simps host_instr_def computed_fpfunc_def split: if_splits)

lemma run_plain:
  assumes r: "threaded_rewrite u s (computed_index_for i) a i = Some bw" "plain bw"
    and h: "\<not> host_instr (env_custom_count E) i"
    and d: "\<not> rem_diverges i c" "\<not> clobbers_zero i" "\<not> odd_target a i c" "reg c 0 = 0" and k: "ends_block i \<longrightarrow> k = 0"
  shows "run_bytecode FB E a k bw c = Some (reference_step E a i c)"
proof (cases "is_long i")
  case True
  have jumps: "opcode i = RV32I_BRANCH \<or> opcode i = RV32I_JAL \<or> opcode i = RV32I_JALR \<Longrightarrow> k = 0"
    using k True by (auto simp: ends_block_def)
  from plain_opcode [OF True h] plain_computed [OF r] show ?thesis
    using run_load [OF True _ r] run_store [OF True _ r] run_lui [OF True _ r] run_auipc [OF True _ r] run_float_load [OF True _ r]
      run_float_store [OF True _ r] run_op_imm32 [OF True _ r] run_op_imm [OF True _ r] run_op [OF True _ r d(1)]
      run_op32 [OF True _ r d(2)] run_branch [OF True _ r] run_jal [OF True _ r] run_jalr [OF True _ r d(3)] jumps
    by metis
next
  case False
  with quadrant_cases [of i] show ?thesis
    using run_c0 [OF False _ r] run_c1 [OF False _ r d(2,4) k] run_c2 [OF False _ r d(3) k] by blast
qed

lemma run_bytecode_exact:
  assumes "threaded_rewrite u s (computed_index_for i) a i = Some bw" "fst bw \<noteq> RV32I_BC_INVALID"
    and "\<not> host_instr (env_custom_count E) i"
    and "\<not> rem_diverges i c" "\<not> clobbers_zero i" "\<not> odd_target a i c" "reg c 0 = 0" "ends_block i \<longrightarrow> k = 0"
  shows "run_bytecode FB E a k bw c = Some (reference_step E a i c)"
proof (cases "computed_index_for i = RV32I_BC_FUNCTION \<or> computed_index_for i = RV32C_BC_FUNCTION")
  case True
  then show ?thesis
  proof
    assume f: "computed_index_for i = RV32I_BC_FUNCTION"
    then have "is_long i" using function_lengths(2) by blast
    moreover have "bw = (RV32I_BC_FUNCTION, i)" using assms(1) f by (simp add: rewrite_table)
    ultimately show ?thesis using run_function(1) [OF pc_free_long [OF _ assms(3) f]] by blast
  next
    assume f: "computed_index_for i = RV32C_BC_FUNCTION"
    then have "\<not> is_long i" using function_lengths(1) by blast
    moreover have "bw = (RV32C_BC_FUNCTION, i)" using assms(1) f by (simp add: rewrite_table)
    ultimately show ?thesis using run_function(2) [OF pc_free_compressed [OF _ assms(3) f]] by blast
  qed
next
  case False
  then have "plain bw" using rewrite_keeps_function [OF assms(1)] assms(2) by (simp add: plain_def)
  then show ?thesis by (rule run_plain [OF assms(1) _ assms(3-8)])
qed

end
