(* ===== verification/Page_Isolation.thy ===== *)
theory Page_Isolation
  imports Pages
begin

text \<open>
  Isolation of guest memory: no operation of a VM changes a page buffer that belongs to somebody
  else, in particular a page of the master that a fork can see.  The interface \<open>page_isolation\<close>
  names what is needed of the page handlers; the handlers of master and fork both implement it.
\<close>

section \<open>Basic facts\<close>

lemma find_page_put [simp]:
  "find_page q (put_page p pg vm) = (if q = p then Some pg else find_page q vm)"
  by (simp add: find_page_def put_page_def set_pages_def update_conv)

lemma put_page_sel [simp]:
  "vm_data (put_page p pg vm) = vm_data vm" "vm_next (put_page p pg vm) = vm_next vm" "vm_ws (put_page p pg vm) = vm_ws vm"
  "m_rd_cache (vm_mem (put_page p pg vm)) = m_rd_cache (vm_mem vm)"
  "m_wr_cache (vm_mem (put_page p pg vm)) = m_wr_cache (vm_mem vm)"
  by (simp_all add: put_page_def set_pages_def)

lemma try_emplace_sel [simp]:
  "vm_data (try_emplace p pg vm) = vm_data vm" "vm_next (try_emplace p pg vm) = vm_next vm" "vm_ws (try_emplace p pg vm) = vm_ws vm"
  "m_rd_cache (vm_mem (try_emplace p pg vm)) = m_rd_cache (vm_mem vm)"
  "m_wr_cache (vm_mem (try_emplace p pg vm)) = m_wr_cache (vm_mem vm)"
  "find_page q (try_emplace p pg vm) =
    (if q = p then Some (case find_page p vm of None \<Rightarrow> pg | Some x \<Rightarrow> x) else find_page q vm)"
  by (simp_all add: try_emplace_def split: option.splits)

lemma find_page_frame [simp]:
  "find_page q (vm\<lparr>vm_data := d\<rparr>) = find_page q vm" "find_page q (vm\<lparr>vm_next := n\<rparr>) = find_page q vm"
  "find_page q (vm\<lparr>vm_ws := w\<rparr>) = find_page q vm"
  "find_page q (vm\<lparr>vm_mem := (vm_mem vm)\<lparr>m_rd_cache := c\<rparr>\<rparr>) = find_page q vm"
  "find_page q (vm\<lparr>vm_mem := (vm_mem vm)\<lparr>m_wr_cache := c\<rparr>\<rparr>) = find_page q vm"
  by (simp_all add: find_page_def)

lemma invalidate_cache_sel [simp]:
  "vm_data (invalidate_cache p vm) = vm_data vm" "vm_next (invalidate_cache p vm) = vm_next vm"
  "vm_ws (invalidate_cache p vm) = vm_ws vm" "find_page q (invalidate_cache p vm) = find_page q vm"
  "m_wr_cache (vm_mem (invalidate_cache p vm)) = m_wr_cache (vm_mem vm)"
  "m_pages (vm_mem (invalidate_cache p vm)) = m_pages (vm_mem vm)"
  "fst (m_rd_cache (vm_mem (invalidate_cache p vm))) =
     (if fst (m_rd_cache (vm_mem vm)) = p then NO_PAGE else fst (m_rd_cache (vm_mem vm)))"
  "snd (m_rd_cache (vm_mem (invalidate_cache p vm))) = snd (m_rd_cache (vm_mem vm))"
  by (simp_all add: invalidate_cache_def find_page_def)

lemma new_page_data_sel [simp]:
  "fst (new_page_data d vm) = vm_next vm"
  "vm_data (snd (new_page_data d vm)) = (vm_data vm)(vm_next vm := d)"
  "vm_next (snd (new_page_data d vm)) = vm_next vm + 1" "vm_ws (snd (new_page_data d vm)) = vm_ws vm"
  "vm_mem (snd (new_page_data d vm)) = vm_mem vm" "find_page q (snd (new_page_data d vm)) = find_page q vm"
  by (simp_all add: new_page_data_def find_page_def)

lemma page_number_valid: "a < 2 ^ 64 \<Longrightarrow> page_number a \<noteq> NO_PAGE"
  by (simp add: page_number_def NO_PAGE_def PageSize_def)

lemma allocate_page_fresh:
  assumes "find_page p vm = None"
  shows "allocate_page p pg vm = (pg, invalidate_cache p (put_page p pg vm))"
  using assms by (simp add: allocate_page_def try_emplace_def)

section \<open>Isolation\<close>

text \<open>
  \<open>isolated F vm\<close>: the buffers in \<open>F\<close> belong to somebody else.  No writable page of this
  table points to one of them, the write cache does not, and none will be handed out as a new buffer.
\<close>

definition isolated :: "nat set \<Rightarrow> 'w VM \<Rightarrow> bool" where
  "isolated F vm \<longleftrightarrow>
     (\<forall>p pg. find_page p vm = Some pg \<longrightarrow> pa_write (pg_attr pg) \<longrightarrow> pg_data pg \<notin> F) \<and>
     (fst (m_wr_cache (vm_mem vm)) \<noteq> NO_PAGE \<longrightarrow> snd (m_wr_cache (vm_mem vm)) \<notin> F) \<and>
     (\<forall>d \<in> F. d < vm_next vm)"

definition same_on :: "nat set \<Rightarrow> 'w VM \<Rightarrow> 'w VM \<Rightarrow> bool" where
  "same_on F vm vm' \<longleftrightarrow> (\<forall>d \<in> F. vm_data vm' d = vm_data vm d)"

definition keeps :: "nat set \<Rightarrow> 'w VM \<Rightarrow> 'w VM \<Rightarrow> bool" where
  "keeps F vm vm' \<longleftrightarrow> isolated F vm' \<and> same_on F vm vm'"

lemma keeps_refl: "isolated F vm \<Longrightarrow> keeps F vm vm"
  by (simp add: keeps_def same_on_def)

lemma keeps_trans: "keeps F a b \<Longrightarrow> keeps F b c \<Longrightarrow> keeps F a c"
  by (simp add: keeps_def same_on_def)

lemma isolated_invalidate [simp]: "isolated F (invalidate_cache p vm) \<longleftrightarrow> isolated F vm"
  by (simp add: isolated_def)

lemma keeps_invalidate [simp]: "keeps F vm (invalidate_cache p vm') \<longleftrightarrow> keeps F vm vm'"
  by (simp add: keeps_def same_on_def)

lemma isolated_ws [simp]: "isolated F (vm\<lparr>vm_ws := w\<rparr>) \<longleftrightarrow> isolated F vm"
  by (simp add: isolated_def)

lemma isolated_rd [simp]: "isolated F (vm\<lparr>vm_mem := (vm_mem vm)\<lparr>m_rd_cache := c\<rparr>\<rparr>) \<longleftrightarrow> isolated F vm"
  by (simp add: isolated_def)

lemma isolated_put:
  assumes "isolated F vm" and "pa_write (pg_attr pg) \<Longrightarrow> pg_data pg \<notin> F"
  shows "isolated F (put_page p pg vm)"
  using assms by (auto simp: isolated_def)

lemma isolated_new: "isolated F vm \<Longrightarrow> isolated F (snd (new_page_data d vm))"
  by (auto simp: isolated_def)

lemma new_not_in: "isolated F vm \<Longrightarrow> vm_next vm \<notin> F"
  by (auto simp: isolated_def)

lemma same_on_new: "isolated F vm \<Longrightarrow> same_on F vm (snd (new_page_data d vm))"
  by (auto simp: isolated_def same_on_def)

locale page_isolation =
  fixes H :: "'w PageHandlers" and F :: "nat set"
  assumes fault_keeps: "isolated F vm \<Longrightarrow> find_page p vm = None \<Longrightarrow> keeps F vm (snd (page_fault_handler H p init vm))"
    and fault_page: "isolated F vm \<Longrightarrow> find_page p vm = None \<Longrightarrow> page_fault_handler H p init vm = (Inr pg, vm') \<Longrightarrow>
      pa_write (pg_attr pg) \<Longrightarrow> pg_data pg \<notin> F"
    and write_keeps: "isolated F vm \<Longrightarrow> find_page p vm = Some pg \<Longrightarrow> pa_is_cow (pg_attr pg) \<Longrightarrow>
      keeps F vm (snd (page_write_handler H p vm))"
    and write_page: "isolated F vm \<Longrightarrow> find_page p vm = Some pg \<Longrightarrow> page_write_handler H p vm = (Inr u, vm') \<Longrightarrow>
      \<exists>pg'. find_page p vm' = Some pg' \<and> pa_write (pg_attr pg')"
    and readf_keeps: "isolated F vm \<Longrightarrow> find_page p vm = None \<Longrightarrow> keeps F vm (snd (page_readf_handler H p vm))"
begin

lemma get_pageno_keeps: "isolated F vm \<Longrightarrow> keeps F vm (snd (get_pageno H p vm))"
  using readf_keeps [of vm p] keeps_refl [of F vm] by (simp add: get_pageno_def split: option.splits)

lemma get_readable_keeps: "isolated F vm \<Longrightarrow> keeps F vm (snd (get_readable_pageno H p vm))"
  using get_pageno_keeps [of vm p]
  by (auto simp: get_readable_pageno_def protection_fault_def split: prod.splits sum.splits)

lemma create_writable_keeps:
  assumes iso: "isolated F vm"
  shows "keeps F vm (snd (create_writable_pageno H p init vm))"
    and "create_writable_pageno H p init vm = (Inr pg, vm') \<Longrightarrow> pg_data pg \<notin> F"
proof -
  have "keeps F vm (snd (create_writable_pageno H p init vm)) \<and>
    (create_writable_pageno H p init vm = (Inr pg, vm') \<longrightarrow> pg_data pg \<notin> F)"
  proof (cases "find_page p vm")
    case None
    show ?thesis
      using fault_keeps [OF iso None, of init] fault_page [OF iso None, of init]
      by (auto simp: create_writable_pageno_def None protection_fault_def split: prod.splits sum.splits)
  next
    case (Some pg0)
    have k: "keeps F vm vm"
      by (rule keeps_refl [OF iso])
    have w: "\<exists>pg'. find_page p v = Some pg' \<and> pg_data pg' \<notin> F" if "page_write_handler H p vm = (Inr u, v)" "pa_is_cow (pg_attr pg0)" for u v
      using write_page [OF iso Some that(1)] write_keeps [OF iso Some that(2)] that(1)
      by (fastforce simp: keeps_def isolated_def)
    have nf: "pa_write (pg_attr pg0) \<Longrightarrow> pg_data pg0 \<notin> F"
      using iso Some by (auto simp: isolated_def)
    show ?thesis
      using k nf write_keeps [OF iso Some] w
      by (auto simp: create_writable_pageno_def Some protection_fault_def Let_def split: prod.splits sum.splits)
  qed
  then show "keeps F vm (snd (create_writable_pageno H p init vm))"
    and "create_writable_pageno H p init vm = (Inr pg, vm') \<Longrightarrow> pg_data pg \<notin> F"
    by blast+
qed

lemma mem_read_keeps: "isolated F vm \<Longrightarrow> keeps F vm (snd (mem_read H n address vm))"
  using get_readable_keeps [of vm "page_number address"] keeps_refl [of F vm]
  by (auto simp: mem_read_def cached_readable_page_def Let_def keeps_def same_on_def split: prod.splits sum.splits)

lemma mem_write_keeps:
  assumes iso: "isolated F vm" and a: "address < 2 ^ 64"
  shows "keeps F vm (snd (mem_write H n address value vm))"
proof (cases "fst (m_wr_cache (vm_mem vm)) = page_number address")
  case True
  then have "snd (m_wr_cache (vm_mem vm)) \<notin> F"
    using iso page_number_valid [OF a] by (auto simp: isolated_def)
  then show ?thesis
    using iso True
    by (auto simp: mem_write_def cached_writable_page_def Let_def data_upd_def keeps_def same_on_def isolated_def)
next
  case False
  show ?thesis
    using create_writable_keeps [OF iso, of "page_number address" True] False
    by (auto simp: mem_write_def cached_writable_page_def Let_def data_upd_def keeps_def same_on_def isolated_def
        split: prod.splits sum.splits)
qed

end

text \<open>The buffers a fork must not touch: the static pages and everything its master's table points to.\<close>

definition shared_data :: "Memory \<Rightarrow> nat set" where
  "shared_data master = {zero_id, host_id} \<union> (pg_data \<circ> snd) ` set (m_pages master)"

lemma make_writable_keeps:
  assumes iso: "isolated F vm" and p: "find_page p vm = Some pg"
  shows "keeps F vm (make_writable p vm)"
    and "\<exists>pg'. find_page p (make_writable p vm) = Some pg' \<and> pa_write (pg_attr pg')"
proof -
  let ?n = "new_page_data (vm_data vm (pg_data pg)) vm"
  have "make_writable p vm = put_page p \<lparr> pg_attr = (pg_attr pg)\<lparr>pa_write := True, pa_is_cow := False, pa_non_owning := False\<rparr>,
      pg_data = fst ?n \<rparr> (snd ?n)"
    by (simp add: make_writable_def p case_prod_beta)
  moreover have "isolated F (snd ?n)" "same_on F vm (snd ?n)" "fst ?n \<notin> F"
    using isolated_new [OF iso] same_on_new [OF iso] new_not_in [OF iso] by simp_all
  ultimately show "keeps F vm (make_writable p vm)" "\<exists>pg'. find_page p (make_writable p vm) = Some pg' \<and> pa_write (pg_attr pg')"
    using isolated_put [of F "snd ?n"] by (auto simp: keeps_def same_on_def)
qed

text \<open>Installing a page on a fresh buffer, the common step of the fault handlers.\<close>

lemma allocate_new_keeps:
  fixes d :: PageData
  assumes iso: "isolated F vm" and p: "find_page p vm = None" and that: "\<And>i. pg_data (mk i) = i"
  defines "n \<equiv> new_page_data d vm"
  shows "keeps F vm (snd (allocate_page p (mk (fst n)) (snd n)))"
    and "fst (allocate_page p (mk (fst n)) (snd n)) = mk (fst n)"
proof -
  have "find_page p (snd n) = None" "isolated F (snd n)" "same_on F vm (snd n)" "fst n \<notin> F"
    using p isolated_new [OF iso] same_on_new [OF iso] new_not_in [OF iso] by (simp_all add: n_def)
  then show "keeps F vm (snd (allocate_page p (mk (fst n)) (snd n)))"
    "fst (allocate_page p (mk (fst n)) (snd n)) = mk (fst n)"
    using isolated_put [of F "snd n" "mk (fst n)" p] that
    by (simp_all add: allocate_page_fresh keeps_def same_on_def)
qed

interpretation fork_pages: page_isolation "fork_handlers fe" "shared_data (fe_parent fe)"
proof unfold_locales
  fix vm :: "'a VM" and p init
  let ?F = "shared_data (fe_parent fe)"
  assume iso: "isolated ?F vm"
  obtain ok ws where ws: "fe_ws_alloc fe (vm_ws vm) PageSize = (ok, ws)"
    by fastforce
  let ?vm0 = "vm\<lparr>vm_ws := ws\<rparr>"
  have iso0: "isolated ?F ?vm0"
    using iso by simp
  have k0: "keeps ?F vm v" if "keeps ?F ?vm0 v" for v
    using that by (simp add: keeps_def same_on_def)
  have oom: "keeps ?F vm ?vm0"
    using iso by (simp add: keeps_def same_on_def)
  {
    assume p: "find_page p vm = None"
    then have p0: "find_page p ?vm0 = None"
      by simp
    let ?c = "if init then zero_data else fe_garbage fe"
    let ?mk1 = "\<lambda>i. Page_non_owned (default_attr\<lparr>pa_non_owning := True, pa_user_defined := 1\<rparr>) i"
    let ?mk2 = "\<lambda>i. \<lparr> pg_attr = default_attr, pg_data = i \<rparr>"
    have f1: "keeps ?F ?vm0 (snd (allocate_page p (?mk1 (fst (new_page_data ?c ?vm0))) (snd (new_page_data ?c ?vm0))))"
      "fst (allocate_page p (?mk1 (fst (new_page_data ?c ?vm0))) (snd (new_page_data ?c ?vm0))) = ?mk1 (fst (new_page_data ?c ?vm0))"
      by (rule allocate_new_keeps [OF iso0 p0, where mk = ?mk1]; simp add: Page_non_owned_def)+
    have f2: "keeps ?F ?vm0 (snd (allocate_page p (?mk2 (fst (new_page_data ?c ?vm0))) (snd (new_page_data ?c ?vm0))))"
      "fst (allocate_page p (?mk2 (fst (new_page_data ?c ?vm0))) (snd (new_page_data ?c ?vm0))) = ?mk2 (fst (new_page_data ?c ?vm0))"
      by (rule allocate_new_keeps [OF iso0 p0, where mk = ?mk2]; simp)+
    show "keeps ?F vm (snd (page_fault_handler (fork_handlers fe) p init vm))"
      using k0 [OF f1(1)] k0 [OF f2(1)] oom
      by (simp add: fork_handlers_def fork_page_fault_def ws Let_def case_prod_beta out_of_memory_def)
    have nn: "vm_next vm \<notin> ?F"
      by (rule new_not_in [OF iso])
    show "pg_data pg \<notin> ?F" if "page_fault_handler (fork_handlers fe) p init vm = (Inr pg, vm')" for pg vm'
      using that f1(2) f2(2) nn
      by (auto simp: fork_handlers_def fork_page_fault_def ws Let_def case_prod_beta out_of_memory_def Page_non_owned_def
          split: if_splits)
    have "isolated ?F (put_page p (Page_non_owned ((pg_attr (parent_page (fe_parent fe) p))
       \<lparr>pa_non_owning := True, pa_is_cow := pa_write (pg_attr (parent_page (fe_parent fe) p)), pa_write := False\<rparr>)
         (pg_data (parent_page (fe_parent fe) p))) vm)"
      by (rule isolated_put [OF iso]) (simp add: Page_non_owned_def)
    then show "keeps ?F vm (snd (page_readf_handler (fork_handlers fe) p vm))"
      using p by (simp add: fork_handlers_def fork_page_readf_def Let_def case_prod_beta allocate_page_fresh keeps_def same_on_def)
  }
  {
    fix pg
    assume p: "find_page p vm = Some pg"
    then have p0: "find_page p ?vm0 = Some pg"
      by simp
    let ?n = "new_page_data (vm_data vm (pg_data pg)) ?vm0"
    have "isolated ?F (put_page p \<lparr> pg_attr = (pg_attr pg)\<lparr>pa_non_owning := True, pa_write := True, pa_is_cow := False\<rparr>, pg_data = fst ?n \<rparr> (snd ?n))"
      by (rule isolated_put [OF isolated_new [OF iso0]]) (use new_not_in [OF iso] in simp)
    then have "keeps ?F vm (put_page p \<lparr> pg_attr = (pg_attr pg)\<lparr>pa_non_owning := True, pa_write := True, pa_is_cow := False\<rparr>, pg_data = fst ?n \<rparr> (snd ?n))"
      using new_not_in [OF iso] by (auto simp: keeps_def same_on_def)
    then show "keeps ?F vm (snd (page_write_handler (fork_handlers fe) p vm))"
      using k0 [OF make_writable_keeps(1) [OF iso0 p0]] oom
      by (simp add: fork_handlers_def fork_page_write_def p ws Let_def case_prod_beta out_of_memory_def)
    show "\<exists>pg'. find_page p vm' = Some pg' \<and> pa_write (pg_attr pg')"
      if "page_write_handler (fork_handlers fe) p vm = (Inr u, vm')" for u vm'
      using that make_writable_keeps(2) [OF iso0 p0]
      by (auto simp: fork_handlers_def fork_page_write_def p ws Let_def case_prod_beta out_of_memory_def split: if_splits)
  }
qed

interpretation master_pages: page_isolation "master_handlers sb se" F
proof unfold_locales
  fix vm :: "'a VM" and p init
  assume iso: "isolated F vm"
  {
    assume p: "find_page p vm = None"
    let ?df = "sb div PageSize \<le> p \<and> p < se div PageSize"
    let ?mk = "\<lambda>i. Page_non_owned (default_attr\<lparr>pa_dont_fork := ?df, pa_user_defined := 1\<rparr>) i"
    have f: "keeps F vm (snd (allocate_page p (?mk (fst (new_page_data zero_data vm))) (snd (new_page_data zero_data vm))))"
      "fst (allocate_page p (?mk (fst (new_page_data zero_data vm))) (snd (new_page_data zero_data vm))) = ?mk (fst (new_page_data zero_data vm))"
      by (rule allocate_new_keeps [OF iso p, where mk = ?mk]; simp add: Page_non_owned_def)+
    show "keeps F vm (snd (page_fault_handler (master_handlers sb se) p init vm))"
      using f(1) by (simp add: master_handlers_def master_page_fault_def Let_def case_prod_beta)
    show "pg_data pg \<notin> F" if "page_fault_handler (master_handlers sb se) p init vm = (Inr pg, vm')" for pg vm'
      using that f(2) new_not_in [OF iso]
      by (auto simp: master_handlers_def master_page_fault_def Let_def case_prod_beta Page_non_owned_def)
    show "keeps F vm (snd (page_readf_handler (master_handlers sb se) p vm))"
      using keeps_refl [OF iso] by (simp add: master_handlers_def default_page_read_def)
  }
  {
    fix pg
    assume p: "find_page p vm = Some pg"
    show "keeps F vm (snd (page_write_handler (master_handlers sb se) p vm))"
      using make_writable_keeps(1) [OF iso p] by (simp add: master_handlers_def default_page_write_def)
    show "\<exists>pg'. find_page p vm' = Some pg' \<and> pa_write (pg_attr pg')"
      if "page_write_handler (master_handlers sb se) p vm = (Inr u, vm')" for u vm'
      using that make_writable_keeps(2) [OF iso p] by (auto simp: master_handlers_def default_page_write_def)
  }
qed

end
