(* ===== verification/Bulk_Memory.thy ===== *)
theory Bulk_Memory
  imports Page_Isolation
begin

text \<open>
  Bulk operations on guest memory (\<open>src/src/libriscv/lib/libriscv/memory_helpers_paging.hpp\<close>):
  filling and copying page by page, string length, and comparison.  Host buffers are lists of bytes.
\<close>

section \<open>Operations\<close>

definition fill_bytes :: "nat \<Rightarrow> nat \<Rightarrow> 8 word \<Rightarrow> PageData \<Rightarrow> PageData" where
  "fill_bytes off n value d = (\<lambda>i. if off \<le> i \<and> i < off + n then value else d i)"

definition copy_bytes :: "nat \<Rightarrow> 8 word list \<Rightarrow> PageData \<Rightarrow> PageData" where
  "copy_bytes off bs d = (\<lambda>i. if off \<le> i \<and> i < off + length bs then bs ! (i - off) else d i)"

function mem_memset :: "'w PageHandlers \<Rightarrow> nat \<Rightarrow> 8 word \<Rightarrow> nat \<Rightarrow> 'w VM \<Rightarrow> (unit, 'w VM) thrown" where
  "mem_memset H dst value len vm =
    (if len = 0 then (Inr (), vm)
     else
       let offset = dst mod PageSize;
           n = min (PageSize - offset) len
       in case create_writable_pageno H (dst div PageSize) (n \<noteq> PageSize) vm of
            (Inl e, vm1) \<Rightarrow> (Inl e, vm1)
          | (Inr pg, vm1) \<Rightarrow>
              mem_memset H (add64 dst n) value (len - n) (data_upd (pg_data pg) (fill_bytes offset n value) vm1))"
  by pat_completeness auto
termination
  by (relation "measure (\<lambda>(H, dst, value, len, vm). len)") (auto simp: PageSize_def)

function mem_memcpy :: "'w PageHandlers \<Rightarrow> nat \<Rightarrow> 8 word list \<Rightarrow> 'w VM \<Rightarrow> (unit, 'w VM) thrown" where
  "mem_memcpy H dst src vm =
    (if src = [] then (Inr (), vm)
     else
       let offset = dst mod PageSize;
           n = min (PageSize - offset) (length src)
       in case create_writable_pageno H (dst div PageSize) (n \<noteq> PageSize) vm of
            (Inl e, vm1) \<Rightarrow> (Inl e, vm1)
          | (Inr pg, vm1) \<Rightarrow>
              mem_memcpy H (add64 dst n) (drop n src) (data_upd (pg_data pg) (copy_bytes offset (take n src)) vm1))"
  by pat_completeness auto
termination
  by (relation "measure (\<lambda>(H, dst, src, vm). length src)") (auto simp: PageSize_def)

function mem_memcpy_out :: "'w PageHandlers \<Rightarrow> nat \<Rightarrow> nat \<Rightarrow> 'w VM \<Rightarrow> (8 word list, 'w VM) thrown" where
  "mem_memcpy_out H src len vm =
    (if len = 0 then (Inr [], vm)
     else
       let offset = src mod PageSize;
           n = min (PageSize - offset) len
       in case get_pageno H (page_number src) vm of
            (Inl e, vm1) \<Rightarrow> (Inl e, vm1)
          | (Inr pg, vm1) \<Rightarrow>
              if \<not> pa_read (pg_attr pg) then protection_fault src vm1
              else case mem_memcpy_out H (add64 src n) (len - n) vm1 of
                  (Inl e, vm2) \<Rightarrow> (Inl e, vm2)
                | (Inr rest, vm2) \<Rightarrow> (Inr (map (vm_data vm1 (pg_data pg)) [offset ..< offset + n] @ rest), vm2))"
  by pat_completeness auto
termination
  by (relation "measure (\<lambda>(H, src, len, vm). len)") (auto simp: PageSize_def)

fun strnlen :: "PageData \<Rightarrow> nat \<Rightarrow> nat \<Rightarrow> nat" where
  "strnlen d off 0 = 0"
| "strnlen d off (Suc n) = (if d off = 0 then 0 else Suc (strnlen d (off + 1) n))"

text \<open>One round of the \<open>do ... while\<close> loop of \<open>Memory::strlen\<close> per call.\<close>

lemma strnlen_le: "strnlen d off n \<le> n"
  by (induction n arbitrary: off) auto

lemma strlen_progress:
  "len + 4096 - a mod 4096 < m \<Longrightarrow> m + a mod 4096 - (len + 4096) < m - (len :: nat)"
  using mod_less_divisor [of 4096 a] by linarith

function mem_strlen_loop :: "'w PageHandlers \<Rightarrow> nat \<Rightarrow> nat \<Rightarrow> nat \<Rightarrow> 'w VM \<Rightarrow> (nat, 'w VM) thrown" where
  "mem_strlen_loop H addr maxlen len vm =
    (let offset = addr mod PageSize in
     case get_readable_pageno H (page_number addr) vm of
       (Inl e, vm1) \<Rightarrow> (Inl e, vm1)
     | (Inr pg, vm1) \<Rightarrow>
         let max_bytes = PageSize - offset;
             thislen = strnlen (vm_data vm1 (pg_data pg)) offset max_bytes;
             len' = len + thislen
         in if thislen \<noteq> max_bytes then (Inr (if len' \<le> maxlen then len' else maxlen), vm1)
            else if len' < maxlen then mem_strlen_loop H (add64 addr len') maxlen len' vm1
            else (Inr (if len' \<le> maxlen then len' else maxlen), vm1))"
  by pat_completeness auto
termination
  by (relation "measure (\<lambda>(H, addr, maxlen, len, vm). maxlen - len)") (auto simp: PageSize_def Let_def intro: strlen_progress)

definition mem_strlen :: "'w PageHandlers \<Rightarrow> nat \<Rightarrow> nat \<Rightarrow> 'w VM \<Rightarrow> (nat, 'w VM) thrown" where
  "mem_strlen H addr maxlen vm = mem_strlen_loop H addr maxlen 0 vm"

declare mem_memset.simps [simp del] mem_memcpy.simps [simp del] mem_memcpy_out.simps [simp del] mem_strlen_loop.simps [simp del]

end
