(* ===== verification/Page_Coherence.thy ===== *)
theory Page_Coherence
  imports Bulk_Memory
begin

text \<open>
  Guest memory behaves like an array of bytes: loads see the last store, the single-entry caches
  never return stale data, and a fork reads what its master holds.  The interface \<open>paged_memory\<close>
  names what is needed of the page handlers; master and fork handlers both implement it.
\<close>

section \<open>Guest memory as bytes\<close>

text \<open>
  The contents of a page as the guest sees them: the page of the table, or what the
  page would read as when it is not in the table yet.
\<close>

definition page_view :: "(nat \<Rightarrow> PageData) \<Rightarrow> 'w VM \<Rightarrow> nat \<Rightarrow> PageData" where
  "page_view base vm p = (case find_page p vm of Some pg \<Rightarrow> vm_data vm (pg_data pg) | None \<Rightarrow> base p)"

text \<open>
  Coherence: both caches agree with the page table, and a writable page has a buffer of its own.
\<close>

definition coherent :: "(nat \<Rightarrow> PageData) \<Rightarrow> 'w VM \<Rightarrow> bool" where
  "coherent base vm \<longleftrightarrow>
     (fst (m_rd_cache (vm_mem vm)) \<noteq> NO_PAGE \<longrightarrow>
        (case find_page (fst (m_rd_cache (vm_mem vm))) vm of
           Some pg \<Rightarrow> pg_data pg = snd (m_rd_cache (vm_mem vm))
         | None \<Rightarrow> snd (m_rd_cache (vm_mem vm)) = zero_id \<and> base (fst (m_rd_cache (vm_mem vm))) = zero_data)) \<and>
     (fst (m_wr_cache (vm_mem vm)) \<noteq> NO_PAGE \<longrightarrow>
        (\<exists>pg. find_page (fst (m_wr_cache (vm_mem vm))) vm = Some pg \<and>
              pg_data pg = snd (m_wr_cache (vm_mem vm)) \<and> pa_write (pg_attr pg))) \<and>
     (\<forall>p pg. find_page p vm = Some pg \<longrightarrow> pg_data pg < vm_next vm \<and> (pa_write (pg_attr pg) \<longrightarrow> pg_data pg \<noteq> zero_id)) \<and>
     (\<forall>p q pg pg'. find_page p vm = Some pg \<longrightarrow> find_page q vm = Some pg' \<longrightarrow> p \<noteq> q \<longrightarrow> pa_write (pg_attr pg) \<longrightarrow>
        pg_data pg \<noteq> pg_data pg') \<and>
     zero_id < vm_next vm \<and> vm_data vm zero_id = zero_data"

lemma coherentD:
  assumes "coherent base vm"
  shows "fst (m_rd_cache (vm_mem vm)) = p \<Longrightarrow> p \<noteq> NO_PAGE \<Longrightarrow> vm_data vm (snd (m_rd_cache (vm_mem vm))) = page_view base vm p"
    and "fst (m_wr_cache (vm_mem vm)) = p \<Longrightarrow> p \<noteq> NO_PAGE \<Longrightarrow>
      \<exists>pg. find_page p vm = Some pg \<and> pg_data pg = snd (m_wr_cache (vm_mem vm)) \<and> pa_write (pg_attr pg)"
    and "find_page p vm = Some pg \<Longrightarrow> pg_data pg < vm_next vm"
    and "find_page p vm = Some pg \<Longrightarrow> pa_write (pg_attr pg) \<Longrightarrow> pg_data pg \<noteq> zero_id"
    and "find_page p vm = Some pg \<Longrightarrow> find_page q vm = Some pg' \<Longrightarrow> p \<noteq> q \<Longrightarrow> pa_write (pg_attr pg) \<Longrightarrow> pg_data pg \<noteq> pg_data pg'"
    and "zero_id < vm_next vm" and "vm_data vm zero_id = zero_data"
  using assms by (auto simp: coherent_def page_view_def split: option.splits)

lemma coherent_rd_cache:
  assumes "coherent base vm" and "find_page p vm = Some pg \<or> (find_page p vm = None \<and> pg_data pg = zero_id \<and> base p = zero_data)"
  shows "coherent base (vm\<lparr>vm_mem := (vm_mem vm)\<lparr>m_rd_cache := (p, pg_data pg)\<rparr>\<rparr>)"
  using assms unfolding coherent_def by (auto split: option.splits)

lemma coherent_wr_cache:
  assumes "coherent base vm" and "find_page p vm = Some pg" and "pa_write (pg_attr pg)"
  shows "coherent base (vm\<lparr>vm_mem := (vm_mem vm)\<lparr>m_wr_cache := (p, pg_data pg)\<rparr>\<rparr>)"
  using assms unfolding coherent_def by (auto split: option.splits)

text \<open>Storing through a writable page changes the view of this page only.\<close>

lemma data_upd_view:
  assumes coh: "coherent base vm" and p: "find_page p vm = Some pg" "pa_write (pg_attr pg)"
  shows "page_view base (data_upd (pg_data pg) f vm) = (page_view base vm)(p := f (page_view base vm p))"
    and "coherent base (data_upd (pg_data pg) f vm)"
proof -
  have f: "find_page q (data_upd d f vm) = find_page q vm" for q d
    by (simp add: data_upd_def)
  show "page_view base (data_upd (pg_data pg) f vm) = (page_view base vm)(p := f (page_view base vm p))"
  proof (rule ext)
    fix q
    show "page_view base (data_upd (pg_data pg) f vm) q = ((page_view base vm)(p := f (page_view base vm p))) q"
      using coherentD(5) [OF coh p(1), of q] p
      by (auto simp: page_view_def f split: option.splits) (simp_all add: data_upd_def)
  qed
  show "coherent base (data_upd (pg_data pg) f vm)"
    using coh coherentD(4) [OF coh p] unfolding coherent_def f by (auto simp: data_upd_def split: option.splits)
qed

lemma page_view_cache [simp]:
  "page_view base (vm\<lparr>vm_mem := (vm_mem vm)\<lparr>m_rd_cache := c\<rparr>\<rparr>) = page_view base vm"
  "page_view base (vm\<lparr>vm_mem := (vm_mem vm)\<lparr>m_wr_cache := c\<rparr>\<rparr>) = page_view base vm"
  "page_view base (invalidate_cache p vm) = page_view base vm"
  by (auto simp: page_view_def fun_eq_iff invalidate_cache_def split: option.splits)

text \<open>
  What the page handlers promise: a page that is not in the table reads as \<open>base\<close>, copying on write keeps
  the contents, and a fault installs a zero page, which is right only where \<open>base\<close> is zero.
\<close>

locale paged_memory =
  fixes H :: "'w PageHandlers" and base :: "nat \<Rightarrow> PageData" and good :: "'w VM \<Rightarrow> bool"
  assumes readf: "good vm \<Longrightarrow> coherent base vm \<Longrightarrow> find_page p vm = None \<Longrightarrow>
      \<exists>pg vm'. page_readf_handler H p vm = (Inr pg, vm') \<and> good vm' \<and> coherent base vm' \<and>
        page_view base vm' = page_view base vm \<and> vm_data vm' (pg_data pg) = base p \<and>
        (find_page p vm' = Some pg \<or> (find_page p vm' = None \<and> pg_data pg = zero_id \<and> base p = zero_data))"
    and cow: "good vm \<Longrightarrow> coherent base vm \<Longrightarrow> find_page p vm = Some pg \<Longrightarrow> pa_is_cow (pg_attr pg) \<Longrightarrow> \<not> pa_write (pg_attr pg) \<Longrightarrow>
      page_write_handler H p vm = (Inr u, vm') \<Longrightarrow>
      good vm' \<and> coherent base (invalidate_cache p vm') \<and> page_view base vm' = page_view base vm \<and>
      (\<exists>pg'. find_page p vm' = Some pg' \<and> pa_write (pg_attr pg'))"
    and fault: "good vm \<Longrightarrow> coherent base vm \<Longrightarrow> find_page p vm = None \<Longrightarrow> base p = zero_data \<Longrightarrow>
      page_fault_handler H p init vm = (Inr pg, vm') \<Longrightarrow>
      good vm' \<and> coherent base (invalidate_cache p vm') \<and> find_page p vm' = Some pg \<and>
      (\<forall>q. q \<noteq> p \<longrightarrow> page_view base vm' q = page_view base vm q) \<and> (init \<longrightarrow> page_view base vm' p = zero_data)"
    and good_data: "good vm \<Longrightarrow> coherent base vm \<Longrightarrow> find_page p vm = Some pg \<Longrightarrow> pa_write (pg_attr pg) \<Longrightarrow>
      good (data_upd (pg_data pg) f vm)"
    and good_invalidate: "good vm \<Longrightarrow> good (invalidate_cache p vm)"
    and good_rd: "good vm \<Longrightarrow> good (vm\<lparr>vm_mem := (vm_mem vm)\<lparr>m_rd_cache := c\<rparr>\<rparr>)"
    and good_wr: "good vm \<Longrightarrow> coherent base vm \<Longrightarrow> find_page p vm = Some pg \<Longrightarrow> pa_write (pg_attr pg) \<Longrightarrow>
      good (vm\<lparr>vm_mem := (vm_mem vm)\<lparr>m_wr_cache := (p, pg_data pg)\<rparr>\<rparr>)"
begin

text \<open>Looking up a page never fails, and finds the contents the guest sees.\<close>

lemma get_pageno_view:
  assumes g: "good vm" and coh: "coherent base vm"
  obtains pg vm1 where "get_pageno H p vm = (Inr pg, vm1)" "good vm1" "coherent base vm1"
    "page_view base vm1 = page_view base vm" "vm_data vm1 (pg_data pg) = page_view base vm p"
    "find_page p vm1 = Some pg \<or> (find_page p vm1 = None \<and> pg_data pg = zero_id \<and> base p = zero_data)"
proof (cases "find_page p vm")
  case None
  then show ?thesis
    using that readf [OF g coh None] by (auto simp: get_pageno_def page_view_def)
next
  case (Some pg)
  then show ?thesis
    using that [of pg vm] g coh by (auto simp: get_pageno_def page_view_def)
qed

text \<open>A load returns the bytes the guest sees and changes nothing the guest sees.\<close>

lemma mem_read_view:
  assumes g: "good vm" and coh: "coherent base vm" and a: "address < 2 ^ 64" and r: "mem_read H n address vm = (Inr v, vm')"
  shows "v = load_le (page_view base vm (page_number address)) (access_offset n address) n"
    and "good vm'" and "coherent base vm'" and "page_view base vm' = page_view base vm"
proof -
  let ?p = "page_number address"
  have pn: "?p \<noteq> NO_PAGE"
    by (rule page_number_valid [OF a])
  have "v = load_le (page_view base vm ?p) (access_offset n address) n \<and> good vm' \<and> coherent base vm' \<and>
      page_view base vm' = page_view base vm"
  proof (cases "fst (m_rd_cache (vm_mem vm)) = ?p")
    case True
    then show ?thesis
      using r g coh coherentD(1) [OF coh True pn] by (auto simp: mem_read_def cached_readable_page_def)
  next
    case False
    obtain pg vm1 where gp: "get_pageno H ?p vm = (Inr pg, vm1)" "good vm1" "coherent base vm1"
      "page_view base vm1 = page_view base vm" "vm_data vm1 (pg_data pg) = page_view base vm ?p"
      "find_page ?p vm1 = Some pg \<or> (find_page ?p vm1 = None \<and> pg_data pg = zero_id \<and> base ?p = zero_data)"
      by (rule get_pageno_view [OF g coh])
    then show ?thesis
      using r False coherent_rd_cache [OF gp(3,6)] good_rd [OF gp(2)]
      by (auto simp: mem_read_def cached_readable_page_def get_readable_pageno_def protection_fault_def Let_def split: if_splits)
  qed
  then show "v = load_le (page_view base vm ?p) (access_offset n address) n"
    "good vm'" "coherent base vm'" "page_view base vm' = page_view base vm"
    by simp_all
qed

text \<open>A page made writable keeps its contents, unless the caller is about to overwrite all of it.\<close>

lemma create_writable_view:
  assumes g: "good vm" and coh: "coherent base vm" and z: "find_page p vm \<noteq> None \<or> base p = zero_data"
    and r: "create_writable_pageno H p init vm = (Inr pg, vm')"
  shows "good vm' \<and> coherent base vm' \<and> find_page p vm' = Some pg \<and> pa_write (pg_attr pg) \<and>
    (\<forall>q. q \<noteq> p \<longrightarrow> page_view base vm' q = page_view base vm q) \<and>
    (init \<longrightarrow> page_view base vm' p = page_view base vm p)"
proof (cases "find_page p vm")
  case None
  then obtain vm1 where "page_fault_handler H p init vm = (Inr pg, vm1)" "pa_write (pg_attr pg)" "vm' = invalidate_cache p vm1"
    using r by (auto simp: create_writable_pageno_def protection_fault_def split: prod.splits sum.splits if_splits)
  moreover have "page_view base vm p = zero_data" "base p = zero_data"
    using None z by (simp_all add: page_view_def)
  ultimately show ?thesis
    using fault [OF g coh None] good_invalidate by simp
next
  case (Some pg0)
  show ?thesis
  proof (cases "pa_write (pg_attr pg0)")
    case True
    then show ?thesis
      using r g coh Some by (simp add: create_writable_pageno_def)
  next
    case False
    then obtain u vm1 where "page_write_handler H p vm = (Inr u, vm1)" "pa_is_cow (pg_attr pg0)" "vm' = invalidate_cache p vm1"
      "pg = (case find_page p vm1 of Some x \<Rightarrow> x | None \<Rightarrow> pg0)"
      using r Some by (auto simp: create_writable_pageno_def protection_fault_def Let_def split: prod.splits sum.splits if_splits)
    then show ?thesis
      using cow [OF g coh Some _ False] good_invalidate by auto
  qed
qed

text \<open>A store changes exactly the addressed bytes.\<close>

lemma mem_write_view:
  assumes g: "good vm" and coh: "coherent base vm" and a: "address < 2 ^ 64"
    and z: "find_page (page_number address) vm \<noteq> None \<or> base (page_number address) = zero_data"
    and r: "mem_write H n address v vm = (Inr u, vm')"
  shows "page_view base vm' = (page_view base vm)(page_number address :=
      store_le (page_view base vm (page_number address)) (access_offset n address) n v)"
    and "good vm'" and "coherent base vm'"
proof -
  let ?p = "page_number address"
  let ?f = "\<lambda>b. store_le b (access_offset n address) n v"
  obtain pg vm1 where w: "good vm1" "coherent base vm1" "find_page ?p vm1 = Some pg" "pa_write (pg_attr pg)"
    "page_view base vm1 = page_view base vm" "vm' = data_upd (pg_data pg) ?f vm1"
  proof (cases "fst (m_wr_cache (vm_mem vm)) = ?p")
    case True
    then show ?thesis
      using that [of vm] r g coh coherentD(2) [OF coh True page_number_valid [OF a]]
      by (auto simp: mem_write_def cached_writable_page_def)
  next
    case False
    then obtain pg vm1 where c: "create_writable_pageno H ?p True vm = (Inr pg, vm1)"
      and vm': "vm' = data_upd (pg_data pg) ?f (if pa_cacheable (pg_attr pg)
            then vm1\<lparr>vm_mem := (vm_mem vm1)\<lparr>m_wr_cache := (?p, pg_data pg)\<rparr>\<rparr> else vm1)"
      using r by (auto simp: mem_write_def cached_writable_page_def Let_def split: prod.splits sum.splits)
    note v = create_writable_view [OF g coh z c]
    then have "page_view base vm1 = page_view base vm"
      by (metis ext)
    then show ?thesis
      using that [of "if pa_cacheable (pg_attr pg) then vm1\<lparr>vm_mem := (vm_mem vm1)\<lparr>m_wr_cache := (?p, pg_data pg)\<rparr>\<rparr> else vm1" pg]
        v vm' coherent_wr_cache [of base vm1 ?p pg] good_wr [of vm1 ?p pg] by simp
  qed
  show "page_view base vm' = (page_view base vm)(?p := ?f (page_view base vm ?p))" "good vm'" "coherent base vm'"
    using data_upd_view [OF w(2,3,4), of ?f] good_data [OF w(1,2,3,4), of ?f] w(5,6) by simp_all
qed

end

lemma invalidate_idem [simp]: "invalidate_cache p (invalidate_cache p vm) = invalidate_cache p vm"
  by (simp add: invalidate_cache_def)

text \<open>Installing a page on a fresh buffer, the common step of the fault and write handlers.\<close>

lemma fresh_page_view:
  fixes d :: PageData
  assumes coh: "coherent base vm" and p: "\<forall>pg0. find_page p vm = Some pg0 \<longrightarrow> \<not> pa_write (pg_attr pg0)"
    and pg: "pg_data pg = vm_next vm"
  defines "vm' \<equiv> put_page p pg (snd (new_page_data d vm))"
  shows "coherent base (invalidate_cache p vm')" and "page_view base vm' = (page_view base vm)(p := d)"
    and "find_page p vm' = Some pg"
proof -
  have rd: "fst (m_rd_cache (vm_mem vm')) = fst (m_rd_cache (vm_mem vm))" "snd (m_rd_cache (vm_mem vm')) = snd (m_rd_cache (vm_mem vm))"
    "m_wr_cache (vm_mem vm') = m_wr_cache (vm_mem vm)" "vm_next vm' = vm_next vm + 1" "vm_data vm' = (vm_data vm)(vm_next vm := d)"
    "find_page q vm' = (if q = p then Some pg else find_page q vm)" for q
    by (simp_all add: vm'_def)
  have z: "zero_id \<noteq> vm_next vm"
    using coherentD(6) [OF coh] by simp
  have wrp: "fst (m_wr_cache (vm_mem vm)) = p \<Longrightarrow> p = NO_PAGE"
    using coherentD(2) [OF coh, of p] p by blast
  have lt: "find_page q vm = Some x \<Longrightarrow> pg_data x < vm_next vm" for q x
    by (rule coherentD(3) [OF coh])
  have "find_page q vm = Some x \<Longrightarrow> pg_data x \<noteq> vm_next vm" for q x
    using lt [of q x] by simp
  note facts = this lt z wrp pg
  show "find_page p vm' = Some pg"
    by (simp add: rd)
  show "page_view base vm' = (page_view base vm)(p := d)"
    using facts by (auto simp: page_view_def fun_eq_iff rd split: option.splits)
  show "coherent base (invalidate_cache p vm')"
    unfolding coherent_def invalidate_cache_sel rd
  proof (intro conjI)
    show "(if fst (m_rd_cache (vm_mem vm)) = p then NO_PAGE else fst (m_rd_cache (vm_mem vm))) \<noteq> NO_PAGE \<longrightarrow>
      (case if (if fst (m_rd_cache (vm_mem vm)) = p then NO_PAGE else fst (m_rd_cache (vm_mem vm))) = p then Some pg
          else find_page (if fst (m_rd_cache (vm_mem vm)) = p then NO_PAGE else fst (m_rd_cache (vm_mem vm))) vm of
         None \<Rightarrow> snd (m_rd_cache (vm_mem vm)) = zero_id \<and>
           base (if fst (m_rd_cache (vm_mem vm)) = p then NO_PAGE else fst (m_rd_cache (vm_mem vm))) = zero_data
       | Some pg \<Rightarrow> pg_data pg = snd (m_rd_cache (vm_mem vm)))"
      using coh unfolding coherent_def by (auto split: if_splits)
    show "fst (m_wr_cache (vm_mem vm)) \<noteq> NO_PAGE \<longrightarrow>
      (\<exists>pga. (if fst (m_wr_cache (vm_mem vm)) = p then Some pg else find_page (fst (m_wr_cache (vm_mem vm))) vm) = Some pga \<and>
         pg_data pga = snd (m_wr_cache (vm_mem vm)) \<and> pa_write (pg_attr pga))"
      using coherentD(2) [OF coh refl] wrp by auto
    show "\<forall>pa pga. (if pa = p then Some pg else find_page pa vm) = Some pga \<longrightarrow>
      pg_data pga < vm_next vm + 1 \<and> (pa_write (pg_attr pga) \<longrightarrow> pg_data pga \<noteq> zero_id)"
      using pg z lt coherentD(4) [OF coh] by (auto simp: less_Suc_eq)
    show "\<forall>pa q pga pg'. (if pa = p then Some pg else find_page pa vm) = Some pga \<longrightarrow>
      (if q = p then Some pg else find_page q vm) = Some pg' \<longrightarrow> pa \<noteq> q \<longrightarrow> pa_write (pg_attr pga) \<longrightarrow> pg_data pga \<noteq> pg_data pg'"
      using pg facts(1) coherentD(5) [OF coh] by (auto split: if_splits) metis+
  qed (use z coherentD(6,7) [OF coh] in simp_all)
qed

interpretation master_memory: paged_memory "master_handlers sb se" "\<lambda>_. zero_data" "\<lambda>_. True"
proof unfold_locales
  fix vm vm' :: "'a VM" and p pg init and u :: unit
  let ?b = "\<lambda>_ :: nat. zero_data"
  assume coh: "coherent ?b vm"
  show "\<exists>pg vm'. page_readf_handler (master_handlers sb se) p vm = (Inr pg, vm') \<and> True \<and> coherent ?b vm' \<and>
     page_view ?b vm' = page_view ?b vm \<and> vm_data vm' (pg_data pg) = zero_data \<and>
     (find_page p vm' = Some pg \<or> find_page p vm' = None \<and> pg_data pg = zero_id \<and> zero_data = zero_data)"
    if "find_page p vm = None"
    using that coh coherentD(7) [OF coh] by (simp add: master_handlers_def default_page_read_def cow_page_def)
  show "True \<and> coherent ?b (invalidate_cache p vm') \<and> page_view ?b vm' = page_view ?b vm \<and>
     (\<exists>pg'. find_page p vm' = Some pg' \<and> pa_write (pg_attr pg'))"
    if p: "find_page p vm = Some pg" "\<not> pa_write (pg_attr pg)" and w: "page_write_handler (master_handlers sb se) p vm = (Inr u, vm')"
  proof -
    let ?d = "vm_data vm (pg_data pg)"
    have "vm' = put_page p \<lparr> pg_attr = (pg_attr pg)\<lparr>pa_write := True, pa_is_cow := False, pa_non_owning := False\<rparr>,
        pg_data = vm_next vm \<rparr> (snd (new_page_data ?d vm))"
      using w p by (simp add: master_handlers_def default_page_write_def make_writable_def case_prod_beta)
    moreover have "page_view ?b vm p = ?d"
      using p by (simp add: page_view_def)
    ultimately show ?thesis
      using fresh_page_view [OF coh, of p _ ?d] p by (simp add: fun_upd_idem)
  qed
  show "True \<and> coherent ?b (invalidate_cache p vm') \<and> find_page p vm' = Some pg \<and>
      (\<forall>q. q \<noteq> p \<longrightarrow> page_view ?b vm' q = page_view ?b vm q) \<and> (init \<longrightarrow> page_view ?b vm' p = zero_data)"
    if p: "find_page p vm = None" and f: "page_fault_handler (master_handlers sb se) p init vm = (Inr pg, vm')"
    using f p fresh_page_view [OF coh, of p _ zero_data]
    by (auto simp: master_handlers_def master_page_fault_def Let_def case_prod_beta allocate_page_fresh Page_non_owned_def)
qed simp_all

text \<open>Installing a read-only page on somebody else's buffer.\<close>

lemma shared_page_view:
  assumes coh: "coherent base vm" and p: "find_page p vm = None" and pg: "\<not> pa_write (pg_attr pg)" "pg_data pg < vm_next vm"
    "vm_data vm (pg_data pg) = base p"
    and ne: "\<And>q x. find_page q vm = Some x \<Longrightarrow> pa_write (pg_attr x) \<Longrightarrow> pg_data x \<noteq> pg_data pg"
  shows "coherent base (invalidate_cache p (put_page p pg vm))" and "page_view base (put_page p pg vm) = page_view base vm"
proof -
  show "page_view base (put_page p pg vm) = page_view base vm"
    using p pg(3) by (auto simp: page_view_def fun_eq_iff split: option.splits)
  have wrp: "fst (m_wr_cache (vm_mem vm)) = p \<Longrightarrow> p = NO_PAGE"
    using coherentD(2) [OF coh, of p] p by auto
  show "coherent base (invalidate_cache p (put_page p pg vm))"
    unfolding coherent_def invalidate_cache_sel put_page_sel find_page_put
  proof (intro conjI)
    show "fst (m_wr_cache (vm_mem vm)) \<noteq> NO_PAGE \<longrightarrow>
      (\<exists>pga. (if fst (m_wr_cache (vm_mem vm)) = p then Some pg else find_page (fst (m_wr_cache (vm_mem vm))) vm) = Some pga \<and>
         pg_data pga = snd (m_wr_cache (vm_mem vm)) \<and> pa_write (pg_attr pga))"
      using coherentD(2) [OF coh refl] wrp by auto
    show "\<forall>pa pga. (if pa = p then Some pg else find_page pa vm) = Some pga \<longrightarrow>
      pg_data pga < vm_next vm \<and> (pa_write (pg_attr pga) \<longrightarrow> pg_data pga \<noteq> zero_id)"
      using pg coherentD(3,4) [OF coh] by auto
    show "\<forall>pa q pga pg'. (if pa = p then Some pg else find_page pa vm) = Some pga \<longrightarrow>
      (if q = p then Some pg else find_page q vm) = Some pg' \<longrightarrow> pa \<noteq> q \<longrightarrow> pa_write (pg_attr pga) \<longrightarrow> pg_data pga \<noteq> pg_data pg'"
      using pg ne coherentD(5) [OF coh] by (auto split: if_splits)
  qed (use coh in \<open>auto simp: coherent_def split: if_splits\<close>)
qed

text \<open>
  A fork reads its master's pages: \<open>bp\<close> is the master's memory when the request starts.
\<close>

definition reads_master :: "'w ForkEnv \<Rightarrow> (nat \<Rightarrow> PageData) \<Rightarrow> 'w VM \<Rightarrow> bool" where
  "reads_master fe bp vm \<longleftrightarrow> isolated (shared_data (fe_parent fe)) vm \<and>
     (\<forall>p. vm_data vm (pg_data (parent_page (fe_parent fe) p)) = bp p)"

lemma parent_page_shared: "pg_data (parent_page parent p) \<in> shared_data parent"
  by (force simp: parent_page_def shared_data_def cow_page_def dest: map_of_SomeD split: option.splits)

lemma reads_master_keeps: "reads_master fe bp vm \<Longrightarrow> keeps (shared_data (fe_parent fe)) vm vm' \<Longrightarrow> reads_master fe bp vm'"
  using parent_page_shared [of "fe_parent fe"] by (auto simp: reads_master_def keeps_def same_on_def)

lemma reads_masterD:
  assumes "reads_master fe bp vm"
  shows "isolated (shared_data (fe_parent fe)) vm" "pg_data (parent_page (fe_parent fe) p) < vm_next vm"
    "vm_data vm (pg_data (parent_page (fe_parent fe) p)) = bp p"
    "find_page q vm = Some x \<Longrightarrow> pa_write (pg_attr x) \<Longrightarrow> pg_data x \<notin> shared_data (fe_parent fe)"
  using assms parent_page_shared [of "fe_parent fe" p] by (auto simp: reads_master_def isolated_def)

interpretation fork_memory: paged_memory "fork_handlers fe" bp "reads_master fe bp"
proof unfold_locales
  fix vm vm' :: "'a VM" and p pg init f c and u :: unit
  let ?F = "shared_data (fe_parent fe)"
  assume g: "reads_master fe bp vm"
  show "reads_master fe bp (invalidate_cache p vm)" "reads_master fe bp (vm\<lparr>vm_mem := (vm_mem vm)\<lparr>m_rd_cache := c\<rparr>\<rparr>)"
    using g by (simp_all add: reads_master_def)
  assume coh: "coherent bp vm"
  show "reads_master fe bp (data_upd (pg_data pg) f vm)" "reads_master fe bp (vm\<lparr>vm_mem := (vm_mem vm)\<lparr>m_wr_cache := (p, pg_data pg)\<rparr>\<rparr>)"
    if "find_page p vm = Some pg" "pa_write (pg_attr pg)"
  proof -
    have "pg_data pg \<noteq> pg_data (parent_page (fe_parent fe) q)" for q
      using reads_masterD(4) [OF g that] parent_page_shared [of "fe_parent fe" q] by auto
    then have "pg_data (parent_page (fe_parent fe) q) \<noteq> pg_data pg" for q
      by metis
    then show "reads_master fe bp (data_upd (pg_data pg) f vm)" "reads_master fe bp (vm\<lparr>vm_mem := (vm_mem vm)\<lparr>m_wr_cache := (p, pg_data pg)\<rparr>\<rparr>)"
      using g reads_masterD(4) [OF g that] by (simp_all add: reads_master_def isolated_def data_upd_def)
  qed
  obtain ok ws where ws: "fe_ws_alloc fe (vm_ws vm) PageSize = (ok, ws)"
    by fastforce
  let ?vm0 = "vm\<lparr>vm_ws := ws\<rparr>"
  have coh0: "coherent bp ?vm0" and v0: "page_view bp ?vm0 = page_view bp vm"
    using coh by (simp_all add: coherent_def page_view_def fun_eq_iff split: option.splits)
  {
    assume p: "find_page p vm = None"
    let ?pp = "parent_page (fe_parent fe) p"
    let ?pg = "Page_non_owned ((pg_attr ?pp)\<lparr>pa_non_owning := True, pa_is_cow := pa_write (pg_attr ?pp), pa_write := False\<rparr>) (pg_data ?pp)"
    have r: "page_readf_handler (fork_handlers fe) p vm = (Inr ?pg, invalidate_cache p (put_page p ?pg vm))"
      using p by (simp add: fork_handlers_def fork_page_readf_def Let_def case_prod_beta allocate_page_fresh)
    have ne: "pg_data x \<noteq> pg_data ?pg" if "find_page q vm = Some x" "pa_write (pg_attr x)" for q x
      using reads_masterD(4) [OF g that] parent_page_shared [of "fe_parent fe" p] by (auto simp: Page_non_owned_def)
    have pg: "\<not> pa_write (pg_attr ?pg)" "pg_data ?pg < vm_next vm" "vm_data vm (pg_data ?pg) = bp p"
      using reads_masterD(2,3) [OF g] by (simp_all add: Page_non_owned_def)
    have v: "coherent bp (invalidate_cache p (put_page p ?pg vm))" "page_view bp (put_page p ?pg vm) = page_view bp vm"
      by (rule shared_page_view [OF coh p pg]; use ne in blast)+
    have "reads_master fe bp (invalidate_cache p (put_page p ?pg vm))"
      using reads_master_keeps [OF g fork_pages.readf_keeps [OF reads_masterD(1) [OF g] p]] r by simp
    then show "\<exists>pg vm'. page_readf_handler (fork_handlers fe) p vm = (Inr pg, vm') \<and> reads_master fe bp vm' \<and> coherent bp vm' \<and>
        page_view bp vm' = page_view bp vm \<and> vm_data vm' (pg_data pg) = bp p \<and>
        (find_page p vm' = Some pg \<or> find_page p vm' = None \<and> pg_data pg = zero_id \<and> bp p = zero_data)"
      using v pg(3) r
      by (intro exI [where x = ?pg], intro exI [where x = "invalidate_cache p (put_page p ?pg vm)"], simp)
    show "reads_master fe bp vm' \<and> coherent bp (invalidate_cache p vm') \<and> find_page p vm' = Some pg \<and>
        (\<forall>q. q \<noteq> p \<longrightarrow> page_view bp vm' q = page_view bp vm q) \<and> (init \<longrightarrow> page_view bp vm' p = zero_data)"
      if f: "page_fault_handler (fork_handlers fe) p init vm = (Inr pg, vm')"
    proof -
      let ?c = "if init then zero_data else fe_garbage fe"
      have "vm' = invalidate_cache p (put_page p pg (snd (new_page_data ?c ?vm0))) \<and> pg_data pg = vm_next ?vm0"
        using f p by (auto simp: fork_handlers_def fork_page_fault_def ws Let_def case_prod_beta allocate_page_fresh out_of_memory_def
          Page_non_owned_def split: if_splits)
      moreover have "reads_master fe bp vm'"
        using reads_master_keeps [OF g fork_pages.fault_keeps [OF reads_masterD(1) [OF g] p, of init]] f by simp
      ultimately show ?thesis
        using fresh_page_view [OF coh0, of p pg ?c] p v0 by auto
    qed
  }
  show "reads_master fe bp vm' \<and> coherent bp (invalidate_cache p vm') \<and> page_view bp vm' = page_view bp vm \<and>
      (\<exists>pg'. find_page p vm' = Some pg' \<and> pa_write (pg_attr pg'))"
    if p: "find_page p vm = Some pg" "pa_is_cow (pg_attr pg)" "\<not> pa_write (pg_attr pg)"
      and w: "page_write_handler (fork_handlers fe) p vm = (Inr u, vm')"
  proof -
    let ?d = "vm_data vm (pg_data pg)"
    obtain a where "vm' = put_page p \<lparr> pg_attr = a, pg_data = vm_next ?vm0 \<rparr> (snd (new_page_data ?d ?vm0))" "pa_write a"
      using w p by (auto simp: fork_handlers_def fork_page_write_def make_writable_def ws Let_def case_prod_beta out_of_memory_def
        split: if_splits)
    moreover have "page_view bp vm p = ?d"
      using p by (simp add: page_view_def)
    moreover have "reads_master fe bp vm'"
      using reads_master_keeps [OF g fork_pages.write_keeps [OF reads_masterD(1) [OF g] p(1,2)]] w by simp
    ultimately show ?thesis
      using fresh_page_view [OF coh0, of p _ ?d] p v0 by (simp add: fun_upd_idem)
  qed
qed

end
