(* ===== verification/Guest_Memory.thy ===== *)
theory Guest_Memory
  imports Page_Coherence
begin

text \<open>
  Bulk operations on guest memory seen byte by byte, and their isolation: lemmas of the
  interfaces \<open>paged_memory\<close> and \<open>page_isolation\<close> for copies, fills and string scans.
\<close>

section \<open>Bytes of guest memory\<close>

definition byte_at :: "(nat \<Rightarrow> PageData) \<Rightarrow> 'w VM \<Rightarrow> nat \<Rightarrow> 8 word" where
  "byte_at base vm a = page_view base vm (a div PageSize) (a mod PageSize)"

lemma load_store_le: "load_le (store_le d off n v) off n = v mod 256 ^ n"
proof (induction n arbitrary: d off v)
  case 0
  then show ?case by simp
next
  case (Suc n)
  have keep: "store_le d off' n v off = d off" if "off < off'" for d off' n v off
    using that by (induction n arbitrary: d off' v) auto
  have "v mod (256 * 256 ^ n) = 256 * (v div 256 mod 256 ^ n) + v mod 256"
    by (rule mod_mult2_eq)
  moreover have "unat (of_nat v :: 8 word) = v mod 256"
    by (simp add: unat_of_nat)
  ultimately show ?case
    using Suc by (simp add: keep)
qed

lemma page_split:
  assumes "a mod PageSize + n \<le> PageSize" and "a \<le> b" and "b < a + n"
  shows "b div PageSize = a div PageSize" and "b mod PageSize = a mod PageSize + (b - a)"
proof -
  obtain k where b: "b = a + k" and k: "k < n"
    using assms(2,3) by (metis add_less_cancel_left le_Suc_ex)
  have lt: "a mod 4096 + k < 4096"
    using assms(1) k by (simp add: PageSize_def)
  have "b = (a mod 4096 + k) + a div 4096 * 4096"
    using b by simp
  then have "b div 4096 = (a mod 4096 + k) div 4096 + a div 4096" "b mod 4096 = (a mod 4096 + k) mod 4096"
    by (metis add.commute div_mult_self3 zero_neq_numeral, metis mod_mult_self1)
  then show "b div PageSize = a div PageSize" "b mod PageSize = a mod PageSize + (b - a)"
    using lt b by (simp_all add: PageSize_def)
qed

lemma page_split_inv:
  assumes "a mod PageSize + n \<le> PageSize" and "b div PageSize = a div PageSize"
    and "a mod PageSize \<le> b mod PageSize" and "b mod PageSize < a mod PageSize + n"
  shows "a \<le> b" and "b < a + n" and "b mod PageSize - a mod PageSize = b - a"
proof -
  have b: "b = a div 4096 * 4096 + b mod 4096" and a: "a = a div 4096 * 4096 + a mod 4096"
    using assms(2) div_mult_mod_eq [of b 4096] by (simp_all add: PageSize_def)
  show "a \<le> b" "b < a + n" "b mod PageSize - a mod PageSize = b - a"
    using assms(3,4) a b unfolding PageSize_def by linarith+
qed

context paged_memory
begin

text \<open>
  One round of a bulk store: \<open>n\<close> bytes in one page.  Where the whole page is overwritten, its
  previous contents do not matter, initialised or not.
\<close>

lemma store_round:
  assumes g: "good vm" and coh: "coherent base vm" and z: "base (a div PageSize) = zero_data"
    and n: "a mod PageSize + n \<le> PageSize"
    and r: "create_writable_pageno H (a div PageSize) (n \<noteq> PageSize) vm = (Inr pg, vm1)"
    and h: "\<And>d i. h d i = (if a mod PageSize \<le> i \<and> i < a mod PageSize + n then f (i - a mod PageSize) else d i)"
  shows "good (data_upd (pg_data pg) h vm1)" "coherent base (data_upd (pg_data pg) h vm1)"
    "byte_at base (data_upd (pg_data pg) h vm1) = (\<lambda>b. if a \<le> b \<and> b < a + n then f (b - a) else byte_at base vm b)"
proof -
  let ?p = "a div PageSize"
  have v: "good vm1" "coherent base vm1" "find_page ?p vm1 = Some pg" "pa_write (pg_attr pg)"
    "\<And>q. q \<noteq> ?p \<Longrightarrow> page_view base vm1 q = page_view base vm q"
    "n \<noteq> PageSize \<Longrightarrow> page_view base vm1 ?p = page_view base vm ?p"
    using create_writable_view [OF g coh _ r] z by auto
  show "good (data_upd (pg_data pg) h vm1)" "coherent base (data_upd (pg_data pg) h vm1)"
    using good_data [OF v(1-4)] data_upd_view(2) [OF v(2-4)] by blast+
  have pv: "page_view base (data_upd (pg_data pg) h vm1) = (page_view base vm1)(?p := h (page_view base vm1 ?p))"
    by (rule data_upd_view(1) [OF v(2-4)])
  show "byte_at base (data_upd (pg_data pg) h vm1) = (\<lambda>b. if a \<le> b \<and> b < a + n then f (b - a) else byte_at base vm b)"
  proof (rule ext)
    fix b
    show "byte_at base (data_upd (pg_data pg) h vm1) b = (if a \<le> b \<and> b < a + n then f (b - a) else byte_at base vm b)"
    proof (cases "a \<le> b \<and> b < a + n")
      case True
      then show ?thesis
        using page_split [OF n, of b] by (auto simp: byte_at_def pv h)
    next
      case False
      have "n = PageSize \<Longrightarrow> a mod PageSize = 0"
        using n by simp
      moreover have "b mod PageSize < PageSize"
        by (simp add: PageSize_def)
      moreover have "\<not> (a mod PageSize \<le> b mod PageSize \<and> b mod PageSize < a mod PageSize + n)" if "b div PageSize = ?p"
        using page_split_inv(1,2) [OF n that] False by blast
      ultimately show ?thesis
        using False v(5) v(6) by (cases "b div PageSize = ?p"; cases "n = PageSize") (auto simp: byte_at_def pv h)
    qed
  qed
qed

lemma memcpy_bytes:
  assumes "good vm" and "coherent base vm" and "dst + length src \<le> 2 ^ 64"
    and "\<And>a. dst \<le> a \<Longrightarrow> a < dst + length src \<Longrightarrow> base (a div PageSize) = zero_data"
    and "mem_memcpy H dst src vm = (Inr u, vm')"
  shows "good vm' \<and> coherent base vm' \<and>
    byte_at base vm' = (\<lambda>b. if dst \<le> b \<and> b < dst + length src then src ! (b - dst) else byte_at base vm b)"
  using assms
proof (induction "length src" arbitrary: src dst vm rule: less_induct)
  case less
  show ?case
  proof (cases "src = []")
    case True
    then show ?thesis
      using less.prems by (auto simp: fun_eq_iff mem_memcpy.simps [of H dst "[]"])
  next
    case False
    define n where "n = min (PageSize - dst mod PageSize) (length src)"
    have off: "dst mod PageSize < PageSize"
      by (simp add: PageSize_def)
    have n: "dst mod PageSize + n \<le> PageSize" "n \<le> length src" "0 < n"
      using False off by (auto simp: n_def)
    obtain pg vm1 where c: "create_writable_pageno H (dst div PageSize) (n \<noteq> PageSize) vm = (Inr pg, vm1)"
      and rest: "mem_memcpy H (add64 dst n) (drop n src) (data_upd (pg_data pg) (copy_bytes (dst mod PageSize) (take n src)) vm1) = (Inr u, vm')"
      using less.prems(5) False by (subst (asm) mem_memcpy.simps) (auto simp: Let_def n_def split: prod.splits sum.splits)
    let ?vm2 = "data_upd (pg_data pg) (copy_bytes (dst mod PageSize) (take n src)) vm1"
    have z: "base (dst div PageSize) = zero_data"
      using less.prems(4) [of dst] False by simp
    note round = store_round [OF less.prems(1,2) z n(1) c, of "copy_bytes (dst mod PageSize) (take n src)" "\<lambda>i. src ! i"]
    have h: "copy_bytes (dst mod PageSize) (take n src) d i =
      (if dst mod PageSize \<le> i \<and> i < dst mod PageSize + n then src ! (i - dst mod PageSize) else d i)" for d i
      using n(2) by (auto simp: copy_bytes_def)
    show ?thesis
    proof (cases "n = length src")
      case True
      then have "vm' = ?vm2"
        using rest by (subst (asm) mem_memcpy.simps) simp
      then show ?thesis
        using round [OF h] True by simp
    next
      case False
      then have lt: "n < length src"
        using n(2) by simp
      have add: "add64 dst n = dst + n"
        using less.prems(3) lt by (simp add: add64_def)
      have ih: "good vm' \<and> coherent base vm' \<and> byte_at base vm' = (\<lambda>b. if dst + n \<le> b \<and> b < dst + n + length (drop n src)
          then drop n src ! (b - (dst + n)) else byte_at base ?vm2 b)"
        by (rule less.hyps) (use less.prems(3,4) round [OF h] rest lt n(3) add in auto)
      have "(if dst + n \<le> b \<and> b < dst + n + length (drop n src) then drop n src ! (b - (dst + n)) else
             if dst \<le> b \<and> b < dst + n then src ! (b - dst) else byte_at base vm b) =
            (if dst \<le> b \<and> b < dst + length src then src ! (b - dst) else byte_at base vm b)" for b
        using lt by (auto simp: nth_drop)
      then show ?thesis
        using ih unfolding round(3) [OF h] by (simp only: simp_thms)
    qed
  qed
qed

text \<open>Copying out of guest memory returns the bytes the guest sees and changes none of them.\<close>

lemma memcpy_out_bytes:
  assumes "good vm" and "coherent base vm" and "src + len \<le> 2 ^ 64"
    and "mem_memcpy_out H src len vm = (Inr bs, vm')"
  shows "good vm' \<and> coherent base vm' \<and> page_view base vm' = page_view base vm \<and> bs = map (byte_at base vm) [src ..< src + len]"
  using assms
proof (induction len arbitrary: src bs vm rule: less_induct)
  case (less len)
  show ?case
  proof (cases "len = 0")
    case True
    then show ?thesis
      using less.prems by (simp add: mem_memcpy_out.simps [of H src 0])
  next
    case False
    define n where "n = min (PageSize - src mod PageSize) len"
    have off: "src mod PageSize < PageSize"
      by (simp add: PageSize_def)
    have n: "src mod PageSize + n \<le> PageSize" "n \<le> len" "0 < n"
      using False off by (auto simp: n_def)
    obtain pg vm1 where gp: "get_pageno H (page_number src) vm = (Inr pg, vm1)" "good vm1" "coherent base vm1"
      "page_view base vm1 = page_view base vm" "vm_data vm1 (pg_data pg) = page_view base vm (page_number src)"
      by (rule get_pageno_view [OF less.prems(1,2)])
    obtain rest where rest: "mem_memcpy_out H (add64 src n) (len - n) vm1 = (Inr rest, vm')"
      and bs: "bs = map (vm_data vm1 (pg_data pg)) [src mod PageSize ..< src mod PageSize + n] @ rest"
      using less.prems(4) False
      by (subst (asm) mem_memcpy_out.simps) (auto simp: Let_def n_def gp(1) protection_fault_def split: prod.splits sum.splits if_splits)
    have first_at: "byte_at base vm (src + i) = page_view base vm (page_number src) (src mod PageSize + i)" if "i < n" for i
      using page_split [OF n(1), of "src + i"] that by (simp add: byte_at_def page_number_def)
    have first: "map (vm_data vm1 (pg_data pg)) [src mod PageSize ..< src mod PageSize + n] = map (byte_at base vm) [src ..< src + n]"
      using first_at by (intro nth_equalityI) (simp_all add: gp(5))
    have b1: "byte_at base vm1 = byte_at base vm"
      by (simp add: byte_at_def fun_eq_iff gp(4))
    have "good vm' \<and> coherent base vm' \<and> page_view base vm' = page_view base vm1 \<and> rest = map (byte_at base vm1) [src + n ..< src + n + (len - n)]"
    proof (cases "n = len")
      case True
      then show ?thesis
        using rest gp(2,3) by (simp add: mem_memcpy_out.simps [of H _ 0])
    next
      case False
      then have "add64 src n = src + n" "src + n + (len - n) \<le> 2 ^ 64"
        using less.prems(3) n(2) by (simp_all add: add64_def)
      then show ?thesis
        using less.IH [of "len - n" vm1 "src + n" rest] rest gp(2,3) n(2,3) by simp
    qed
    moreover have "[src ..< src + len] = [src ..< src + n] @ [src + n ..< src + len]"
      using n(2) upt_add_eq_append [of src "src + n" "len - n"] by simp
    ultimately show ?thesis
      using gp(4) bs first b1 n(2) by simp
  qed
qed

end

section \<open>Isolation of bulk operations\<close>

context page_isolation
begin

lemma data_upd_keeps: "keeps F vm0 vm \<Longrightarrow> d \<notin> F \<Longrightarrow> keeps F vm0 (data_upd d f vm)"
  by (auto simp: keeps_def same_on_def isolated_def data_upd_def)

text \<open>One round of a bulk store: a page is made writable, then written.\<close>

lemma store_round_keeps:
  assumes iso: "isolated F vm" and c: "create_writable_pageno H p init vm = (r, vm1)"
  shows "keeps F vm vm1" and "r = Inr pg \<Longrightarrow> keeps F vm (data_upd (pg_data pg) f vm1)"
  using create_writable_keeps [OF iso, of p init] data_upd_keeps c by auto

lemma memset_keeps: "isolated F vm \<Longrightarrow> keeps F vm (snd (mem_memset H dst v len vm))"
proof (induction len arbitrary: dst vm rule: less_induct)
  case (less len)
  let ?n = "min (PageSize - dst mod PageSize) len"
  have n: "len \<noteq> 0 \<Longrightarrow> len - ?n < len"
    by (simp add: PageSize_def)
  obtain r vm1 where c: "create_writable_pageno H (dst div PageSize) (?n \<noteq> PageSize) vm = (r, vm1)"
    by fastforce
  note k = store_round_keeps [OF less.prems c]
  have ih: "keeps F vm (snd (mem_memset H d v (len - ?n) vm2))" if "keeps F vm vm2" "len \<noteq> 0" for d vm2
    using less.IH [OF n [OF that(2)], of vm2 d] that(1) keeps_trans by (auto simp: keeps_def same_on_def)
  show ?case
    using k ih keeps_refl [OF less.prems]
    by (subst mem_memset.simps) (auto simp: Let_def c simp del: min.absorb1 min.absorb2 split: sum.splits)
qed

lemma memcpy_keeps: "isolated F vm \<Longrightarrow> keeps F vm (snd (mem_memcpy H dst src vm))"
proof (induction "length src" arbitrary: dst src vm rule: less_induct)
  case less
  let ?n = "min (PageSize - dst mod PageSize) (length src)"
  have n: "src \<noteq> [] \<Longrightarrow> length (drop ?n src) < length src"
    by (simp add: PageSize_def)
  obtain r vm1 where c: "create_writable_pageno H (dst div PageSize) (?n \<noteq> PageSize) vm = (r, vm1)"
    by fastforce
  note k = store_round_keeps [OF less.prems c]
  have ih: "keeps F vm (snd (mem_memcpy H d (drop ?n src) vm2))" if "keeps F vm vm2" "src \<noteq> []" for d vm2
    using less.hyps [OF n [OF that(2)], of vm2 d] that(1) keeps_trans by (auto simp: keeps_def same_on_def)
  show ?case
    using k ih keeps_refl [OF less.prems]
    by (subst mem_memcpy.simps) (auto simp: Let_def c split: sum.splits)
qed

lemma memcpy_out_keeps: "isolated F vm \<Longrightarrow> keeps F vm (snd (mem_memcpy_out H src len vm))"
proof (induction len arbitrary: src vm rule: less_induct)
  case (less len)
  let ?n = "min (PageSize - src mod PageSize) len"
  have n: "len \<noteq> 0 \<Longrightarrow> len - ?n < len"
    by (simp add: PageSize_def)
  obtain r vm1 where g: "get_pageno H (page_number src) vm = (r, vm1)"
    by fastforce
  then have k: "keeps F vm vm1"
    using get_pageno_keeps [OF less.prems, of "page_number src"] by simp
  have "keeps F vm vm2" if "len \<noteq> 0" "mem_memcpy_out H s (len - ?n) vm1 = (x, vm2)" for s x vm2
    using less.IH [OF n [OF that(1)], of vm1 s] k that(2) keeps_trans by (auto simp: keeps_def same_on_def)
  then show ?case
    using k keeps_refl [OF less.prems]
    by (subst mem_memcpy_out.simps) (auto simp: Let_def g protection_fault_def split: sum.splits prod.splits)
qed

lemma strlen_keeps: "isolated F vm \<Longrightarrow> keeps F vm (snd (mem_strlen_loop H addr maxlen len vm))"
proof (induction "maxlen - len" arbitrary: addr len vm rule: less_induct)
  case less
  obtain r vm1 where g: "get_readable_pageno H (page_number addr) vm = (r, vm1)"
    by fastforce
  then have k: "keeps F vm vm1"
    using get_readable_keeps [OF less.prems, of "page_number addr"] by simp
  have "keeps F vm (snd (mem_strlen_loop H a maxlen l vm1))" if "len < l" "l < maxlen" for a l
    using less.hyps [of l vm1 a] k that keeps_trans by (auto simp: keeps_def same_on_def)
  moreover have "0 < PageSize - addr mod PageSize"
    by (simp add: PageSize_def)
  ultimately show ?case
    using k by (subst mem_strlen_loop.simps) (auto simp: Let_def g split: sum.splits)
qed

end

end
