(* ===== verification/Mman.thy ===== *)
theory Mman
  imports Guest_Memory
begin

text \<open>
  Memory mapping for guests: the cache of unmapped ranges (\<open>mmap_cache.hpp\<close>), \<open>mmap_unmap\<close> of \<open>memory_mmap.cpp\<close>,
  \<open>memdiscard\<close> of \<open>memory_rw.cpp\<close> and the system calls of \<open>linux/syscalls_mman.cpp\<close>, all
  under \<open>src/src/libriscv/lib/libriscv\<close>.  A system call takes its arguments as numbers and returns
  the value it leaves in the result register.  The module gives no file descriptors to its guests, so \<open>mmap\<close>
  of a file is the exception of the source.
\<close>

section \<open>The cache of unmapped ranges\<close>

text \<open>A range is an address and a size; the cache is the vector \<open>m_lines\<close>.\<close>

type_synonym Range = "nat \<times> nat"

definition range_empty :: "Range \<Rightarrow> bool" where
  "range_empty r \<longleftrightarrow> snd r = 0"

definition range_within :: "Range \<Rightarrow> nat \<Rightarrow> nat \<Rightarrow> bool" where
  "range_within r mem memsize \<longleftrightarrow>
     (fst r \<ge> mem \<and> add64 (fst r) (snd r) \<le> add64 mem memsize) \<or>
     (mem \<ge> fst r \<and> add64 mem memsize \<le> add64 (fst r) (snd r))"

definition range_equals :: "Range \<Rightarrow> nat \<Rightarrow> nat \<Rightarrow> bool" where
  "range_equals r mem memsize \<longleftrightarrow> fst r = mem \<and> add64 (fst r) (snd r) = add64 mem memsize"

fun cache_find :: "nat \<Rightarrow> Range list \<Rightarrow> Range \<times> Range list" where
  "cache_find sz [] = ((0, 0), [])"
| "cache_find sz (r # rs) =
    (if \<not> range_empty r \<and> snd r \<ge> sz then
       ((fst r, sz), if snd r > sz then (add64 (fst r) sz, sub64 (snd r) sz) # rs else rs)
     else let (res, rs') = cache_find sz rs in (res, r # rs'))"

fun cache_invalidate :: "nat \<Rightarrow> nat \<Rightarrow> Range list \<Rightarrow> Range list" where
  "cache_invalidate addr sz [] = []"
| "cache_invalidate addr sz (r # rs) =
    (if range_within r addr sz then (if range_equals r addr sz then rs else cache_invalidate addr sz rs)
     else r # cache_invalidate addr sz rs)"

definition cache_insert :: "nat \<Rightarrow> nat \<Rightarrow> Range list \<Rightarrow> Range list" where
  "cache_insert addr sz rs =
    (if rs \<noteq> [] \<and> add64 (fst (last rs)) (snd (last rs)) = addr
     then butlast rs @ [(fst (last rs), add64 (snd (last rs)) sz)]
     else rs @ [(addr, sz)])"

section \<open>Unmapping and discarding\<close>

definition BRK_MAX :: nat where
  "BRK_MAX = 1048576"

definition mmap_start :: "Memory \<Rightarrow> nat" where
  "mmap_start mem = add64 (m_heap_address mem) BRK_MAX"

definition page_align :: "nat \<Rightarrow> nat" where
  "page_align len = align_down 12 (add64 len (PageSize - 1))"

definition mmap_unmap :: "nat \<Rightarrow> nat \<Rightarrow> Memory \<Rightarrow> bool \<times> Memory" where
  "mmap_unmap addr len mem =
    (let sz = page_align len;
         (relaxed, mem1) = mmap_relax addr sz 0 mem
     in if relaxed then (True, mem1\<lparr>m_mmap_cache := cache_invalidate addr sz (m_mmap_cache mem1)\<rparr>)
        else if addr \<ge> mmap_start mem1 then (False, mem1\<lparr>m_mmap_cache := cache_insert addr sz (m_mmap_cache mem1)\<rparr>)
        else (False, mem1))"

text \<open>
  On a whole page \<open>memdiscard\<close> calls \<open>madvise\<close> of the host's operating system: \<open>MA d b\<close> is what that
  call makes of the contents \<open>b\<close> of the page buffer \<open>d\<close>.
\<close>

type_synonym host_madvise = "nat \<Rightarrow> PageData \<Rightarrow> PageData"

function memdiscard :: "host_madvise \<Rightarrow> 'w PageHandlers \<Rightarrow> nat \<Rightarrow> nat \<Rightarrow> bool \<Rightarrow> 'w VM \<Rightarrow> (unit, 'w VM) thrown" where
  "memdiscard MA H dst len ignore_protections vm =
    (if len = 0 then (Inr (), vm)
     else
       let offset = dst mod PageSize;
           n = min (PageSize - offset) len;
           pageno = page_number dst
       in case find_page pageno vm of
            None \<Rightarrow> memdiscard MA H (add64 dst n) (len - n) ignore_protections vm
          | Some pg \<Rightarrow>
              if is_cow_page pg then memdiscard MA H (add64 dst n) (len - n) ignore_protections vm
              else
                case (if pa_is_cow (pg_attr pg) then page_write_handler H pageno vm else (Inr (), vm)) of
                  (Inl e, vm1) \<Rightarrow> (Inl e, vm1)
                | (Inr _, vm1) \<Rightarrow>
                    let pg1 = (case find_page pageno vm1 of Some x \<Rightarrow> x | None \<Rightarrow> pg)
                    in if pa_write (pg_attr pg1) \<or> ignore_protections then
                         memdiscard MA H (add64 dst n) (len - n) ignore_protections
                           (data_upd (pg_data pg1)
                              (if offset = 0 \<and> n = PageSize then MA (pg_data pg1) else fill_bytes offset n 0) vm1)
                       else protection_fault dst vm1)"
  by pat_completeness auto
termination
  by (relation "measure (\<lambda>(MA, H, dst, len, ip, vm). len)") (auto simp: PageSize_def)

declare memdiscard.simps [simp del]

section \<open>System calls\<close>

text \<open>Page attributes from the protection bits of \<open>mmap\<close> and \<open>mprotect\<close>.\<close>

definition prot_attr :: "nat \<Rightarrow> PageAttributes" where
  "prot_attr prot = default_attr\<lparr>pa_read := odd prot, pa_write := odd (prot div 2), pa_exec := odd (prot div 4)\<rparr>"

definition upd_mem :: "(Memory \<Rightarrow> Memory) \<Rightarrow> 'w VM \<Rightarrow> 'w VM" where
  "upd_mem f vm = vm\<lparr>vm_mem := f (vm_mem vm)\<rparr>"

definition MAP_FAILED :: nat where
  "MAP_FAILED = 18446744073709551615"

definition sys_munmap :: "nat \<Rightarrow> nat \<Rightarrow> 'w VM \<Rightarrow> (nat, 'w VM) thrown" where
  "sys_munmap addr len vm =
    (if add64 addr len < addr then (Inl (MachineException SYSTEM_CALL_FAILED 0), vm)
     else
       let vm1 = free_pages addr len vm
       in (Inr 0, if addr \<ge> mmap_start (vm_mem vm1) \<and> add64 addr len \<le> m_mmap_address (vm_mem vm1)
                  then upd_mem (\<lambda>m. snd (mmap_unmap addr len m)) vm1 else vm1))"

definition take_nextfree :: "nat \<Rightarrow> Memory \<Rightarrow> (nat \<times> Memory) option" where
  "take_nextfree len mem =
    (if add64 (m_mmap_address mem) len < m_mmap_address mem then None
     else Some (m_mmap_address mem, mem\<lparr>m_mmap_address := add64 (m_mmap_address mem) len\<rparr>))"

text \<open>The address an anonymous \<open>mmap\<close> chooses, None where it fails.\<close>

definition mmap_place :: "nat \<Rightarrow> nat \<Rightarrow> bool \<Rightarrow> Memory \<Rightarrow> (nat \<times> Memory) option" where
  "mmap_place addr_g len fixed mem =
    (if addr_g = 0 then
       let (r, rs) = cache_find len (m_mmap_cache mem);
           mem1 = mem\<lparr>m_mmap_cache := rs\<rparr>
       in if range_empty r then take_nextfree len mem1 else Some (fst r, mem1)
     else if fixed \<and> addr_g < mmap_start mem then Some (addr_g, mem)
     else if addr_g < mmap_start mem then take_nextfree len mem
     else if fixed \<and> addr_g \<ge> mmap_start mem \<and> add64 addr_g len > addr_g \<and> add64 addr_g len \<le> m_mmap_address mem
       then Some (addr_g, mem)
     else if fixed \<and> addr_g > m_mmap_address mem then Some (addr_g, mem)
     else None)"

definition sys_mmap :: "host_madvise \<Rightarrow> 'w PageHandlers \<Rightarrow> nat \<Rightarrow> nat \<Rightarrow> nat \<Rightarrow> nat \<Rightarrow> int \<Rightarrow> 'w VM \<Rightarrow> (nat, 'w VM) thrown" where
  "sys_mmap MA H addr_g length0 prot flags vfd vm =
    (let len = page_align length0 in
     if addr_g mod PageSize \<noteq> 0 \<or> len = 0 then (Inr MAP_FAILED, vm)
     else if vfd \<noteq> -1 then (Inl (MachineException FEATURE_DISABLED 0), vm)
     else case mmap_place addr_g len (odd (flags div 0x10)) (vm_mem vm) of
       None \<Rightarrow> (Inr MAP_FAILED, vm)
     | Some (result, mem1) \<Rightarrow>
         (case (if odd (flags div 0x20) then memdiscard MA H result len True (vm\<lparr>vm_mem := mem1\<rparr>) else (Inr (), vm\<lparr>vm_mem := mem1\<rparr>)) of
            (Inl e, vm2) \<Rightarrow> (Inl e, vm2)
          | (Inr _, vm2) \<Rightarrow>
              (Inr result, if odd (flags div 0x4000) then vm2 else set_page_attr result len (prot_attr prot) vm2)))"

definition sys_mremap :: "nat \<Rightarrow> nat \<Rightarrow> nat \<Rightarrow> nat \<Rightarrow> 'w VM \<Rightarrow> (nat, 'w VM) thrown" where
  "sys_mremap old_addr old_size new_size flags vm =
    (if odd (flags div 2) then (Inr MAP_FAILED, vm)
     else if add64 old_addr old_size \<ge> old_addr \<and> add64 old_addr old_size = m_mmap_address (vm_mem vm) \<and>
             add64 old_addr new_size \<ge> old_addr
     then (Inr old_addr, upd_mem (\<lambda>m. m\<lparr>m_mmap_address := add64 old_addr new_size\<rparr>) vm)
     else (Inr MAP_FAILED, vm))"

definition sys_mprotect :: "nat \<Rightarrow> nat \<Rightarrow> nat \<Rightarrow> 'w VM \<Rightarrow> (nat, 'w VM) thrown" where
  "sys_mprotect addr len prot vm = (Inr 0, set_page_attr addr len (prot_attr prot) vm)"

definition EINVAL_result :: nat where
  "EINVAL_result = 18446744073709551594"

definition sys_madvise :: "host_madvise \<Rightarrow> 'w PageHandlers \<Rightarrow> nat \<Rightarrow> nat \<Rightarrow> int \<Rightarrow> 'w VM \<Rightarrow> (nat, 'w VM) thrown" where
  "sys_madvise MA H addr len advice vm =
    (if advice \<in> {0, 1, 2, 3, 10, 11, 12, 15, 18} then (Inr 0, vm)
     else if advice = 4 then
       (case memdiscard MA H addr len True vm of (Inl e, vm1) \<Rightarrow> (Inl e, vm1) | (Inr _, vm1) \<Rightarrow> (Inr 0, vm1))
     else if advice = 8 \<or> advice = 9 then (Inr 0, free_pages addr len vm)
     else if advice = -1 then (Inr EINVAL_result, vm)
     else (Inl (MachineException SYSTEM_CALL_FAILED (unat (word_of_int advice :: 64 word))), vm))"

end
