(* ===== verification/Memory_Safety.thy ===== *)
theory Memory_Safety
  imports Mman
begin

text \<open>
  Properties of guest memory: isolation of request VMs, coherence of loads, stores and copies, memory
  mappings, and the places where the code departs from what a guest would expect.
\<close>

section \<open>Sequences of memory operations\<close>

datatype mem_op = Load nat "64 word" | Store nat "64 word" nat | Fill "64 word" "8 word" nat
  | Copy_In "64 word" "8 word list" | Copy_Out "64 word" nat | Strlen "64 word" nat

definition outcome :: "('a, 's) thrown \<Rightarrow> (unit, 's) thrown option" where
  "outcome r = Some (case fst r of Inl e \<Rightarrow> Inl e | Inr _ \<Rightarrow> Inr (), snd r)"

fun mem_step :: "'w PageHandlers \<Rightarrow> mem_op \<Rightarrow> 'w VM \<Rightarrow> (unit, 'w VM) thrown option" where
  "mem_step H (Load n a) vm = outcome (mem_read H n (unat a) vm)"
| "mem_step H (Store n a v) vm = outcome (mem_write H n (unat a) v vm)"
| "mem_step H (Fill a v n) vm = outcome (mem_memset H (unat a) v n vm)"
| "mem_step H (Copy_In a bs) vm = outcome (mem_memcpy H (unat a) bs vm)"
| "mem_step H (Copy_Out a n) vm = outcome (mem_memcpy_out H (unat a) n vm)"
| "mem_step H (Strlen a n) vm = outcome (mem_strlen H (unat a) n vm)"

context page_isolation
begin

lemma mem_step_keeps:
  assumes "isolated F vm"
  shows "\<exists>r vm'. mem_step H x vm = Some (r, vm') \<and> keeps F vm vm'"
proof -
  have "unat (a :: 64 word) < 2 ^ 64" for a
    using unsigned_less [where ?'a = nat, of a] by simp
  then show ?thesis
    using assms mem_read_keeps mem_write_keeps memset_keeps memcpy_keeps memcpy_out_keeps strlen_keeps
    by (cases x) (auto simp: outcome_def mem_strlen_def)
qed

lemma mem_run_keeps: "isolated F vm \<Longrightarrow> \<exists>vm'. run_ops (mem_step H) ops vm = Some vm' \<and> keeps F vm vm'"
proof (induction ops arbitrary: vm)
  case Nil
  then show ?case
    by (simp add: keeps_refl)
next
  case (Cons x xs)
  obtain r vm1 where s: "mem_step H x vm = Some (r, vm1)" "keeps F vm vm1"
    using mem_step_keeps [OF Cons.prems] by blast
  then obtain vm' where "run_ops (mem_step H) xs vm1 = Some vm'" "keeps F vm1 vm'"
    using Cons.IH [of vm1] by (auto simp: keeps_def)
  then show ?case
    using s keeps_trans by auto
qed

end

text \<open>The host memory of a process with a master VM: every buffer in use has been handed out.\<close>

definition host_wf :: "'w VM \<Rightarrow> bool" where
  "host_wf host \<longleftrightarrow> (\<forall>d \<in> shared_data (vm_mem host). d < vm_next host) \<and> vm_data host zero_id = zero_data"

lemma fork_vm_sel [simp]:
  "find_page p (fork_vm master ws host) = None" "vm_data (fork_vm master ws host) = vm_data host"
  "vm_next (fork_vm master ws host) = vm_next host" "vm_ws (fork_vm master ws host) = ws"
  "m_rd_cache (vm_mem (fork_vm master ws host)) = (NO_PAGE, 0)" "m_wr_cache (vm_mem (fork_vm master ws host)) = (NO_PAGE, 0)"
  by (simp_all add: fork_vm_def machine_loader_def find_page_def)

lemma fork_vm_ready:
  assumes "host_wf host" and "fe_parent fe = vm_mem host"
  shows "reads_master fe (\<lambda>p. vm_data host (pg_data (parent_page (vm_mem host) p))) (fork_vm (vm_mem host) ws host)"
    and "coherent base (fork_vm (vm_mem host) ws host)"
  using assms by (auto simp: reads_master_def isolated_def host_wf_def coherent_def shared_data_def)

section \<open>Properties\<close>

text \<open>
  (C1) Isolation of a fork: whatever sequence of loads, stores, fills, copies and string scans a request
  VM executes, failing operations included, every page buffer of its master VM, and the static zero page and
  host page, keep their contents.
\<close>
theorem fork_memory_isolated:
  assumes "host_wf host" and "fe_parent fe = vm_mem host"
  shows "\<exists>vm'. run_ops (mem_step (fork_handlers fe)) ops (fork_vm (vm_mem host) ws host) = Some vm' \<and>
    (\<forall>d \<in> shared_data (vm_mem host). vm_data vm' d = vm_data host d)"
  using fork_pages.mem_run_keeps [of fe "fork_vm (vm_mem host) ws host" ops] reads_masterD(1) [OF fork_vm_ready(1) [OF assms]] assms(2)
  by (auto simp: keeps_def same_on_def)

definition demo_page :: Page where
  "demo_page = Page_non_owned (default_attr\<lparr>pa_user_defined := 1\<rparr>) 2"

definition demo_memory :: Memory where
  "demo_memory = \<lparr> m_pages = [(16, demo_page)], m_rd_cache = (NO_PAGE, 0), m_wr_cache = (NO_PAGE, 0), m_start_address = 65536,
     m_stack_address = 0x40000000, m_exit_address = 0, m_mmap_address = 0x50000000, m_heap_address = 0x4FF00000,
     m_mmap_cache = [] \<rparr>"

definition demo_host :: "nat VM" where
  "demo_host = \<lparr> vm_mem = demo_memory, vm_data = (\<lambda>d. if d = 0 then zero_data else if d = 1 then host_code_data else (\<lambda>i. of_nat i + 7)),
     vm_next = 3, vm_ws = 0 \<rparr>"

definition demo_fork :: "nat ForkEnv" where
  "demo_fork = \<lparr> fe_parent = demo_memory, fe_ws_alloc = (\<lambda>w n. (w < 16, w + 1)), fe_max_memory = 0, fe_garbage = (\<lambda>_. 255) \<rparr>"

lemmas demo_defs = demo_page_def demo_memory_def demo_host_def demo_fork_def

lemma demo_sel:
  "vm_mem demo_host = demo_memory" "fe_parent demo_fork = demo_memory" "vm_data demo_host 2 = (\<lambda>i. of_nat i + 7)"
    "map_of (m_pages demo_memory) 16 = Some demo_page"
  by (simp_all add: demo_host_def demo_fork_def demo_memory_def)

lemma demo_shared: "shared_data demo_memory = {0, 1, 2}"
  by (auto simp: demo_defs shared_data_def Page_non_owned_def zero_id_def host_id_def)

lemma demo_wf: "host_wf demo_host"
  by (simp add: host_wf_def demo_defs shared_data_def Page_non_owned_def zero_id_def host_id_def)

theorem fork_memory_isolated_witness:
  "\<exists>vm'. run_ops (mem_step (fork_handlers demo_fork)) [Load 8 0x10000, Store 8 0x10000 5, Fill 0x10000 9 4096]
      (fork_vm demo_memory 0 demo_host) = Some vm' \<and> vm_data vm' 2 = (\<lambda>i. of_nat i + 7)"
  using fork_memory_isolated [OF demo_wf, of demo_fork "[Load 8 0x10000, Store 8 0x10000 5, Fill 0x10000 9 4096]" 0]
  by (auto simp: demo_shared demo_sel simp del: run_ops.simps)



lemma demo_coherent: "coherent (\<lambda>_. zero_data) demo_host"
  by (simp add: coherent_def demo_defs find_page_def Page_non_owned_def zero_id_def default_attr_def)



text \<open>
  (C31) A request VM sees its master's memory: the first load of a fork returns the
  bytes of the master's page, for every address whose page the master may read.
\<close>
theorem fork_reads_master:
  assumes wf: "host_wf host" and fe: "fe_parent fe = vm_mem host" and a: "address < 2 ^ 64"
    and rd: "pa_read (pg_attr (parent_page (vm_mem host) (page_number address)))"
  shows "fst (mem_read (fork_handlers fe) n address (fork_vm (vm_mem host) ws host)) =
    Inr (load_le (vm_data host (pg_data (parent_page (vm_mem host) (page_number address)))) (access_offset n address) n)"
proof -
  let ?bp = "\<lambda>p. vm_data host (pg_data (parent_page (vm_mem host) p))"
  let ?f = "fork_vm (vm_mem host) ws host"
  obtain x vm' where r: "mem_read (fork_handlers fe) n address ?f = (Inr x, vm')"
    using rd fe page_number_valid [OF a]
    by (auto simp: mem_read_def cached_readable_page_def get_readable_pageno_def get_pageno_def fork_handlers_def fork_page_readf_def
        Let_def case_prod_beta allocate_page_fresh Page_non_owned_def)
  have "page_view ?bp ?f = ?bp"
    by (simp add: page_view_def fun_eq_iff)
  then show ?thesis
    using fork_memory.mem_read_view(1) [OF fork_vm_ready [OF wf fe] a r] r by simp
qed

lemma load_le_2: "load_le d off 2 = unat (d off) + 256 * unat (d (off + 1))"
  by (simp add: numeral_2_eq_2)

theorem fork_reads_master_witness:
  "fst (mem_read (fork_handlers demo_fork) 2 0x10004 (fork_vm demo_memory 0 demo_host)) = Inr 0x0C0B"
  using fork_reads_master [OF demo_wf, where fe = demo_fork and address = "0x10004" and n = 2 and ws = 0]
  by (simp add: demo_sel, simp add: demo_defs parent_page_def page_number_def PageSize_def Page_non_owned_def default_attr_def
      access_offset_def load_le_2)

section \<open>Where guest memory differs from an array of bytes\<close>

text \<open>
  A store of a request VM to a page it has not read yet loses the master's page: the page fault handler
  installs a zero page, so the other bytes of the page read as zero and no longer as the master's bytes.
\<close>
theorem fork_store_hides_master_page:
  assumes "fe_ws_alloc fe ws PageSize = (True, ws')" and "a < 2 ^ 64" and "page_number b = page_number a" and "b \<noteq> a"
  shows "\<exists>vm1. mem_write (fork_handlers fe) 1 a v (fork_vm (vm_mem host) ws host) = (Inr (), vm1) \<and>
    fst (mem_read (fork_handlers fe) 1 b vm1) = Inr 0"
proof -
  have "b mod PageSize \<noteq> a mod PageSize"
    using assms(3,4) by (metis div_mult_mod_eq page_number_def)
  moreover have "page_number a \<noteq> NO_PAGE"
    by (rule page_number_valid [OF assms(2)])
  ultimately show ?thesis
    using assms(1,3)
    by (simp add: mem_write_def mem_read_def cached_writable_page_def create_writable_pageno_def fork_handlers_def fork_page_fault_def
        allocate_page_fresh Page_non_owned_def default_attr_def Let_def case_prod_beta data_upd_def access_offset_def zero_data_def
        cached_readable_page_def get_readable_pageno_def get_pageno_def)
qed

theorem fork_store_hides_master_page_witness:
  "(\<exists>vm1. mem_write (fork_handlers demo_fork) 1 0x10000 5 (fork_vm demo_memory 0 demo_host) = (Inr (), vm1) \<and>
     fst (mem_read (fork_handlers demo_fork) 1 0x10004 vm1) = Inr 0) \<and>
   fst (mem_read (fork_handlers demo_fork) 1 0x10004 (fork_vm demo_memory 0 demo_host)) = Inr 11"
proof
  show "\<exists>vm1. mem_write (fork_handlers demo_fork) 1 0x10000 5 (fork_vm demo_memory 0 demo_host) = (Inr (), vm1) \<and>
     fst (mem_read (fork_handlers demo_fork) 1 0x10004 vm1) = Inr 0"
    using fork_store_hides_master_page [where fe = demo_fork and ws = 0 and ws' = 1 and a = "0x10000" and b = "0x10004" and v = 5 and host = demo_host]
    by (simp add: demo_sel page_number_def PageSize_def) (simp add: demo_fork_def)
  show "fst (mem_read (fork_handlers demo_fork) 1 0x10004 (fork_vm demo_memory 0 demo_host)) = Inr 11"
    by (simp add: mem_read_def fork_handlers_def fork_page_readf_def allocate_page_fresh Page_non_owned_def default_attr_def Let_def
        case_prod_beta access_offset_def cached_readable_page_def get_readable_pageno_def get_pageno_def page_number_def PageSize_def
        NO_PAGE_def demo_sel parent_page_def demo_page_def)
qed

text \<open>
  Reading first makes a private page read-only: once a request VM has read a page that its master never
  created, every store to the page is a protection fault, although the same store succeeds in a fresh fork.
\<close>
theorem fork_read_blocks_store:
  assumes "map_of (m_pages (fe_parent fe)) (page_number a) = None" and "a < 2 ^ 64" and "fe_ws_alloc fe ws PageSize = (True, ws')"
  shows "fst (mem_write (fork_handlers fe) n a v (snd (mem_read (fork_handlers fe) m a (fork_vm master ws host)))) =
      Inl (MachineException PROTECTION_FAULT (page_number a * PageSize)) \<and>
    fst (mem_write (fork_handlers fe) n a v (fork_vm master ws host)) = Inr ()"
  using assms page_number_valid [OF assms(2)]
  by (simp add: mem_write_def mem_read_def cached_writable_page_def create_writable_pageno_def fork_handlers_def fork_page_fault_def
        allocate_page_fresh Page_non_owned_def default_attr_def Let_def case_prod_beta fork_page_readf_def parent_page_def cow_page_def
        cached_readable_page_def get_readable_pageno_def get_pageno_def protection_fault_def)

theorem fork_read_blocks_store_witness:
  "fst (mem_write (fork_handlers demo_fork) 8 0x20000 1 (snd (mem_read (fork_handlers demo_fork) 8 0x20000 (fork_vm demo_memory 0 demo_host)))) =
      Inl (MachineException PROTECTION_FAULT 0x20000)"
  using fork_read_blocks_store [where fe = demo_fork and a = "0x20000" and ws = 0 and ws' = 1 and n = 8 and m = 8 and v = 1 and master = demo_memory
      and host = demo_host]
  by (simp add: page_number_def PageSize_def) (simp add: demo_fork_def demo_memory_def)

text \<open>The state of a fork that has read a read-only page of its master: the loaned page is not copy-on-write.\<close>

lemma page_start: "page_number (p * PageSize) = p" "p * PageSize mod PageSize = 0"
  by (simp_all add: page_number_def PageSize_def)

lemma fork_loans_rodata:
  assumes "map_of (m_pages (fe_parent fe)) p = Some pg" and "\<not> pa_write (pg_attr pg)" and "pa_read (pg_attr pg)"
    and "p * PageSize < 2 ^ 64" and vm1: "snd (mem_read (fork_handlers fe) 1 (p * PageSize) (fork_vm master ws host)) = vm1"
  shows "p \<noteq> NO_PAGE" "vm_data vm1 = vm_data host" "m_wr_cache (vm_mem vm1) = (NO_PAGE, 0)"
    "find_page p vm1 = Some (Page_non_owned ((pg_attr pg)\<lparr>pa_non_owning := True, pa_is_cow := False, pa_write := False\<rparr>) (pg_data pg))"
proof -
  show np: "p \<noteq> NO_PAGE"
    using page_number_valid [OF assms(4)] page_start by simp
  show "vm_data vm1 = vm_data host" "m_wr_cache (vm_mem vm1) = (NO_PAGE, 0)"
    "find_page p vm1 = Some (Page_non_owned ((pg_attr pg)\<lparr>pa_non_owning := True, pa_is_cow := False, pa_write := False\<rparr>) (pg_data pg))"
    using assms(1-3) np unfolding vm1 [symmetric]
    by (simp_all add: mem_read_def fork_handlers_def fork_page_readf_def allocate_page_fresh Let_def parent_page_def
        case_prod_beta cached_readable_page_def get_readable_pageno_def get_pageno_def page_start Page_non_owned_def)
qed

text \<open>
  (C34) A request VM can change its master's read-only pages: after it has read such a page, \<open>mprotect\<close>
  marks the loaned page writable in place, and the next store goes to the master's own buffer.
\<close>
theorem fork_mprotect_breaks_isolation:
  assumes "map_of (m_pages (fe_parent fe)) p = Some pg" and "\<not> pa_write (pg_attr pg)" and "pa_read (pg_attr pg)"
    and "p * PageSize < 2 ^ 64" and "pg_data pg \<noteq> zero_id" and "odd (prot div 2)"
  shows "\<exists>vm2 vm3. sys_mprotect (p * PageSize) PageSize prot
        (snd (mem_read (fork_handlers fe) 1 (p * PageSize) (fork_vm master ws host))) = (Inr 0, vm2) \<and>
      mem_write (fork_handlers fe) 1 (p * PageSize) v vm2 = (Inr (), vm3) \<and>
      vm_data vm3 (pg_data pg) = (vm_data host (pg_data pg))(0 := of_nat v)"
proof -
  obtain vm1 where vm1: "snd (mem_read (fork_handlers fe) 1 (p * PageSize) (fork_vm master ws host)) = vm1"
    by simp
  note l = fork_loans_rodata [OF assms(1-4) vm1]
  have s: "set_page_attr (p * PageSize) PageSize a vm = set_pageno_attr p a vm" for a :: PageAttributes and vm :: "'a VM"
    by (subst set_page_attr.simps) (simp add: page_start, simp add: PageSize_def set_page_attr.simps [of _ 0])
  let ?vm2 = "set_pageno_attr p (prot_attr prot) vm1"
  have "\<exists>pg2. find_page p ?vm2 = Some pg2 \<and> pa_write (pg_attr pg2) \<and> pg_data pg2 = pg_data pg"
    "vm_data ?vm2 = vm_data host" "m_wr_cache (vm_mem ?vm2) = (NO_PAGE, 0)"
    using l assms(5,6)
    by (auto simp: set_pageno_attr_def Let_def Page_non_owned_def is_cow_page_def apply_regular_attributes_def prot_attr_def default_attr_def)
  then show ?thesis
    using l(1) unfolding vm1
    by (auto simp: sys_mprotect_def s mem_write_def cached_writable_page_def create_writable_pageno_def page_start data_upd_def
        access_offset_def Let_def)
qed

text \<open>
  So can \<open>madvise\<close> on part of such a page, and in the same way a fixed anonymous \<open>mmap\<close>: \<open>memdiscard\<close> ignores
  the protection and zeroes the bytes in the master's own buffer.
\<close>
theorem fork_discard_breaks_isolation:
  assumes "map_of (m_pages (fe_parent fe)) p = Some pg" and "\<not> pa_write (pg_attr pg)" and "pa_read (pg_attr pg)"
    and "p * PageSize < 2 ^ 64" and "pg_data pg \<noteq> zero_id" and "n < PageSize"
  shows "vm_data (snd (sys_madvise MA (fork_handlers fe) (p * PageSize) n 4
      (snd (mem_read (fork_handlers fe) 1 (p * PageSize) (fork_vm master ws host))))) (pg_data pg) =
    (\<lambda>i. if i < n then 0 else vm_data host (pg_data pg) i)"
proof -
  obtain vm1 where vm1: "snd (mem_read (fork_handlers fe) 1 (p * PageSize) (fork_vm master ws host)) = vm1"
    by simp
  note l = fork_loans_rodata [OF assms(1-4) vm1]
  have z: "memdiscard MA H d 0 True vm = (Inr (), vm)" for H d and vm :: "'a VM"
    by (simp add: memdiscard.simps [of _ _ _ 0])
  have "vm_data (snd (memdiscard MA (fork_handlers fe) (p * PageSize) n True vm1)) (pg_data pg) =
      (\<lambda>i. if i < n then 0 else vm_data host (pg_data pg) i)"
    using l assms(5,6)
    by (subst memdiscard.simps) (auto simp: page_start z Page_non_owned_def is_cow_page_def data_upd_def fill_bytes_def Let_def)
  then show ?thesis
    unfolding vm1 by (simp add: sys_madvise_def case_prod_beta split: sum.splits prod.splits)
qed

definition demo_rodata :: Memory where
  "demo_rodata = demo_memory\<lparr>m_pages := [(16, \<lparr> pg_attr = default_attr\<lparr>pa_write := False\<rparr>, pg_data = 2 \<rparr>)]\<rparr>"

theorem fork_mprotect_breaks_isolation_witness:
  "\<exists>vm3. vm_data demo_host 2 0 = 7 \<and> vm_data vm3 2 0 = 99 \<and>
     mem_write (fork_handlers (demo_fork\<lparr>fe_parent := demo_rodata\<rparr>)) 1 0x10000 99 (snd (sys_mprotect 0x10000 4096 3
       (snd (mem_read (fork_handlers (demo_fork\<lparr>fe_parent := demo_rodata\<rparr>)) 1 0x10000 (fork_vm demo_rodata 0 demo_host))))) = (Inr (), vm3)"
  using fork_mprotect_breaks_isolation [where fe = "demo_fork\<lparr>fe_parent := demo_rodata\<rparr>" and p = 16 and
      pg = "\<lparr> pg_attr = default_attr\<lparr>pa_write := False\<rparr>, pg_data = 2 \<rparr>" and prot = 3 and v = 99 and master = demo_rodata
      and ws = 0 and host = demo_host]
  by (auto simp: demo_rodata_def default_attr_def zero_id_def PageSize_def demo_sel)

theorem fork_discard_breaks_isolation_witness:
  "vm_data (snd (sys_madvise (\<lambda>_ b. b) (fork_handlers (demo_fork\<lparr>fe_parent := demo_rodata\<rparr>)) 0x10000 8 4
      (snd (mem_read (fork_handlers (demo_fork\<lparr>fe_parent := demo_rodata\<rparr>)) 1 0x10000 (fork_vm demo_rodata 0 demo_host))))) 2 3 = 0"
  using fork_discard_breaks_isolation [where fe = "demo_fork\<lparr>fe_parent := demo_rodata\<rparr>" and p = 16 and n = 8 and
      pg = "\<lparr> pg_attr = default_attr\<lparr>pa_write := False\<rparr>, pg_data = 2 \<rparr>" and MA = "\<lambda>_ b. b" and master = demo_rodata
      and ws = 0 and host = demo_host]
  by (auto simp: demo_rodata_def default_attr_def zero_id_def PageSize_def demo_sel)

text \<open>
  Taking away write permission does not take effect on the page last written: \<open>mprotect\<close> changes the page table but not
  the write cache, so the next store to the page still succeeds although the page is read-only.
\<close>
theorem mprotect_leaves_write_cache:
  assumes "find_page p vm = Some pg" and "pa_write (pg_attr pg)" and "pa_cacheable (pg_attr pg)" and "\<not> pa_is_cow (pg_attr pg)"
    and "fst (m_wr_cache (vm_mem vm)) = NO_PAGE" and "p * PageSize < 2 ^ 64" and "pg_data pg \<noteq> zero_id"
  shows "\<exists>vm1 vm2 pg2. mem_write H 8 (p * PageSize) v vm = (Inr (), vm1) \<and>
    sys_mprotect (p * PageSize) PageSize 1 vm1 = (Inr 0, vm2) \<and> find_page p vm2 = Some pg2 \<and>
    \<not> pa_write (pg_attr pg2) \<and> \<not> pa_is_cow (pg_attr pg2) \<and> fst (mem_write H 8 (p * PageSize) v' vm2) = Inr ()"
proof -
  have np: "p \<noteq> NO_PAGE"
    using page_number_valid [OF assms(6)] page_start by simp
  have s: "set_page_attr (p * PageSize) PageSize a w = set_pageno_attr p a w" for a :: PageAttributes and w :: "'a VM"
    by (subst set_page_attr.simps) (simp add: page_start, simp add: PageSize_def set_page_attr.simps [of _ 0])
  show ?thesis
    using assms np
    by (simp add: mem_write_def cached_writable_page_def create_writable_pageno_def page_start data_upd_def
        Let_def sys_mprotect_def s set_pageno_attr_def apply_regular_attributes_def prot_attr_def default_attr_def is_cow_page_def)
qed

theorem mprotect_leaves_write_cache_witness:
  "\<exists>vm1 vm2. mem_write (master_handlers 0 0) 8 0x10000 1 demo_host = (Inr (), vm1) \<and> sys_mprotect 0x10000 4096 1 vm1 = (Inr 0, vm2) \<and>
     fst (mem_write (master_handlers 0 0) 8 0x10000 2 vm2) = Inr ()"
  using mprotect_leaves_write_cache [where p = 16 and vm = demo_host and pg = demo_page and H = "master_handlers 0 0" and v = 1 and v' = 2]
  by (auto simp: demo_sel find_page_def PageSize_def, auto simp: demo_defs Page_non_owned_def default_attr_def zero_id_def)

lemma strnlen_full: "(\<And>i. i < n \<Longrightarrow> d (off + i) \<noteq> 0) \<Longrightarrow> strnlen d off n = n"
proof (induction n arbitrary: off)
  case (Suc n)
  show ?case
    using Suc.prems [of 0] Suc.IH [of "off + 1"] Suc.prems [of "Suc i" for i] by simp
qed simp

text \<open>
  \<open>Memory::strlen\<close> skips pages of a long string: it advances the address by the length found so far and not by the
  length found in the last page.  For a string that starts at a page boundary and fills two pages, the
  third page looked at is the fourth page of the string, whatever the third page holds.
\<close>
theorem strlen_skips_third_page:
  assumes pages: "find_page p vm = Some pg0" "find_page (p + 1) vm = Some pg1" "find_page (p + 3) vm = Some pg3"
    and rd: "pa_read (pg_attr pg0)" "pa_read (pg_attr pg1)" "pa_read (pg_attr pg3)"
    and full: "\<And>i. i < PageSize \<Longrightarrow> vm_data vm (pg_data pg0) i \<noteq> 0" "\<And>i. i < PageSize \<Longrightarrow> vm_data vm (pg_data pg1) i \<noteq> 0"
    and stop: "vm_data vm (pg_data pg3) 0 = 0" and m: "2 * PageSize < maxlen" and fits: "(p + 4) * PageSize < 2 ^ 64"
  shows "mem_strlen H (p * PageSize) maxlen vm = (Inr (2 * PageSize), vm)"
proof -
  have a: "add64 (p * PageSize) PageSize = (p + 1) * PageSize" "add64 ((p + 1) * PageSize) (2 * PageSize) = (p + 3) * PageSize"
    "add64 (PageSize + p * PageSize) (2 * PageSize) = (p + 3) * PageSize"
    using fits by (simp_all add: add64_def algebra_simps)
  have g: "get_readable_pageno H q vm = (Inr pg, vm)" if "find_page q vm = Some pg" "pa_read (pg_attr pg)" for q pg
    using that by (simp add: get_readable_pageno_def get_pageno_def)
  have f: "strnlen (vm_data vm (pg_data pg0)) 0 PageSize = PageSize" "strnlen (vm_data vm (pg_data pg1)) 0 PageSize = PageSize"
    using strnlen_full [of PageSize _ 0] full by simp_all
  have z: "strnlen (vm_data vm (pg_data pg3)) 0 PageSize = 0"
    using stop by (simp add: PageSize_def numeral_eq_Suc)
  have "mem_strlen_loop H ((p + 3) * PageSize) maxlen (2 * PageSize) vm = (Inr (2 * PageSize), vm)"
    using m by (subst mem_strlen_loop.simps) (simp only: page_start Let_def g [OF pages(3) rd(3)] prod.case sum.case diff_zero z,
      simp add: PageSize_def)
  then have "mem_strlen_loop H ((p + 1) * PageSize) maxlen PageSize vm = (Inr (2 * PageSize), vm)"
    using m by (subst mem_strlen_loop.simps) (simp only: page_start Let_def g [OF pages(2) rd(2)] prod.case sum.case diff_zero f,
      simp add: a mult_2 [symmetric])
  then show ?thesis
    unfolding mem_strlen_def
    using m by (subst mem_strlen_loop.simps) (simp only: page_start Let_def g [OF pages(1) rd(1)] prod.case sum.case diff_zero f,
      simp add: a(1))
qed

definition demo_text :: "nat VM" where
  "demo_text = demo_host\<lparr>vm_mem := demo_memory\<lparr>m_pages := map (\<lambda>p. (p, \<lparr> pg_attr = default_attr, pg_data = p \<rparr>)) [16, 17, 18, 19]\<rparr>,
     vm_data := (\<lambda>d i. if d < 18 then 65 else if d = 18 \<and> i < 100 then 66 else 0)\<rparr>"

theorem strlen_skips_third_page_witness:
  "mem_strlen (master_handlers 0 0) 0x10000 65536 demo_text = (Inr 8192, demo_text) \<and> vm_data demo_text 18 0 = 66"
  using strlen_skips_third_page [where p = 16 and vm = demo_text and maxlen = 65536 and H = "master_handlers 0 0" and
      ?pg0.0 = "\<lparr> pg_attr = default_attr, pg_data = 16 \<rparr>" and ?pg1.0 = "\<lparr> pg_attr = default_attr, pg_data = 17 \<rparr>" and
      ?pg3.0 = "\<lparr> pg_attr = default_attr, pg_data = 19 \<rparr>"]
  by (simp add: PageSize_def find_page_def demo_text_def default_attr_def)

section \<open>Copies\<close>

text \<open>Pages a master VM may both read and write, possibly after copying or creating them.\<close>

definition accessible :: "'w VM \<Rightarrow> nat \<Rightarrow> bool" where
  "accessible vm p \<longleftrightarrow> (case find_page p vm of None \<Rightarrow> True
     | Some pg \<Rightarrow> pa_read (pg_attr pg) \<and> (pa_write (pg_attr pg) \<or> pa_is_cow (pg_attr pg)))"

lemma accessible_upd [simp]: "accessible (data_upd d f vm) = accessible vm"
  by (simp add: accessible_def data_upd_def fun_eq_iff)

lemma master_create_ok:
  assumes "accessible vm p"
  shows "\<exists>pg vm1. create_writable_pageno (master_handlers sb se) p init vm = (Inr pg, vm1) \<and> (\<forall>q. accessible vm q \<longrightarrow> accessible vm1 q)"
  using assms
  by (cases "find_page p vm")
    (auto simp: accessible_def create_writable_pageno_def master_handlers_def master_page_fault_def default_page_write_def make_writable_def
      allocate_page_fresh Page_non_owned_def default_attr_def Let_def case_prod_beta)

lemma master_memcpy_ok:
  assumes "\<forall>q. accessible vm q"
  shows "\<exists>vm1. mem_memcpy (master_handlers sb se) dst src vm = (Inr (), vm1) \<and> (\<forall>q. accessible vm1 q)"
  using assms
proof (induction "length src" arbitrary: dst src vm rule: less_induct)
  case less
  let ?n = "min (PageSize - dst mod PageSize) (length src)"
  obtain pg vm1 where c: "create_writable_pageno (master_handlers sb se) (dst div PageSize) (?n \<noteq> PageSize) vm = (Inr pg, vm1)"
    "\<forall>q. accessible vm1 q"
    using master_create_ok [of vm "dst div PageSize" sb se "?n \<noteq> PageSize"] less.prems by blast
  have "src \<noteq> [] \<Longrightarrow> length (drop ?n src) < length src"
    by (simp add: PageSize_def)
  then show ?case
    using less.hyps [of "drop ?n src" "data_upd (pg_data pg) (copy_bytes (dst mod PageSize) (take ?n src)) vm1"] c less.prems
    by (subst mem_memcpy.simps) (auto simp: Let_def)
qed

lemma master_memcpy_out_ok:
  assumes "\<forall>q. accessible vm q"
  shows "\<exists>bs vm1. mem_memcpy_out (master_handlers sb se) src len vm = (Inr bs, vm1)"
  using assms
proof (induction len arbitrary: src vm rule: less_induct)
  case (less len)
  let ?n = "min (PageSize - src mod PageSize) len"
  obtain pg where g: "get_pageno (master_handlers sb se) (page_number src) vm = (Inr pg, vm)" "pa_read (pg_attr pg)"
    using spec [OF less.prems, of "page_number src"]
    by (auto simp: get_pageno_def accessible_def master_handlers_def default_page_read_def cow_page_def default_attr_def split: option.splits)
  have "len \<noteq> 0 \<Longrightarrow> len - ?n < len"
    by (simp add: PageSize_def)
  then show ?case
    using less.IH [of "len - ?n" vm "add64 src ?n"] g less.prems
    by (subst mem_memcpy_out.simps) (auto simp: Let_def split: prod.splits)
qed


lemma demo_accessible: "\<forall>q. accessible demo_host q"
  by (simp add: accessible_def find_page_def demo_defs Page_non_owned_def default_attr_def)


section \<open>Memory mappings\<close>

text \<open>Ranges of the cache of unmapped memory that do not overlap and do not wrap around.\<close>

definition bytes_of :: "Range \<Rightarrow> nat set" where
  "bytes_of r = {fst r ..< fst r + snd r}"

fun ranges_ok :: "Range list \<Rightarrow> bool" where
  "ranges_ok [] \<longleftrightarrow> True"
| "ranges_ok (r # rs) \<longleftrightarrow> fst r + snd r < 2 ^ 64 \<and> (\<forall>x \<in> set rs. bytes_of r \<inter> bytes_of x = {}) \<and> ranges_ok rs"

definition cached_bytes :: "Range list \<Rightarrow> nat set" where
  "cached_bytes rs = (\<Union>r \<in> set rs. bytes_of r)"

lemma cached_bytes_Cons [simp]: "cached_bytes (r # rs) = bytes_of r \<union> cached_bytes rs"
  by (simp add: cached_bytes_def)

lemma ranges_ok_Cons: "ranges_ok (r # rs) \<longleftrightarrow> fst r + snd r < 2 ^ 64 \<and> bytes_of r \<inter> cached_bytes rs = {} \<and> ranges_ok rs"
  by (auto simp: cached_bytes_def)

lemma cache_find_split:
  assumes "fst r + snd r < 2 ^ 64" and "sz < snd r"
  shows "bytes_of (add64 (fst r) sz, sub64 (snd r) sz) = bytes_of r - bytes_of (fst r, sz)"
    and "add64 (fst r) sz + sub64 (snd r) sz < 2 ^ 64"
proof -
  have "add64 (fst r) sz = fst r + sz" "sub64 (snd r) sz = snd r - sz"
    using assms by (simp_all add: add64_def sub64_exact)
  then show "bytes_of (add64 (fst r) sz, sub64 (snd r) sz) = bytes_of r - bytes_of (fst r, sz)"
    "add64 (fst r) sz + sub64 (snd r) sz < 2 ^ 64"
    using assms by (auto simp: bytes_of_def)
qed



lemma memdiscard_empty: "m_pages (vm_mem vm) = [] \<Longrightarrow> memdiscard MA H dst len ip vm = (Inr (), vm)"
proof (induction len arbitrary: dst rule: less_induct)
  case (less len)
  have "len \<noteq> 0 \<Longrightarrow> len - min (PageSize - dst mod PageSize) len < len"
    by (simp add: PageSize_def)
  then show ?case
    using less by (subst memdiscard.simps) (simp add: Let_def find_page_def)
qed

lemma set_page_attr_empty: "m_pages (vm_mem vm) = [] \<Longrightarrow> is_default attr \<Longrightarrow> set_page_attr dst len attr vm = vm"
proof (induction len arbitrary: dst rule: less_induct)
  case (less len)
  have "len \<noteq> 0 \<Longrightarrow> len - min (PageSize - dst mod PageSize) len < len"
    by (simp add: PageSize_def)
  then show ?case
    using less by (subst set_page_attr.simps) (simp add: Let_def find_page_def set_pageno_attr_def)
qed

lemma free_pages_mem:
  assumes "m_pages (vm_mem vm) = []"
  shows "vm_mem (free_pages dst len vm) = (vm_mem vm)\<lparr>m_rd_cache := (NO_PAGE, snd (m_rd_cache (vm_mem vm))),
    m_wr_cache := (NO_PAGE, snd (m_wr_cache (vm_mem vm)))\<rparr>"
proof -
  have "set_pages (AList.delete p) vm = vm" for p
    using assms by (cases vm; cases "vm_mem vm") (simp add: set_pages_def)
  then have "free_pages_loop n p vm = vm" for n p
    by (induction n arbitrary: p) (simp_all add: free_pageno_def)
  then show ?thesis
    by (simp add: free_pages_def Let_def invalidate_reset_cache_def)
qed

text \<open>
  Unmapping the same memory twice gives it out twice: the second \<open>munmap\<close> puts the range into the cache again, and the next
  two anonymous mappings of this size get the same address.
\<close>
theorem double_munmap_overlaps:
  assumes "m_pages (vm_mem vm) = []" and "m_mmap_cache (vm_mem vm) = []" and "mmap_start (vm_mem vm) \<le> a"
    and "a + len < m_mmap_address (vm_mem vm)" and "m_mmap_address (vm_mem vm) < 2 ^ 64" and "0 < len" and "page_align len = len"
  shows "\<exists>vm1 vm2 vm3 vm4. sys_munmap a len vm = (Inr 0, vm1) \<and> sys_munmap a len vm1 = (Inr 0, vm2) \<and>
    sys_mmap MA H 0 len 3 0x22 (-1) vm2 = (Inr a, vm3) \<and> sys_mmap MA H 0 len 3 0x22 (-1) vm3 = (Inr a, vm4)"
proof -
  let ?m = "vm_mem vm"
  have add: "add64 a len = a + len"
    using assms(4,5) by (simp add: add64_exact)
  have ins: "cache_insert a len rs = rs @ [(a, len)]" if "rs = [] \<or> rs = [(a, len)]" for rs
    using that
  proof
    assume "rs = [(a, len)]"
    then show ?thesis
      using assms(6) add by (simp add: cache_insert_def)
  qed (simp add: cache_insert_def)
  have un: "\<exists>w'. sys_munmap a len w = (Inr 0, w') \<and> m_pages (vm_mem w') = [] \<and> m_mmap_cache (vm_mem w') = m_mmap_cache (vm_mem w) @ [(a, len)] \<and>
      m_mmap_address (vm_mem w') = m_mmap_address ?m \<and> m_heap_address (vm_mem w') = m_heap_address ?m"
    if "m_pages (vm_mem w) = []" "m_mmap_address (vm_mem w) = m_mmap_address ?m" "m_heap_address (vm_mem w) = m_heap_address ?m"
      "m_mmap_cache (vm_mem w) = [] \<or> m_mmap_cache (vm_mem w) = [(a, len)]" for w :: "'a VM"
    using that(1-3) ins [OF that(4)] assms add
    by (simp add: sys_munmap_def free_pages_mem upd_mem_def mmap_unmap_def mmap_relax_def mmap_start_def Let_def)
  have mm: "\<exists>w'. sys_mmap MA H 0 len 3 0x22 (-1) w = (Inr a, w') \<and> m_pages (vm_mem w') = [] \<and> m_mmap_cache (vm_mem w') = rs"
    if "m_pages (vm_mem w) = []" "m_mmap_cache (vm_mem w) = (a, len) # rs" for w :: "'a VM" and rs
    using that assms
    by (simp add: sys_mmap_def mmap_place_def range_empty_def memdiscard_empty set_page_attr_empty is_default_def prot_attr_def default_attr_def)
  obtain vm1 where 1: "sys_munmap a len vm = (Inr 0, vm1)" "m_pages (vm_mem vm1) = []" "m_mmap_cache (vm_mem vm1) = [(a, len)]"
    "m_mmap_address (vm_mem vm1) = m_mmap_address ?m" "m_heap_address (vm_mem vm1) = m_heap_address ?m"
    using un [of vm] assms by auto
  obtain vm2 where 2: "sys_munmap a len vm1 = (Inr 0, vm2)" "m_pages (vm_mem vm2) = []" "m_mmap_cache (vm_mem vm2) = [(a, len), (a, len)]"
    using un [of vm1] 1 by auto
  obtain vm3 where 3: "sys_mmap MA H 0 len 3 0x22 (-1) vm2 = (Inr a, vm3)" "m_pages (vm_mem vm3) = []" "m_mmap_cache (vm_mem vm3) = [(a, len)]"
    using mm [OF 2(2,3)] by auto
  show ?thesis
    using 1(1) 2(1) 3(1) mm [OF 3(2,3)] by auto
qed

definition demo_mapped :: "nat VM" where
  "demo_mapped = demo_host\<lparr>vm_mem := demo_memory\<lparr>m_pages := [], m_mmap_address := 0x50004000\<rparr>\<rparr>"

theorem double_munmap_overlaps_witness:
  "\<exists>vm1 vm2 vm3 vm4. sys_munmap 0x50001000 4096 demo_mapped = (Inr 0, vm1) \<and> sys_munmap 0x50001000 4096 vm1 = (Inr 0, vm2) \<and>
    sys_mmap (\<lambda>_ b. b) (master_handlers 0 0) 0 4096 3 0x22 (-1) vm2 = (Inr 0x50001000, vm3) \<and>
    sys_mmap (\<lambda>_ b. b) (master_handlers 0 0) 0 4096 3 0x22 (-1) vm3 = (Inr 0x50001000, vm4)"
  by (rule double_munmap_overlaps)
    (simp_all add: demo_mapped_def demo_memory_def mmap_start_def BRK_MAX_def add64_def page_align_def PageSize_def align_down_def)

text \<open>
  Discarding whole pages relies on the host: where the host's \<open>madvise\<close> rejects the page buffer, which Linux does
  for a buffer that is not aligned to a host page, \<open>madvise(MADV_DONTNEED)\<close> reports success and
  the old contents stay.
\<close>
theorem discard_needs_aligned_buffer:
  assumes "find_page p vm = Some pg" and "\<not> pa_is_cow (pg_attr pg)" and "pg_data pg \<noteq> zero_id" and "MA (pg_data pg) = (\<lambda>b. b)"
  shows "\<exists>vm1. sys_madvise MA H (p * PageSize) PageSize 4 vm = (Inr 0, vm1) \<and> vm_data vm1 (pg_data pg) = vm_data vm (pg_data pg)"
proof -
  have "memdiscard MA H d 0 True w = (Inr (), w)" for d and w :: "'a VM"
    by (simp add: memdiscard.simps [of _ _ _ 0])
  then have "memdiscard MA H (p * PageSize) PageSize True vm = (Inr (), data_upd (pg_data pg) (\<lambda>b. b) vm)"
    using assms by (subst memdiscard.simps) (simp add: page_start is_cow_page_def Let_def, simp add: PageSize_def)
  then show ?thesis
    by (simp add: sys_madvise_def data_upd_def)
qed

theorem discard_needs_aligned_buffer_witness:
  "\<exists>vm1. sys_madvise (\<lambda>_ b. b) (master_handlers 0 0) 0x10000 4096 4 demo_host = (Inr 0, vm1) \<and> vm_data vm1 2 0 = 7"
  using discard_needs_aligned_buffer [where p = 16 and vm = demo_host and pg = demo_page and MA = "\<lambda>_ b. b" and H = "master_handlers 0 0"]
  by (auto simp: demo_sel find_page_def PageSize_def demo_page_def Page_non_owned_def default_attr_def zero_id_def)

end
