(* ===== verification/Cpu_Properties.thy ===== *)
theory Cpu_Properties
  imports Bytecode_Equiv Memory_Safety
begin

text \<open>
  Properties of the instruction set: the bytecodes of the fast simulator against the reference handlers, where they
  differ, the totality of the rewriter, the range of register operands and the zero register.
\<close>

unbundle bit_operations_syntax

section \<open>A guest for the witnesses\<close>

definition demo_env :: "nat Env" where
  "demo_env = \<lparr> env_pages = master_handlers 0 0, env_syscalls = (\<lambda>_. retire), env_unhandled_syscall = (\<lambda>_. retire),
    env_custom_syscall = (\<lambda>_. retire), env_custom_count = 40, env_unhandled_csr = (\<lambda>_ _ _. retire),
    env_rdtime = (\<lambda>_. 0), env_float = (\<lambda>_. retire) \<rparr>"

definition demo_cpu :: "nat CPU" where
  "demo_cpu = \<lparr> cpu_regs = (\<lambda>r. if r = 0 then 0 else of_nat r + 6), cpu_pc = 0x10000, cpu_fcsr = 0, cpu_fl = (\<lambda>_. 0), cpu_reservation = 0,
    cpu_counter = 0, cpu_max_counter = 1000, cpu_vm = demo_host \<rparr>"

definition demo_segment :: Segment where
  "demo_segment = \<lparr> m_vaddr_begin = 0x10000, m_vaddr_end = 0x20000,
    seg_decoder = (\<lambda>_. \<lparr>dd_bytecode = RV32I_BC_INVALID, dd_idxend = 0, dd_icount = 0, dd_instr = 0\<rparr>) \<rparr>"

lemmas fields = is_long_def opcode_def rd_def rs1_def rs2_def reg_field_def field_def funct3_def funct7_def jumptable_friendly_op_def

section \<open>Equivalence\<close>

text \<open>
  (C2) One instruction by its bytecode and by its reference handler: whenever the rewriter gives an instruction a
  bytecode that can run, the bytecode handler and the reference handler agree on the exception or the next
  program counter, on every register and on memory, whatever the bytes are that the rewriter leaves unset.
  Outside of the statement are instructions whose effect is the host's, and three places
  where the two differ: remainders by zero or with overflow, 32-bit operations on \<open>x0\<close>, and jumps to an odd address.
\<close>

theorem bytecode_equiv:
  assumes "threaded_rewrite u s (computed_index_for i) a i = Some bw" "fst bw \<noteq> RV32I_BC_INVALID"
    and "\<not> host_instr (env_custom_count E) i"
    and "\<not> rem_diverges i c" "\<not> clobbers_zero i" "\<not> odd_target a i c" "reg c 0 = 0" "ends_block i \<longrightarrow> k = 0"
  shows "run_bytecode FB E a k bw c = Some (reference_step E a i c)"
  by (rule run_bytecode_exact [OF assms])

theorem bytecode_equiv_witness:
  "run_bytecode (\<lambda>_ _. retire) demo_env 0x10000 3 (RV32I_BC_OP_REMU, FasterOpType 10 10 11) demo_cpu =
    Some (reference_step demo_env 0x10000 0x02B57533 demo_cpu)"
proof (rule bytecode_equiv [where u = 0 and s = demo_segment])
  have c: "computed_index_for 0x02B57533 = RV32I_BC_OP_REMU"
    by (simp add: computed_index_for_def computed_long_def computed_op_def fields opcode_defs)
  show "threaded_rewrite 0 demo_segment (computed_index_for 0x02B57533) 0x10000 0x02B57533 =
      Some (RV32I_BC_OP_REMU, FasterOpType 10 10 11)"
    unfolding c by (simp add: rewrite_table rewrite_optype_def fields)
  show "\<not> host_instr (env_custom_count demo_env) 0x02B57533"
    by (simp add: host_instr_def fields opcode_defs)
  show "\<not> rem_diverges 0x02B57533 demo_cpu"
    by (simp add: rem_diverges_def fields demo_cpu_def reg_def)
  show "\<not> clobbers_zero 0x02B57533" "\<not> odd_target 0x10000 0x02B57533 demo_cpu" "ends_block 0x02B57533 \<longrightarrow> 3 = 0"
    by (simp_all add: clobbers_zero_def odd_target_def ends_block_def fields opcode_defs)
  show "reg demo_cpu 0 = 0" by (simp add: demo_cpu_def reg_def)
qed simp

section \<open>Divergences\<close>

lemma alu_value:
  assumes "is_long i" "opcode i = RV32I_OP" "rd i \<noteq> 0" "jumptable_friendly_op i \<noteq> 0" "jumptable_friendly_op i \<noteq> 0x200"
    and "\<And>dst x y. op_alu (jumptable_friendly_op i) dst x y = Some (f dst x y)"
  shows "reference_step E a i c = (Inr (), at_pc (a + 4) (set_reg (rd i) (f (reg c (rd i)) (reg c (rs1 i)) (reg c (rs2 i))) c))"
  using assms by (simp add: reference_long decode_def decode_long_def decode_op_def opcode_defs OP_def finish_op_def)

text \<open>
  Remainders by zero: for \<open>remu a0, a0, a1\<close> with a divisor of zero the bytecode gives the largest value and the
  reference handler the dividend; for \<open>rem a2, a0, a1\<close> the bytecode leaves the destination as it was and the reference handler gives the dividend,
  which is what the instruction set asks for.
\<close>

theorem bytecode_remainder_by_zero:
  "(\<exists>bw c1 c2. threaded_rewrite u s (computed_index_for 0x02B57533) a 0x02B57533 = Some bw \<and>
      run_bytecode FB E a k bw (set_reg 11 0 c) = Some (Inr (), c1) \<and> reference_step E a 0x02B57533 (set_reg 11 0 c) = (Inr (), c2) \<and>
      reg c1 10 = -1 \<and> reg c2 10 = reg c 10) \<and>
   (\<exists>bw c1 c2. threaded_rewrite u s (computed_index_for 0x02B56633) a 0x02B56633 = Some bw \<and>
      run_bytecode FB E a k bw (set_reg 11 0 c) = Some (Inr (), c1) \<and> reference_step E a 0x02B56633 (set_reg 11 0 c) = (Inr (), c2) \<and>
      reg c1 12 = reg c 12 \<and> reg c2 12 = reg c 10)"
proof -
  let ?c = "set_reg 11 0 c"
  have "computed_index_for 0x02B57533 = RV32I_BC_OP_REMU" "computed_index_for 0x02B56633 = RV32I_BC_OP_REM"
    by (simp_all add: computed_index_for_def computed_long_def computed_op_def fields opcode_defs)
  then have r: "threaded_rewrite u s (computed_index_for 0x02B57533) a 0x02B57533 = Some (RV32I_BC_OP_REMU, FasterOpType 10 10 11)"
    "threaded_rewrite u s (computed_index_for 0x02B56633) a 0x02B56633 = Some (RV32I_BC_OP_REM, FasterOpType 12 10 11)"
    by (simp_all add: rewrite_table rewrite_optype_def fields)
  have b: "run_bytecode FB E a k (RV32I_BC_OP_REMU, FasterOpType 10 10 11) ?c = Some (Inr (), at_pc (a + 4) (set_reg 10 (-1) ?c))"
    "run_bytecode FB E a k (RV32I_BC_OP_REM, FasterOpType 12 10 11) ?c = Some (Inr (), at_pc (a + 4) (set_reg 12 (reg c 12) ?c))"
    by (simp_all add: run_bytecode_def table settle_simps rv32i_op_remu_def rv32i_op_rem_def OP_INSTR_def)
  have "reference_step E a 0x02B57533 ?c = (Inr (), at_pc (a + 4) (set_reg 10 (reg c 10) ?c))"
    using alu_value [of "0x02B57533" "\<lambda>_. op_remu" E a ?c] by (simp add: fields opcode_defs op_alu_def op_remu_def)
  moreover have "reference_step E a 0x02B56633 ?c = (Inr (), at_pc (a + 4) (set_reg 12 (reg c 10) ?c))"
    using alu_value [of "0x02B56633" "\<lambda>_. op_rem" E a ?c] by (simp add: fields opcode_defs op_alu_def op_rem_def)
  ultimately show ?thesis using r b by simp
qed

text \<open>
  Writes to the zero register: the bytecode of \<open>addw x0, x1, x2\<close> stores the sum in \<open>x0\<close>, and a following \<open>c.li a0, 5\<close>, which
  the rewriter turns into an addition to \<open>x0\<close>, loads the sum plus five; the reference handler of the first instruction changes nothing but
  the program counter.
\<close>

theorem bytecode_writes_x0:
  "\<exists>bw1 bw2 c1 c2. threaded_rewrite u s (computed_index_for 0x0020803B) a 0x0020803B = Some bw1 \<and>
    threaded_rewrite u s (computed_index_for 0x4515) (a + 4) 0x4515 = Some bw2 \<and>
    run_bytecode FB E a k bw1 c = Some (Inr (), c1) \<and> run_bytecode FB E (a + 4) k bw2 c1 = Some (Inr (), c2) \<and>
    reg c1 0 = sext (lo32 (reg c 1) + lo32 (reg c 2)) \<and> reg c2 10 = reg c1 0 + 5 \<and>
    reference_step E a 0x0020803B c = (Inr (), at_pc (a + 4) c)"
proof -
  have "computed_index_for 0x0020803B = RV64I_BC_OP_ADDW"
    by (simp add: computed_index_for_def computed_long_def computed_op32_def fields opcode_defs)
  moreover have "computed_index_for 0x4515 = RV32C_BC_LI"
    by (simp add: computed_index_for_def computed_c1_def c_funct3_def CI_rd_def instr_length_def fields)
  ultimately have r: "threaded_rewrite u s (computed_index_for 0x0020803B) a 0x0020803B = Some (RV64I_BC_OP_ADDW, FasterOpType 0 1 2)"
      "threaded_rewrite u s (computed_index_for 0x4515) (a + 4) 0x4515 = Some (RV32C_BC_ADDI, FasterItype 10 0 5)"
    by (simp_all add: table rewrite_optype_def fields CI_rd_def CI_signed_imm_def)
  have b: "run_bytecode FB E a k (RV64I_BC_OP_ADDW, FasterOpType 0 1 2) c =
      Some (Inr (), at_pc (a + 4) (set_reg 0 (sext (lo32 (reg c 1) + lo32 (reg c 2))) c))"
    by (simp add: run_bytecode_def table settle_simps rv64i_op_addw_def OP_INSTR_def)
  have l: "run_bytecode FB E (a + 4) k (RV32C_BC_ADDI, FasterItype 10 0 5) d = Some (Inr (), at_pc (a + 4 + 2) (set_reg 10 (reg d 0 + 5) d))" for d
    by (simp add: run_bytecode_def table settle_simps rv32c_addi_def imm_instr_def sext_def)
  have "reference_step E a 0x0020803B c = (Inr (), at_pc (a + 4) c)"
    by (simp add: reference_long decode_def decode_long_def decode_op32_def fields opcode_defs NOP_def)
  with r b l show ?thesis by simp
qed

section \<open>Every instruction has a bytecode\<close>

definition dispatcher_bytecodes :: "bytecode list" where
  "dispatcher_bytecodes = [RV32I_BC_INVALID, RV32I_BC_SYSCALL, RV32I_BC_STOP, RV32I_BC_SYSTEM]"

lemma never_computed:
  assumes "b \<in> {RV32I_BC_BEQ_FW, RV32I_BC_BNE_FW, RV32I_BC_FAST_JAL, RV32I_BC_FAST_CALL}"
  shows "computed_index_for i \<noteq> b"
  using assms
  unfolding computed_index_for_def computed_long_def computed_load_def computed_store_def computed_branch_def computed_op_imm_def computed_op_def
      computed_op32_def computed_op_imm32_def computed_fpfunc_def computed_system_def computed_c0_def computed_c1_def computed_c2_def
      computed_c1_alu_def Let_def
  by (elim insertE emptyE) (hypsubst, intro if_neq bytecode.distinct)+

lemma impl_float_table:
  "bc \<in> {RV32F_BC_FADD, RV32F_BC_FSUB, RV32F_BC_FMUL, RV32F_BC_FDIV, RV32F_BC_FMADD} \<Longrightarrow>
    bytecode_impl FB bc = Some (\<lambda>E pc d c. then_go NEXT_INSTR (FB bc (dd_instr d) c))"
  by (auto simp: bytecode_impl_def)

lemma rewrite_defined:
  assumes "b \<notin> {RV32I_BC_BEQ_FW, RV32I_BC_BNE_FW, RV32I_BC_FAST_JAL, RV32I_BC_FAST_CALL}"
  shows "\<exists>bw. threaded_rewrite u s b a i = Some bw \<and> (bytecode_impl FB (fst bw) \<noteq> None \<or> fst bw \<in> set dispatcher_bytecodes)"
  using assms
  by (cases b) (auto simp: table rewrite_rest_table impl_float_table rewrite_branch_def rewrite_jal_def rewrite_c_branch_def rewrite_c_jmp_def
      Let_def dispatcher_bytecodes_def)

text \<open>
  The rewriter never throws: the bytecode chosen for any instruction word has a rewrite, and the rewritten bytecode has a handler,
  its own or one of the dispatcher.
\<close>

theorem rewrite_total:
  "\<exists>bw. threaded_rewrite u s (computed_index_for i) a i = Some bw \<and>
    ((\<exists>h. bytecode_impl FB (fst bw) = Some h) \<or> fst bw \<in> set dispatcher_bytecodes)"
  using rewrite_defined [of "computed_index_for i" u s a i FB] never_computed by blast

section \<open>Register operands\<close>

text \<open>The indices at which a bytecode handler accesses the register file, from the \<open>REG\<close> and \<open>getfl\<close> accesses of its code.\<close>

definition reg_operands :: "bytecode \<times> 32 word \<Rightarrow> nat list" where
  "reg_operands bw =
    (let bc = fst bw; w = snd bw in
     if bc \<in> set op_bytecodes then [fo_rd w, get_rs1 w, get_rs2 w]
     else if bc \<in> set (shift_bytecodes @ shift32_bytecodes @ itype_bytecodes @ stype_bytecodes @ branch_bytecodes @
        [RV32I_BC_BEQ_FW, RV32I_BC_BNE_FW, RV32C_BC_ADDI, RV32C_BC_ADD, RV32C_BC_XOR, RV32C_BC_OR, RV32C_BC_LDD, RV32C_BC_STD, RV32C_BC_LDW, RV32C_BC_STW])
       then [get_rs1 w, get_rs2 w]
     else if bc \<in> {RV32C_BC_SLLI, RV32C_BC_SRLI, RV32C_BC_ANDI, RV32C_BC_JAL_ADDIW, RV32C_BC_BEQZ, RV32C_BC_BNEZ} then [get_rs1 w]
     else if bc = RV32I_BC_MV \<or> bc = RV32C_BC_MV then [mv_rd w, mv_rs1 w]
     else if bc = RV32I_BC_LI then [fm_rd w]
     else if bc = RV32I_BC_LUI \<or> bc = RV32I_BC_AUIPC \<or> bc = RV32I_BC_JAL then [fj_rd w]
     else if bc = RV32C_BC_JR \<or> bc = RV32C_BC_JALR then [unat w]
     else if bc \<in> set float_bytecodes then [unat (field 8 8 w), get_rs1 w, get_rs2 w]
     else [])"

lemma reg_lt32 [simp]: "rd i < 32" "rs1 i < 32" "rs2 i < 32" "CR_rs2 i < 32" "CR_rd i < 32" "CI_rd i < 32"
    "srd i + 8 < 32" "srs1 i + 8 < 32" "srs2 i + 8 < 32" "CA_srd i + 8 < 32" "srd i < 24" "srs1 i < 24" "srs2 i < 24" "CA_srd i < 24"
  using reg_lt [of i] by simp_all

lemma view_float [simp]:
  "d < 256 \<Longrightarrow> unat (field 8 8 (FasterFloatType func d s1 s2)) = d"
  "s1 < 256 \<Longrightarrow> get_rs1 (FasterFloatType func d s1 s2) = s1" "s2 < 256 \<Longrightarrow> get_rs2 (FasterFloatType func d s1 s2) = s2"
proof -
  have "field 8 8 (FasterFloatType func d s1 s2) = take_bit 8 (of_nat d)"
    unfolding FasterFloatType_def pack4_def by (rule bit_word_eqI) (auto simp: field_def bit_simps)
  then show "d < 256 \<Longrightarrow> unat (field 8 8 (FasterFloatType func d s1 s2)) = d"
    by (simp add: unsigned_take_bit_eq unat_of_nat take_bit_nat_eq_self)
  show "s1 < 256 \<Longrightarrow> get_rs1 (FasterFloatType func d s1 s2) = s1" "s2 < 256 \<Longrightarrow> get_rs2 (FasterFloatType func d s1 s2) = s2"
    by (simp_all add: FasterFloatType_def get_rs1_def get_rs2_def field_pack4_3 field_pack4_2)
qed

lemma operand_table:
  "reg_operands (RV64I_BC_OP_ADDW, w) = [fo_rd w, get_rs1 w, get_rs2 w]"
  "reg_operands (RV64I_BC_OP_SUBW, w) = [fo_rd w, get_rs1 w, get_rs2 w]"
  "reg_operands (RV64I_BC_OP_MULW, w) = [fo_rd w, get_rs1 w, get_rs2 w]"
  "reg_operands (RV64I_BC_OP_ADD_UW, w) = [fo_rd w, get_rs1 w, get_rs2 w]"
  "reg_operands (RV64I_BC_OP_SH1ADD_UW, w) = [fo_rd w, get_rs1 w, get_rs2 w]"
  "reg_operands (RV64I_BC_OP_SH2ADD_UW, w) = [fo_rd w, get_rs1 w, get_rs2 w]"
  "reg_operands (RV32I_BC_OP_ADD, w) = [fo_rd w, get_rs1 w, get_rs2 w]"
  "reg_operands (RV32I_BC_OP_SUB, w) = [fo_rd w, get_rs1 w, get_rs2 w]"
  "reg_operands (RV32I_BC_OP_SLL, w) = [fo_rd w, get_rs1 w, get_rs2 w]"
  "reg_operands (RV32I_BC_OP_SLT, w) = [fo_rd w, get_rs1 w, get_rs2 w]"
  "reg_operands (RV32I_BC_OP_SLTU, w) = [fo_rd w, get_rs1 w, get_rs2 w]"
  "reg_operands (RV32I_BC_OP_XOR, w) = [fo_rd w, get_rs1 w, get_rs2 w]"
  "reg_operands (RV32I_BC_OP_SRL, w) = [fo_rd w, get_rs1 w, get_rs2 w]"
  "reg_operands (RV32I_BC_OP_SRA, w) = [fo_rd w, get_rs1 w, get_rs2 w]"
  "reg_operands (RV32I_BC_OP_OR, w) = [fo_rd w, get_rs1 w, get_rs2 w]"
  "reg_operands (RV32I_BC_OP_AND, w) = [fo_rd w, get_rs1 w, get_rs2 w]"
  "reg_operands (RV32I_BC_OP_MUL, w) = [fo_rd w, get_rs1 w, get_rs2 w]"
  "reg_operands (RV32I_BC_OP_DIV, w) = [fo_rd w, get_rs1 w, get_rs2 w]"
  "reg_operands (RV32I_BC_OP_DIVU, w) = [fo_rd w, get_rs1 w, get_rs2 w]"
  "reg_operands (RV32I_BC_OP_REM, w) = [fo_rd w, get_rs1 w, get_rs2 w]"
  "reg_operands (RV32I_BC_OP_REMU, w) = [fo_rd w, get_rs1 w, get_rs2 w]"
  "reg_operands (RV32I_BC_OP_ZEXT_H, w) = [fo_rd w, get_rs1 w, get_rs2 w]"
  "reg_operands (RV32I_BC_OP_SH1ADD, w) = [fo_rd w, get_rs1 w, get_rs2 w]"
  "reg_operands (RV32I_BC_OP_SH2ADD, w) = [fo_rd w, get_rs1 w, get_rs2 w]"
  "reg_operands (RV32I_BC_OP_SH3ADD, w) = [fo_rd w, get_rs1 w, get_rs2 w]"
  "reg_operands (RV32I_BC_SLLI, w) = [get_rs1 w, get_rs2 w]"
  "reg_operands (RV32I_BC_SRLI, w) = [get_rs1 w, get_rs2 w]"
  "reg_operands (RV32I_BC_SRAI, w) = [get_rs1 w, get_rs2 w]"
  "reg_operands (RV32I_BC_BSETI, w) = [get_rs1 w, get_rs2 w]"
  "reg_operands (RV32I_BC_BEXTI, w) = [get_rs1 w, get_rs2 w]"
  "reg_operands (RV64I_BC_SLLIW, w) = [get_rs1 w, get_rs2 w]"
  "reg_operands (RV64I_BC_SRLIW, w) = [get_rs1 w, get_rs2 w]"
  "reg_operands (RV64I_BC_SRAIW, w) = [get_rs1 w, get_rs2 w]"
  "reg_operands (RV64I_BC_ADDIW, w) = [get_rs1 w, get_rs2 w]"
  "reg_operands (RV32I_BC_SEXT_B, w) = [get_rs1 w, get_rs2 w]"
  "reg_operands (RV32I_BC_SEXT_H, w) = [get_rs1 w, get_rs2 w]"
  "reg_operands (RV32I_BC_ADDI, w) = [get_rs1 w, get_rs2 w]"
  "reg_operands (RV32I_BC_SLTI, w) = [get_rs1 w, get_rs2 w]"
  "reg_operands (RV32I_BC_SLTIU, w) = [get_rs1 w, get_rs2 w]"
  "reg_operands (RV32I_BC_XORI, w) = [get_rs1 w, get_rs2 w]"
  "reg_operands (RV32I_BC_ORI, w) = [get_rs1 w, get_rs2 w]"
  "reg_operands (RV32I_BC_ANDI, w) = [get_rs1 w, get_rs2 w]"
  "reg_operands (RV32I_BC_LDWU, w) = [get_rs1 w, get_rs2 w]"
  "reg_operands (RV32I_BC_LDD, w) = [get_rs1 w, get_rs2 w]"
  "reg_operands (RV32I_BC_LDB, w) = [get_rs1 w, get_rs2 w]"
  "reg_operands (RV32I_BC_LDBU, w) = [get_rs1 w, get_rs2 w]"
  "reg_operands (RV32I_BC_LDH, w) = [get_rs1 w, get_rs2 w]"
  "reg_operands (RV32I_BC_LDHU, w) = [get_rs1 w, get_rs2 w]"
  "reg_operands (RV32I_BC_LDW, w) = [get_rs1 w, get_rs2 w]"
  "reg_operands (RV32F_BC_FLW, w) = [get_rs1 w, get_rs2 w]"
  "reg_operands (RV32F_BC_FLD, w) = [get_rs1 w, get_rs2 w]"
  "reg_operands (RV32I_BC_JALR, w) = [get_rs1 w, get_rs2 w]"
  "reg_operands (RV32I_BC_STD, w) = [get_rs1 w, get_rs2 w]"
  "reg_operands (RV32I_BC_STB, w) = [get_rs1 w, get_rs2 w]"
  "reg_operands (RV32I_BC_STH, w) = [get_rs1 w, get_rs2 w]"
  "reg_operands (RV32I_BC_STW, w) = [get_rs1 w, get_rs2 w]"
  "reg_operands (RV32F_BC_FSW, w) = [get_rs1 w, get_rs2 w]"
  "reg_operands (RV32F_BC_FSD, w) = [get_rs1 w, get_rs2 w]"
  "reg_operands (RV32I_BC_BEQ, w) = [get_rs1 w, get_rs2 w]"
  "reg_operands (RV32I_BC_BNE, w) = [get_rs1 w, get_rs2 w]"
  "reg_operands (RV32I_BC_BLT, w) = [get_rs1 w, get_rs2 w]"
  "reg_operands (RV32I_BC_BGE, w) = [get_rs1 w, get_rs2 w]"
  "reg_operands (RV32I_BC_BLTU, w) = [get_rs1 w, get_rs2 w]"
  "reg_operands (RV32I_BC_BGEU, w) = [get_rs1 w, get_rs2 w]"
  "reg_operands (RV32I_BC_BEQ_FW, w) = [get_rs1 w, get_rs2 w]"
  "reg_operands (RV32I_BC_BNE_FW, w) = [get_rs1 w, get_rs2 w]"
  "reg_operands (RV32C_BC_ADDI, w) = [get_rs1 w, get_rs2 w]"
  "reg_operands (RV32C_BC_ADD, w) = [get_rs1 w, get_rs2 w]"
  "reg_operands (RV32C_BC_XOR, w) = [get_rs1 w, get_rs2 w]"
  "reg_operands (RV32C_BC_OR, w) = [get_rs1 w, get_rs2 w]"
  "reg_operands (RV32C_BC_LDD, w) = [get_rs1 w, get_rs2 w]"
  "reg_operands (RV32C_BC_STD, w) = [get_rs1 w, get_rs2 w]"
  "reg_operands (RV32C_BC_LDW, w) = [get_rs1 w, get_rs2 w]"
  "reg_operands (RV32C_BC_STW, w) = [get_rs1 w, get_rs2 w]"
  "reg_operands (RV32C_BC_SLLI, w) = [get_rs1 w]"
  "reg_operands (RV32C_BC_SRLI, w) = [get_rs1 w]"
  "reg_operands (RV32C_BC_ANDI, w) = [get_rs1 w]"
  "reg_operands (RV32C_BC_JAL_ADDIW, w) = [get_rs1 w]"
  "reg_operands (RV32C_BC_BEQZ, w) = [get_rs1 w]"
  "reg_operands (RV32C_BC_BNEZ, w) = [get_rs1 w]"
  "reg_operands (RV32I_BC_MV, w) = [mv_rd w, mv_rs1 w]"
  "reg_operands (RV32C_BC_MV, w) = [mv_rd w, mv_rs1 w]"
  "reg_operands (RV32I_BC_LI, w) = [fm_rd w]"
  "reg_operands (RV32I_BC_LUI, w) = [fj_rd w]"
  "reg_operands (RV32I_BC_AUIPC, w) = [fj_rd w]"
  "reg_operands (RV32I_BC_JAL, w) = [fj_rd w]"
  "reg_operands (RV32C_BC_JR, w) = [unat w]"
  "reg_operands (RV32C_BC_JALR, w) = [unat w]"
  "reg_operands (RV32F_BC_FADD, w) = [unat (field 8 8 w), get_rs1 w, get_rs2 w]"
  "reg_operands (RV32F_BC_FSUB, w) = [unat (field 8 8 w), get_rs1 w, get_rs2 w]"
  "reg_operands (RV32F_BC_FMUL, w) = [unat (field 8 8 w), get_rs1 w, get_rs2 w]"
  "reg_operands (RV32F_BC_FDIV, w) = [unat (field 8 8 w), get_rs1 w, get_rs2 w]"
  "reg_operands (RV32I_BC_INVALID, w) = []"
  "reg_operands (RV32I_BC_FUNCTION, w) = []"
  "reg_operands (RV32I_BC_FUNCBLOCK, w) = []"
  "reg_operands (RV32I_BC_STOP, w) = []"
  "reg_operands (RV32I_BC_SYSTEM, w) = []"
  "reg_operands (RV32F_BC_FMADD, w) = []"
  "reg_operands (RV32C_BC_FUNCTION, w) = []"
  "reg_operands (RV32I_BC_SYSCALL, w) = []"
  "reg_operands (RV32C_BC_JMP, w) = []"
  "reg_operands (RV32I_BC_FAST_JAL, w) = []"
  "reg_operands (RV32I_BC_FAST_CALL, w) = []"
  by (simp_all add: reg_operands_def bytecode_groups)

text \<open>
  (C40) Register operands are in range: whatever bytecode is rewritten for whatever instruction word, every index at which its handler accesses the
  register file, which is not bounds-checked, is below 32.
\<close>

theorem bytecode_registers_in_range:
  assumes "threaded_rewrite u s b a i = Some bw"
  shows "list_all (\<lambda>r. r < 32) (reg_operands bw)"
  using assms
  by (cases b) (auto simp: table rewrite_rest_table view_simps rewrite_branch_def rewrite_jal_def rewrite_c_branch_def rewrite_c_jmp_def
      rewrite_c_addi_def rewrite_c_ldd_def rewrite_c_std_def rewrite_c_ldw_def rewrite_c_stw_def unat_CR_rd REG_SP_def
      Let_def operand_table split: if_splits)

theorem bytecode_registers_in_range_witness:
  "list_all (\<lambda>r. r < 32) (reg_operands (RV32I_BC_OP_REMU, FasterOpType 10 10 11))"
  by (rule bytecode_registers_in_range [where u = 0 and s = demo_segment and b = RV32I_BC_OP_REMU and a = 0 and i = "0x02B57533"])
    (simp add: rewrite_table rewrite_optype_def fields)

section \<open>The zero register\<close>

lemma x0_memory [simp]:
  "reg (snd (cpu_read E n addr c)) q = reg c q" "reg (snd (cpu_write E n addr v c)) q = reg c q"
  "reg (snd (retire c)) q = reg c q" "reg (snd (trigger_exception t d c)) q = reg c q" "reg (snd (jump x c)) q = reg c q"
  "reg (snd (touch E n addr c)) q = reg c q"
proof -
  show "reg (snd (cpu_read E n addr c)) q = reg c q"
    by (simp add: cpu_read_def lift_vm_def reg_def)
  then show "reg (snd (touch E n addr c)) q = reg c q"
    by (cases "cpu_read E n addr c") (auto simp: touch_def retire_def split: sum.split)
qed (simp_all add: cpu_write_def lift_vm_def reg_def retire_def trigger_exception_def jump_def)

lemma x0_loads [simp]:
  "r \<noteq> q \<Longrightarrow> reg (snd (load_into E n cv r addr c)) q = reg c q" "reg (snd (load_float E n r addr c)) q = reg c q"
  "r \<noteq> q \<Longrightarrow> reg (snd (finish_op i r v c)) q = reg c q"
  using x0_memory(1) [of E n addr c q]
  by (cases "cpu_read E n addr c"; auto simp: load_into_def load_float_def finish_op_def retire_def trigger_exception_def set_fl_def reg_def set_reg_def
      split: sum.split option.split)+

lemma x0_amo: "reg (snd (amo n cv f E i c)) 0 = reg c 0"
proof (cases "writable_read (env_pages E) n (unat (reg c (rs1 i))) (cpu_vm c)")
  case (Pair r vm)
  then show ?thesis
    by (auto simp: amo_def Let_def lift_vm_def retire_def reg_def set_reg_def trigger_exception_def split: sum.split)
qed

lemma x0_lrsc: "reg (snd (load_resv_n n cv E i c)) 0 = reg c 0" "reg (snd (store_cond_n n E i c)) 0 = reg c 0"
proof -
  have r: "reg (c\<lparr>cpu_reservation := x\<rparr>) q = reg c q" for x q and c :: "'a CPU" by (simp add: reg_def)
  show "reg (snd (load_resv_n n cv E i c)) 0 = reg c 0"
    using x0_memory(1) [of E n "reg c (rs1 i)" "c\<lparr>cpu_reservation := reg c (rs1 i)\<rparr>" 0]
    by (cases "cpu_read E n (reg c (rs1 i)) (c\<lparr>cpu_reservation := reg c (rs1 i)\<rparr>)")
      (auto simp: load_resv_n_def load_reserve_def Let_def retire_def trigger_exception_def r split: sum.split)
  show "reg (snd (store_cond_n n E i c)) 0 = reg c 0"
    using x0_memory(2) [of E n "reg c (rs1 i)" "reg c (rs2 i)" "c\<lparr>cpu_reservation := 0\<rparr>" 0]
    by (cases "cpu_write E n (reg c (rs1 i)) (reg c (rs2 i)) (c\<lparr>cpu_reservation := 0\<rparr>)")
      (auto simp: store_cond_n_def store_conditional_def Let_def retire_def r split: sum.split)
qed

lemma x0_atomic: "decode_atomic i = Some h \<Longrightarrow> reg (snd (h E j c)) 0 = reg c 0"
  by (auto simp: decode_atomic_def Let_def x0_amo x0_lrsc LOAD_RESV_def STORE_COND_def ILLEGAL_def amo_w_def amo_d_def
      AMOADD_W_def AMOXOR_W_def AMOOR_W_def AMOAND_W_def AMOMAX_W_def AMOMIN_W_def AMOMAXU_W_def AMOMINU_W_def AMOSWAP_W_def
      AMOADD_D_def AMOXOR_D_def AMOOR_D_def AMOAND_D_def AMOMAX_D_def AMOMIN_D_def AMOMAXU_D_def AMOMINU_D_def AMOSWAP_D_def
      split: if_splits)

lemma x0_fl [simp]: "reg (set_fl r v c) q = reg c q"
  by (simp add: set_fl_def reg_def)

lemma x0_load: "reg (snd (decode_load i E i c)) 0 = reg c 0"
  by (simp add: decode_load_def LOAD_X_DUMMY_def LOAD_I8_def LOAD_I16_def LOAD_I32_def LOAD_I64_def LOAD_U8_def LOAD_U16_def
      LOAD_U32_def ILLEGAL_def Let_def)

lemma x0_store: "reg (snd (decode_store i E i c)) 0 = reg c 0"
  by (simp add: decode_store_def STORE_I8_def STORE_I8_IMM_def STORE_I16_IMM_def STORE_I32_IMM_def STORE_I64_IMM_def ILLEGAL_def)

lemma x0_branch_if [simp]: "reg (snd (branch_if t off len c)) q = reg c q"
  by (simp add: branch_if_def)

lemma x0_branch: "reg (snd (decode_branch i E i c)) 0 = reg c 0"
  by (simp add: decode_branch_def BRANCH_EQ_def BRANCH_NE_def BRANCH_LT_def BRANCH_GE_def BRANCH_LTU_def BRANCH_GEU_def ILLEGAL_def)

lemma x0_alu:
  "reg (snd (decode_op_imm i E i c)) 0 = reg c 0" "reg (snd (decode_op i E i c)) 0 = reg c 0"
  "reg (snd (decode_op_imm32 i E i c)) 0 = reg c 0" "reg (snd (decode_op32 i E i c)) 0 = reg c 0"
  by (simp_all add: decode_op_imm_def OP_IMM_LI_def OP_MV_def OP_IMM_ADDI_def OP_IMM_SLLI_def OP_IMM_SRLI_def OP_IMM_ANDI_def OP_IMM_def
      decode_op_def OP_ADD_def OP_SUB_def OP_def decode_op_imm32_def OP_IMM32_ADDIW_def OP_IMM32_SLLIW_def OP_IMM32_SRLIW_def
      OP_IMM32_SRAIW_def OP_IMM32_SLLI_UW_def OP_IMM32_def decode_op32_def OP32_ADDW_def OP32_def NOP_def ILLEGAL_def)

lemma x0_fpfunc:
  "decode_fpfunc i = Some h \<Longrightarrow> funct5 i = 0x04 \<or> funct5 i = 0x1E \<or> funct5 i = 0x1C \<and> funct3 i = 0 \<Longrightarrow> reg (snd (h E i c)) 0 = reg c 0"
  by (elim disjE) (auto simp: decode_fpfunc_def Let_def FSGNJ_NX_def FMV_W_X_def FMV_X_W_def NOP_def split: if_splits option.split)

lemma x0_fallback:
  "\<not> (opcode i = 0x5B \<and> rs1 i = 0 \<and> rd i = 0 \<and> unat (Itype_imm i) < n) \<Longrightarrow> reg (snd (on_unimplemented_instruction n i E i c)) 0 = reg c 0"
  by (auto simp: on_unimplemented_instruction_def UNIMPLEMENTED_def)

lemma x0_long:
  assumes "is_long i" "\<not> host_instr n i"
  shows "reg (snd (decode n i E i c)) 0 = reg (c :: 'w CPU) 0"
proof (cases "decode_long i :: 'w handler option")
  case None
  with assms show ?thesis by (auto simp: decode_def host_instr_def x0_fallback ILLEGAL_def)
next
  case (Some h)
  then have "reg (snd (h E i c)) 0 = reg c 0"
    using assms(2)
    unfolding decode_long_def Let_def
    by (auto simp: assms(1) host_instr_def x0_load x0_store x0_branch x0_alu x0_fpfunc x0_atomic JALR_def JAL_def JMPI_def LUI_def AUIPC_def NOP_def
      FENCE_def FLW_def FLD_def FSW_def FSD_def ILLEGAL_def split: if_splits)
  with Some assms(1) show ?thesis by (simp add: decode_def)
qed

lemma x0_compressed:
  assumes "\<not> is_long i" "\<not> host_instr n i"
  shows "reg (snd (decode n i E i c)) 0 = reg (c :: 'w CPU) 0"
proof (cases "decode_compressed i :: 'w handler option")
  case None
  with assms custom_is_long [of i] show ?thesis
    by (simp add: decode_def ILLEGAL_def) (intro impI x0_fallback, auto)
next
  case (Some h)
  then have "reg (snd (h E i c)) 0 = reg c 0"
    using assms(2) quadrant_cases [OF assms(1)]
    unfolding decode_compressed_def decode_c0_def decode_c1_def decode_c2_def Let_def
    by (auto simp: assms(1) host_instr_def cireg_def REG_SP_def REG_RA_def Let_def
      C0_ADDI4SPN_def C0_REG_FLD_def C0_REG_LW_def C0_REG_LD_def C0_REG_FSD_def C0_REG_SW_def C0_REG_SD_def ILLEGAL_def
      C1_ADDI_def C1_ADDIW_def C1_LI_def C1_ADDI16SP_def C1_LUI_def C1_ALU_OPS_def C1_JUMP_def C1_BEQZ_def C1_BNEZ_def NOP_def
      C2_SLLI_def C2_FLDSP_def C2_LWSP_def C2_LDSP_def C2_FSDSP_def C2_SWSP_def C2_SDSP_def C2_JR_def C2_JALR_def C2_MV_def C2_ADD_def
      UNIMPLEMENTED_def split: if_splits option.split)
  with Some assms(1) show ?thesis by (simp add: decode_def)
qed

text \<open>
  (C35) The zero register: the reference handler of every instruction whose effect is the guest's leaves \<open>x0\<close> as it was,
  whether the instruction completes or raises.
\<close>

theorem execute_keeps_x0:
  assumes "\<not> host_instr (env_custom_count E) i"
  shows "reg (snd (execute E i c)) 0 = reg c 0"
  using x0_long [OF _ assms] x0_compressed [OF _ assms] by (cases "is_long i") (simp_all add: execute_def)

theorem execute_keeps_x0_witness:
  "reg (snd (execute demo_env 0x0020803B demo_cpu)) 0 = 0"
  using execute_keeps_x0 [of demo_env "0x0020803B" demo_cpu]
  by (simp add: host_instr_def fields opcode_defs demo_cpu_def reg_def)

end
