(* ===== verification/Dispatch_Flow.thy ===== *)
theory Dispatch_Flow
  imports Dispatch Cpu_Properties
begin

text \<open>
  Where a bytecode can lead: handlers of straight-line bytecodes continue with the next entry, and the others with an address that the
  rewriter has checked against the segment or that the dispatcher checks.
\<close>

unbundle bit_operations_syntax

section \<open>Kinds of bytecodes\<close>

datatype step_kind = Straight4 | Straight2 | Control | Dispatched

definition straight4_bytecodes :: "bytecode list" where
  "straight4_bytecodes =
    [RV32I_BC_ADDI, RV32I_BC_LI, RV32I_BC_MV, RV64I_BC_ADDIW, RV32I_BC_SLLI, RV32I_BC_SLTI, RV32I_BC_SLTIU, RV32I_BC_XORI,
     RV32I_BC_SRLI, RV32I_BC_SRAI, RV32I_BC_ORI, RV32I_BC_ANDI, RV32I_BC_LDW, RV32I_BC_LDD, RV32I_BC_LDB, RV32I_BC_LDBU,
     RV32I_BC_LDH, RV32I_BC_LDHU, RV32I_BC_LDWU, RV32I_BC_STW, RV32I_BC_STD, RV32I_BC_STB, RV32I_BC_STH, RV32F_BC_FLW,
     RV32F_BC_FLD, RV32F_BC_FSW, RV32F_BC_FSD, RV32I_BC_AUIPC, RV32I_BC_LUI, RV32I_BC_OP_ADD, RV32I_BC_OP_SUB,
     RV32I_BC_OP_SLL, RV32I_BC_OP_SLT, RV32I_BC_OP_SLTU, RV32I_BC_OP_XOR, RV32I_BC_OP_SRL, RV32I_BC_OP_OR, RV32I_BC_OP_AND,
     RV32I_BC_OP_MUL, RV32I_BC_OP_SH1ADD, RV32I_BC_OP_SH2ADD, RV32I_BC_OP_SH3ADD, RV32I_BC_OP_SRA, RV32I_BC_OP_ZEXT_H,
     RV64I_BC_OP_ADDW, RV64I_BC_OP_SUBW, RV64I_BC_OP_MULW, RV64I_BC_OP_ADD_UW, RV64I_BC_SLLIW, RV64I_BC_SRLIW,
     RV32I_BC_SEXT_B, RV32I_BC_SEXT_H, RV32I_BC_BSETI, RV32I_BC_BEXTI, RV64I_BC_SRAIW, RV64I_BC_OP_SH1ADD_UW,
     RV64I_BC_OP_SH2ADD_UW, RV32I_BC_OP_DIV, RV32I_BC_OP_DIVU, RV32I_BC_OP_REM, RV32I_BC_OP_REMU, RV32I_BC_FUNCTION,
     RV32F_BC_FADD, RV32F_BC_FSUB, RV32F_BC_FMUL, RV32F_BC_FDIV, RV32F_BC_FMADD]"

definition straight2_bytecodes :: "bytecode list" where
  "straight2_bytecodes =
    [RV32C_BC_ADDI, RV32C_BC_MV, RV32C_BC_SLLI, RV32C_BC_JAL_ADDIW, RV32C_BC_LDD, RV32C_BC_LDW, RV32C_BC_STD, RV32C_BC_STW,
     RV32C_BC_SRLI, RV32C_BC_ADD, RV32C_BC_XOR, RV32C_BC_OR, RV32C_BC_ANDI, RV32C_BC_FUNCTION, RV32C_BC_LI]"

definition control_bytecodes :: "bytecode list" where
  "control_bytecodes =
    [RV32C_BC_BEQZ, RV32C_BC_BNEZ, RV32C_BC_JMP, RV32C_BC_JR, RV32C_BC_JALR, RV32I_BC_JAL, RV32I_BC_JALR, RV32I_BC_FAST_JAL,
     RV32I_BC_FAST_CALL, RV32I_BC_BEQ, RV32I_BC_BNE, RV32I_BC_BEQ_FW, RV32I_BC_BNE_FW, RV32I_BC_BLT, RV32I_BC_BGE,
     RV32I_BC_BLTU, RV32I_BC_BGEU, RV32I_BC_FUNCBLOCK]"

definition kind_of :: "bytecode \<Rightarrow> step_kind" where
  "kind_of bc =
    (if bc \<in> set straight4_bytecodes then Straight4 else if bc \<in> set straight2_bytecodes then Straight2
     else if bc \<in> set control_bytecodes then Control else Dispatched)"

lemma kind_table:
  "kind_of RV32I_BC_ADDI = Straight4"
  "kind_of RV32I_BC_LI = Straight4"
  "kind_of RV32I_BC_MV = Straight4"
  "kind_of RV64I_BC_ADDIW = Straight4"
  "kind_of RV32I_BC_SLLI = Straight4"
  "kind_of RV32I_BC_SLTI = Straight4"
  "kind_of RV32I_BC_SLTIU = Straight4"
  "kind_of RV32I_BC_XORI = Straight4"
  "kind_of RV32I_BC_SRLI = Straight4"
  "kind_of RV32I_BC_SRAI = Straight4"
  "kind_of RV32I_BC_ORI = Straight4"
  "kind_of RV32I_BC_ANDI = Straight4"
  "kind_of RV32I_BC_LDW = Straight4"
  "kind_of RV32I_BC_LDD = Straight4"
  "kind_of RV32I_BC_LDB = Straight4"
  "kind_of RV32I_BC_LDBU = Straight4"
  "kind_of RV32I_BC_LDH = Straight4"
  "kind_of RV32I_BC_LDHU = Straight4"
  "kind_of RV32I_BC_LDWU = Straight4"
  "kind_of RV32I_BC_STW = Straight4"
  "kind_of RV32I_BC_STD = Straight4"
  "kind_of RV32I_BC_STB = Straight4"
  "kind_of RV32I_BC_STH = Straight4"
  "kind_of RV32F_BC_FLW = Straight4"
  "kind_of RV32F_BC_FLD = Straight4"
  "kind_of RV32F_BC_FSW = Straight4"
  "kind_of RV32F_BC_FSD = Straight4"
  "kind_of RV32I_BC_AUIPC = Straight4"
  "kind_of RV32I_BC_LUI = Straight4"
  "kind_of RV32I_BC_OP_ADD = Straight4"
  "kind_of RV32I_BC_OP_SUB = Straight4"
  "kind_of RV32I_BC_OP_SLL = Straight4"
  "kind_of RV32I_BC_OP_SLT = Straight4"
  "kind_of RV32I_BC_OP_SLTU = Straight4"
  "kind_of RV32I_BC_OP_XOR = Straight4"
  "kind_of RV32I_BC_OP_SRL = Straight4"
  "kind_of RV32I_BC_OP_OR = Straight4"
  "kind_of RV32I_BC_OP_AND = Straight4"
  "kind_of RV32I_BC_OP_MUL = Straight4"
  "kind_of RV32I_BC_OP_SH1ADD = Straight4"
  "kind_of RV32I_BC_OP_SH2ADD = Straight4"
  "kind_of RV32I_BC_OP_SH3ADD = Straight4"
  "kind_of RV32I_BC_OP_SRA = Straight4"
  "kind_of RV32I_BC_OP_ZEXT_H = Straight4"
  "kind_of RV64I_BC_OP_ADDW = Straight4"
  "kind_of RV64I_BC_OP_SUBW = Straight4"
  "kind_of RV64I_BC_OP_MULW = Straight4"
  "kind_of RV64I_BC_OP_ADD_UW = Straight4"
  "kind_of RV64I_BC_SLLIW = Straight4"
  "kind_of RV64I_BC_SRLIW = Straight4"
  "kind_of RV32I_BC_SEXT_B = Straight4"
  "kind_of RV32I_BC_SEXT_H = Straight4"
  "kind_of RV32I_BC_BSETI = Straight4"
  "kind_of RV32I_BC_BEXTI = Straight4"
  "kind_of RV64I_BC_SRAIW = Straight4"
  "kind_of RV64I_BC_OP_SH1ADD_UW = Straight4"
  "kind_of RV64I_BC_OP_SH2ADD_UW = Straight4"
  "kind_of RV32I_BC_OP_DIV = Straight4"
  "kind_of RV32I_BC_OP_DIVU = Straight4"
  "kind_of RV32I_BC_OP_REM = Straight4"
  "kind_of RV32I_BC_OP_REMU = Straight4"
  "kind_of RV32I_BC_FUNCTION = Straight4"
  "kind_of RV32F_BC_FADD = Straight4"
  "kind_of RV32F_BC_FSUB = Straight4"
  "kind_of RV32F_BC_FMUL = Straight4"
  "kind_of RV32F_BC_FDIV = Straight4"
  "kind_of RV32F_BC_FMADD = Straight4"
  "kind_of RV32C_BC_ADDI = Straight2"
  "kind_of RV32C_BC_MV = Straight2"
  "kind_of RV32C_BC_SLLI = Straight2"
  "kind_of RV32C_BC_JAL_ADDIW = Straight2"
  "kind_of RV32C_BC_LDD = Straight2"
  "kind_of RV32C_BC_LDW = Straight2"
  "kind_of RV32C_BC_STD = Straight2"
  "kind_of RV32C_BC_STW = Straight2"
  "kind_of RV32C_BC_SRLI = Straight2"
  "kind_of RV32C_BC_ADD = Straight2"
  "kind_of RV32C_BC_XOR = Straight2"
  "kind_of RV32C_BC_OR = Straight2"
  "kind_of RV32C_BC_ANDI = Straight2"
  "kind_of RV32C_BC_FUNCTION = Straight2"
  "kind_of RV32C_BC_LI = Straight2"
  "kind_of RV32C_BC_BEQZ = Control"
  "kind_of RV32C_BC_BNEZ = Control"
  "kind_of RV32C_BC_JMP = Control"
  "kind_of RV32C_BC_JR = Control"
  "kind_of RV32C_BC_JALR = Control"
  "kind_of RV32I_BC_JAL = Control"
  "kind_of RV32I_BC_JALR = Control"
  "kind_of RV32I_BC_FAST_JAL = Control"
  "kind_of RV32I_BC_FAST_CALL = Control"
  "kind_of RV32I_BC_BEQ = Control"
  "kind_of RV32I_BC_BNE = Control"
  "kind_of RV32I_BC_BEQ_FW = Control"
  "kind_of RV32I_BC_BNE_FW = Control"
  "kind_of RV32I_BC_BLT = Control"
  "kind_of RV32I_BC_BGE = Control"
  "kind_of RV32I_BC_BLTU = Control"
  "kind_of RV32I_BC_BGEU = Control"
  "kind_of RV32I_BC_FUNCBLOCK = Control"
  "kind_of RV32I_BC_INVALID = Dispatched"
  "kind_of RV32I_BC_SYSCALL = Dispatched"
  "kind_of RV32I_BC_STOP = Dispatched"
  "kind_of RV32I_BC_SYSTEM = Dispatched"
  by (simp_all add: kind_of_def straight4_bytecodes_def straight2_bytecodes_def control_bytecodes_def)

lemma impl_dispatched:
  "bytecode_impl FB RV32I_BC_INVALID = None" "bytecode_impl FB RV32I_BC_SYSCALL = None" "bytecode_impl FB RV32I_BC_STOP = None"
  "bytecode_impl FB RV32I_BC_SYSTEM = None" "bytecode_impl FB RV32C_BC_LI = None"
  by (simp_all only: bytecode_impl_def bytecode.case)

lemma then_go_flow: "then_go fl r = (Inr fl1, c) \<Longrightarrow> fl1 = fl"
  by (auto simp: then_go_def split: prod.splits sum.splits)

lemma go_flow: "go fl c = (Inr fl1, c1) \<longleftrightarrow> fl1 = fl \<and> c1 = c"
  by (auto simp: go_def)

lemmas straight_defs =
  rv32c_addi_def rv32c_mv_def rv32c_slli_def rv32i_addi_def rv32i_li_def rv32i_mv_def rv64i_addiw_def rv32i_slli_def
  rv32i_slti_def rv32i_sltiu_def rv32i_xori_def rv32i_srli_def rv32i_srai_def rv32i_ori_def rv32i_andi_def rv32c_jal_addiw_def
  rv32i_ldw_def rv32i_ldd_def rv32i_ldb_def rv32i_ldbu_def rv32i_ldh_def rv32i_ldhu_def rv32i_ldwu_def rv32i_stw_def rv32i_std_def
  rv32i_stb_def rv32i_sth_def rv32c_ldd_def rv32c_ldw_def rv32c_std_def rv32c_stw_def rv32i_flw_def rv32i_fld_def rv32i_fsw_def
  rv32i_fsd_def rv32i_auipc_def rv32i_lui_def rv32i_op_add_def rv32i_op_sub_def rv32i_op_sll_def rv32i_op_slt_def
  rv32i_op_sltu_def rv32i_op_xor_def rv32i_op_srl_def rv32i_op_or_def rv32i_op_and_def rv32i_op_mul_def rv32i_op_sh1add_def
  rv32i_op_sh2add_def rv32i_op_sh3add_def rv32i_op_sra_def rv32i_op_zext_h_def rv64i_op_addw_def rv64i_op_subw_def
  rv64i_op_mulw_def rv64i_op_add_uw_def rv64i_slliw_def rv64i_srliw_def rv32i_sext_b_def rv32i_sext_h_def rv32i_bseti_def
  rv32i_bexti_def rv64i_sraiw_def rv64i_op_sh1add_uw_def rv64i_op_sh2add_uw_def rv32i_op_div_def rv32i_op_divu_def
  rv32i_op_rem_def rv32i_op_remu_def rv32c_srli_def rv32c_add_def rv32c_xor_def rv32c_or_def rv32c_andi_def rv32c_func_def
  execute_decoded_function_def
  imm_instr_def shift_instr_def OP_INSTR_def load_instr_def store_instr_def Let_def

lemma straight_flow:
  assumes "bytecode_impl FB bc = Some h" "h E pc d c = (Inr fl, c1)" "kind_of bc \<noteq> Control"
  shows "fl = (if kind_of bc = Straight2 then NEXT_C_INSTR else NEXT_INSTR)"
  using assms
  by (cases bc) (auto simp: impl_table impl_float_table impl_dispatched kind_table straight_defs go_flow dest!: then_go_flow)

lemma if_kind: "kind_of x \<in> K \<Longrightarrow> kind_of y \<in> K \<Longrightarrow> kind_of (if p then x else y) \<in> K"
  by simp

lemma computed_straight:
  "is_long i \<Longrightarrow> \<not> ends_block i \<Longrightarrow> kind_of (computed_index_for i) \<in> {Straight4, Dispatched}"
  "\<not> is_long i \<Longrightarrow> \<not> ends_block i \<Longrightarrow> kind_of (computed_index_for i) \<in> {Straight2, Dispatched}"
proof -
  assume i: "is_long i" "\<not> ends_block i"
  then have o: "opcode i \<noteq> RV32I_BRANCH" "opcode i \<noteq> RV32I_SYSTEM" "opcode i \<noteq> RV32I_JAL" "opcode i \<noteq> RV32I_JALR"
    by (auto simp: ends_block_def)
  have "computed_index_for i = computed_long i" using i(1) by (simp add: computed_index_for_def)
  moreover have "kind_of (computed_long i) \<in> {Straight4, Dispatched}"
    unfolding computed_long_def computed_load_def computed_store_def computed_op_imm_def computed_op_def
      computed_op32_def computed_op_imm32_def computed_fpfunc_def Let_def
    using o by (simp only: if_False) (intro if_kind; simp add: kind_table)
  ultimately show "kind_of (computed_index_for i) \<in> {Straight4, Dispatched}" by simp
next
  assume i: "\<not> is_long i" "\<not> ends_block i"
  then have o: "\<not> (i AND 3 = 1 \<and> (c_funct3 i = 5 \<or> c_funct3 i = 6 \<or> c_funct3 i = 7))"
    "\<not> (i AND 3 = 2 \<and> c_funct3 i = 4 \<and> CR_rd i \<noteq> 0 \<and> CR_rs2 i = 0)"
    by (auto simp: ends_block_def is_regular_compressed_def)
  have c0: "kind_of (computed_c0 i) \<in> {Straight2, Dispatched}"
    unfolding computed_c0_def Let_def by (intro if_kind; simp add: kind_table)
  have alu: "kind_of (computed_c1_alu i) \<in> {Straight2, Dispatched}"
    unfolding computed_c1_alu_def Let_def by (intro if_kind; simp add: kind_table)
  have c1: "i AND 3 = 1 \<Longrightarrow> kind_of (computed_c1 i) \<in> {Straight2, Dispatched}"
    unfolding computed_c1_def Let_def using o(1) alu by (auto simp: kind_table)
  have c2: "i AND 3 = 2 \<Longrightarrow> kind_of (computed_c2 i) \<in> {Straight2, Dispatched}"
    unfolding computed_c2_def Let_def using o(2) by (auto simp: kind_table)
  show "kind_of (computed_index_for i) \<in> {Straight2, Dispatched}"
    using quadrant_cases [OF i(1)] c0 c1 c2 i(1) by (auto simp: computed_index_for_def)
qed

lemma rewrite_keeps_kind:
  assumes "threaded_rewrite u s b a i = Some bw"
  shows "kind_of (fst bw) = kind_of b \<or> fst bw = RV32I_BC_INVALID"
  using assms
  by (cases b) (auto simp: rewrite_table rewrite_c_table rewrite_branch_def rewrite_jal_def rewrite_c_branch_def rewrite_c_jmp_def Let_def
      rewrite_rest_table kind_table split: if_splits)

section \<open>Where a bytecode can lead\<close>

text \<open>
  A bytecode of an instruction at \<open>a\<close> leads to the next instruction, to an address of the segment that was checked when the instruction was
  rewritten, or to an address that the dispatcher checks; without a check of the instruction counter it leads forward only.
\<close>

definition valid_flow :: "Segment \<Rightarrow> 64 word \<Rightarrow> 32 word \<Rightarrow> flow \<Rightarrow> bool" where
  "valid_flow s a i fl \<longleftrightarrow>
    (case fl of
       NEXT_INSTR \<Rightarrow> \<not> ends_block i \<and> instr_length i = 4
     | NEXT_C_INSTR \<Rightarrow> \<not> ends_block i \<and> instr_length i = 2
     | NEXT_BLOCK len checked \<Rightarrow>
         ends_block i \<and> (len = of_nat (instr_length i) \<or> is_within s (a + len) 2 \<and> (a + len) AND 1 = 0 \<and> (checked \<or> 0 < sint len))
     | PERFORM_BRANCH off \<Rightarrow> ends_block i \<and> is_within s (a + off) 2 \<and> (a + off) AND 1 = 0
     | OVERFLOW_CHECKED_JUMP t \<Rightarrow> ends_block i \<and> t AND 1 = 0)"

lemma is_within_2: "is_within s a 4 \<Longrightarrow> is_within s a 2"
  by (auto simp: is_within_def)

lemma clear_low_bit: "(x AND NOT 1) AND 1 = (0 :: 64 word)" "(x AND - 2) AND 1 = (0 :: 64 word)"
proof -
  show "(x AND NOT 1) AND 1 = 0" by (rule bit_word_eqI) (auto simp: bit_simps)
  then show "(x AND - 2) AND 1 = 0" by simp
qed

lemma straight_valid:
  assumes r: "threaded_rewrite u s (computed_index_for i) a i = Some bw" and h: "bytecode_impl FB (fst bw) = Some h"
    and x: "h E pc d c = (Inr fl, c1)" and e: "\<not> ends_block i"
  shows "valid_flow s a i fl"
proof -
  have "bytecode_impl FB RV32I_BC_INVALID = None" by (simp add: impl_dispatched)
  with h have "fst bw \<noteq> RV32I_BC_INVALID" by auto
  then have k: "kind_of (fst bw) = kind_of (computed_index_for i)" using rewrite_keeps_kind [OF r] by blast
  have d: "kind_of (fst bw) \<noteq> Dispatched" using h
    by (cases "fst bw") (auto simp: impl_dispatched kind_table)
  show ?thesis
  proof (cases "is_long i")
    case True
    then show ?thesis using straight_flow [OF h x] computed_straight(1) [OF True e] k d e by (auto simp: valid_flow_def)
  next
    case False
    then show ?thesis using straight_flow [OF h x] computed_straight(2) [OF False e] k d e by (auto simp: valid_flow_def)
  qed
qed

lemma control_long_valid:
  assumes i: "is_long i" "ends_block i" and r: "threaded_rewrite u s (computed_index_for i) a i = Some bw"
    and h: "bytecode_impl FB (fst bw) = Some h" and x: "h E pc d c = (Inr fl, c1)" and d: "dd_instr d = snd bw"
  shows "valid_flow s a i fl"
proof -
  have "opcode i = RV32I_BRANCH \<or> opcode i = RV32I_SYSTEM \<or> opcode i = RV32I_JAL \<or> opcode i = RV32I_JALR"
    using i by (simp add: ends_block_def)
  then show ?thesis
  proof (elim disjE)
    assume o: "opcode i = RV32I_BRANCH"
    have c: "computed_index_for i = computed_branch i" using i o by (simp add: choose_simps)
    then have "computed_index_for i \<in> {RV32I_BC_BEQ, RV32I_BC_BNE, RV32I_BC_BLT, RV32I_BC_BGE, RV32I_BC_BLTU, RV32I_BC_BGEU, RV32I_BC_INVALID}"
      by (simp add: computed_branch_def)
    then show ?thesis
      using i r h x d unfolding insert_iff empty_iff
      by (elim disjE) (auto simp: table impl_dispatched rewrite_branch_def Let_def branch_instr_def forward_branch_instr_def go_flow
        rv32i_beq_def rv32i_bne_def rv32i_blt_def rv32i_bge_def rv32i_bltu_def rv32i_bgeu_def rv32i_beq_fw_def rv32i_bne_fw_def
        valid_flow_def is_within_2 split: if_splits)
  next
    assume o: "opcode i = RV32I_SYSTEM"
    have "computed_index_for i = computed_system i" using i o by (simp add: choose_simps)
    then have "computed_index_for i \<in> {RV32I_BC_SYSCALL, RV32I_BC_STOP, RV32I_BC_SYSTEM}" by (simp add: computed_system_def)
    then show ?thesis using r h by (auto simp: table impl_dispatched)
  next
    assume o: "opcode i = RV32I_JAL"
    then have "computed_index_for i = RV32I_BC_JAL" using i by (simp add: choose_simps)
    then show ?thesis
      using i r h x d by (auto simp: table impl_dispatched rewrite_jal_def Let_def go_flow rv32i_jal_def rv32i_fast_jal_def rv32i_fast_call_def
        valid_flow_def is_within_2 split: if_splits)
  next
    assume o: "opcode i = RV32I_JALR"
    then have "computed_index_for i = RV32I_BC_JALR" using i by (simp add: choose_simps)
    then show ?thesis
      using i r h x d by (auto simp: table go_flow rv32i_jalr_def Let_def valid_flow_def clear_low_bit)
  qed
qed

lemma control_short_valid:
  assumes i: "\<not> is_long i" "ends_block i" and r: "threaded_rewrite u s (computed_index_for i) a i = Some bw"
    and h: "bytecode_impl FB (fst bw) = Some h" and x: "h E pc d c = (Inr fl, c1)" and d: "dd_instr d = snd bw"
  shows "valid_flow s a i fl"
proof -
  have "(i AND 3 = 1 \<and> (c_funct3 i = 5 \<or> c_funct3 i = 6 \<or> c_funct3 i = 7)) \<or>
    (i AND 3 = 2 \<and> c_funct3 i = 4 \<and> CR_rd i \<noteq> 0 \<and> CR_rs2 i = 0)"
    using i by (auto simp: ends_block_def is_regular_compressed_def)
  then have "computed_index_for i \<in> {RV32C_BC_JMP, RV32C_BC_BEQZ, RV32C_BC_BNEZ, RV32C_BC_JR, RV32C_BC_JALR}"
    using i(1) by (elim disjE conjE) (simp_all add: choose_simps computed_c1_def computed_c2_def)
  then show ?thesis
    using i r h x d unfolding insert_iff empty_iff
    by (elim disjE) (auto simp: table impl_dispatched rewrite_c_branch_def rewrite_c_jmp_def Let_def go_flow
      rv32c_jmp_def rv32c_beqz_def rv32c_bnez_def rv32c_jr_def rv32c_jalr_def clear_low_bit
      valid_flow_def is_within_2 split: if_splits)
qed

lemma bytecode_flow_valid:
  assumes "threaded_rewrite u s (computed_index_for i) a i = Some bw" "bytecode_impl FB (fst bw) = Some h"
    "h E pc d c = (Inr fl, c1)" "dd_instr d = snd bw"
  shows "valid_flow s a i fl"
  using straight_valid [OF assms(1-3)] control_long_valid [OF _ _ assms] control_short_valid [OF _ _ assms] by blast

end
