(* ===== verification/Decoder_Cache.thy ===== *)
theory Decoder_Cache
  imports Bytecode_Step
begin

text \<open>
  Building the decoder cache of an execute segment: \<open>Memory::generate_decoder_cache\<close>, \<open>realize_fastsim\<close> and
  \<open>fill_entries\<close> of \<open>decoder_cache.cpp\<close>, with \<open>read_instruction\<close> of \<open>safe_instr_loader.hpp\<close>, under
  \<open>src/src/libriscv/lib/libriscv\<close>.  The segment's bytes are a function of the address, entries are indexed by half the
  address, \<open>None\<close> is one of the exceptions for an invalid program.  The argument \<open>u\<close> gives, per address, the bytes that a rewrite leaves unset.
\<close>

unbundle bit_operations_syntax

type_synonym cache = "nat \<Rightarrow> DecoderData"

definition half_at :: "(nat \<Rightarrow> 8 word) \<Rightarrow> nat \<Rightarrow> 32 word" where
  "half_at x a = ucast (x a) OR push_bit 8 (ucast (x (a + 1)))"

definition read_instruction :: "(nat \<Rightarrow> 8 word) \<Rightarrow> nat \<Rightarrow> nat \<Rightarrow> 32 word" where
  "read_instruction x pc end_pc =
    (if pc + 4 \<le> end_pc then half_at x pc OR push_bit 16 (half_at x (pc + 2))
     else if pc + 2 \<le> end_pc then half_at x pc else 0)"

text \<open>The length that the first half of an instruction tells.\<close>

definition length_at :: "(nat \<Rightarrow> 8 word) \<Rightarrow> nat \<Rightarrow> nat" where
  "length_at x a = (if half_at x a AND 3 \<noteq> 3 then 2 else 4)"

section \<open>Entries\<close>

definition invalid_entry :: DecoderData where
  "invalid_entry = \<lparr>dd_bytecode = RV32I_BC_INVALID, dd_idxend = 0, dd_icount = 0, dd_instr = 0\<rparr>"

definition decode_entry :: "(nat \<Rightarrow> 32 word) \<Rightarrow> Segment \<Rightarrow> nat \<Rightarrow> 32 word \<Rightarrow> DecoderData option" where
  "decode_entry u s dst i =
    (case threaded_rewrite (u dst) s (computed_index_for i) (of_nat dst) i of
       None \<Rightarrow> None
     | Some (bc, w) \<Rightarrow> Some \<lparr>dd_bytecode = bc, dd_idxend = 0, dd_icount = 0, dd_instr = w\<rparr>)"

function generate_loop ::
  "(nat \<Rightarrow> 32 word) \<Rightarrow> Segment \<Rightarrow> (nat \<Rightarrow> 8 word) \<Rightarrow> nat \<Rightarrow> nat \<Rightarrow> bool \<Rightarrow> cache \<Rightarrow> cache option" where
  "generate_loop u s x end_addr dst was_full_instruction D =
    (if dst < end_addr then
       let i = read_instruction x dst end_addr in
       if was_full_instruction then
         (case decode_entry u s dst i of
            None \<Rightarrow> None
          | Some d \<Rightarrow> generate_loop u s x end_addr (dst + 2) (instr_length i = 2) (D(dst div 2 := d)))
       else generate_loop u s x end_addr (dst + 2) True (D(dst div 2 := invalid_entry))
     else Some D)"
  by pat_completeness auto
termination
  by (relation "measure (\<lambda>(u, s, x, end_addr, dst, f, D). end_addr - dst)") auto

declare generate_loop.simps [simp del]

section \<open>Blocks\<close>

definition set_bytecode :: "bytecode \<Rightarrow> nat \<Rightarrow> cache \<Rightarrow> cache" where
  "set_bytecode bc k D = D(k := (D k)\<lparr>dd_bytecode := bc\<rparr>)"

text \<open>
  From \<open>pc\<close> to the end of its block: the entries with the halfwords of their instructions, the address after the block, and the
  cache with the last entry changed where the block had to be cut.
\<close>

function block_loop ::
  "(nat \<Rightarrow> 8 word) \<Rightarrow> nat \<Rightarrow> nat \<Rightarrow> nat \<Rightarrow> cache \<Rightarrow> ((nat \<times> nat) list \<times> nat \<times> cache) option" where
  "block_loop x last_pc block_pc pc D =
    (let len = length_at x pc; k = pc div 2; item = (k, len div 2); pc1 = pc + len in
     if pc1 \<ge> 2 ^ 64 then None
     else if pc1 > last_pc then Some ([item], pc1, set_bytecode RV32I_BC_INVALID k D)
     else if ends_block (half_at x pc) then Some ([item], pc1, D)
     else if pc1 \<ge> last_pc then Some ([item], pc1, set_bytecode RV32I_BC_INVALID k D)
     else if (pc1 - block_pc) div 2 \<ge> 255 then
       Some ([item], pc1, D(k := (D k)\<lparr>dd_bytecode := RV32I_BC_FUNCBLOCK, dd_instr := read_instruction x pc last_pc\<rparr>))
     else
       case block_loop x last_pc block_pc pc1 D of
         None \<Rightarrow> None
       | Some (items, pc2, D2) \<Rightarrow> Some (item # items, pc2, D2))"
  by pat_completeness auto
termination
  by (relation "measure (\<lambda>(x, last_pc, block_pc, pc, D). last_pc - pc)") (auto simp: length_at_def split: if_splits)

declare block_loop.simps [simp del]

fun fill_loop :: "(nat \<times> nat) list \<Rightarrow> nat \<Rightarrow> cache \<Rightarrow> cache" where
  "fill_loop [] count D = D"
| "fill_loop ((k, len) # items) count D =
    fill_loop items (count - len)
      (D(k := (D k)\<lparr>dd_idxend := count mod 256, dd_icount := Suc (length items) mod 256\<rparr>))"

definition fill_entries :: "(nat \<times> nat) list \<Rightarrow> nat \<Rightarrow> nat \<Rightarrow> cache \<Rightarrow> cache option" where
  "fill_entries items block_pc current_pc D =
    (let count = (current_pc - block_pc) div 2 - snd (last items) in
     if count > 255 then None else Some (fill_loop items count D))"

lemma block_loop_advances: "block_loop x last_pc block_pc pc D = Some (items, pc2, D2) \<Longrightarrow> pc < pc2"
proof (induction x last_pc block_pc pc D arbitrary: items pc2 D2 rule: block_loop.induct)
  case (1 x last_pc block_pc pc D)
  show ?case
    using 1(2) 1(1) [OF refl refl refl refl]
    by (subst (asm) block_loop.simps) (fastforce simp: Let_def length_at_def split: if_splits option.splits)
qed

function realize_loop :: "(nat \<Rightarrow> 8 word) \<Rightarrow> nat \<Rightarrow> nat \<Rightarrow> cache \<Rightarrow> cache option" where
  "realize_loop x last_pc pc D =
    (if pc < last_pc then
       (case block_loop x last_pc pc pc D of
          None \<Rightarrow> None
        | Some (items, pc2, D2) \<Rightarrow>
            (case fill_entries items pc pc2 D2 of None \<Rightarrow> None | Some D3 \<Rightarrow> realize_loop x last_pc pc2 D3))
     else Some D)"
  by pat_completeness auto
termination
proof (relation "measure (\<lambda>(x, last_pc, pc, D). last_pc - pc)")
  fix x last_pc pc D p items r pc2 D2 D3
  assume "pc < last_pc" "block_loop x last_pc pc pc D = Some p" "(items, r) = p" "(pc2, D2) = r"
  then have "pc < pc2" using block_loop_advances [of x last_pc pc pc D items pc2 D2] by auto
  with \<open>pc < last_pc\<close> show "((x, last_pc, pc2, D3), x, last_pc, pc, D) \<in> measure (\<lambda>(x, last_pc, pc, D). last_pc - pc)"
    by auto
qed auto

declare realize_loop.simps [simp del]

definition realize_fastsim :: "(nat \<Rightarrow> 8 word) \<Rightarrow> nat \<Rightarrow> nat \<Rightarrow> cache \<Rightarrow> cache option" where
  "realize_fastsim x base_pc last_pc D =
    (if base_pc \<ge> last_pc \<or> odd base_pc then None else realize_loop x last_pc base_pc D)"

text \<open>
  The loop over the segment steps by two, so that it stops at the first address of the parity of the start that is not below the end of the segment; addresses are natural numbers,
  so the wrap of a segment that ends at the last byte of the address space is left out.
\<close>

definition generate_decoder_cache :: "(nat \<Rightarrow> 32 word) \<Rightarrow> (nat \<Rightarrow> 8 word) \<Rightarrow> Segment \<Rightarrow> Segment option" where
  "generate_decoder_cache u x s =
    (let addr = unat (m_vaddr_begin s); end_addr = unat (m_vaddr_end s) in
     if end_addr < addr then None
     else
       case generate_loop u s x end_addr addr True (\<lambda>_. invalid_entry) of
         None \<Rightarrow> None
       | Some D \<Rightarrow>
           (case realize_fastsim x addr (addr + 2 * ((end_addr - addr + 1) div 2)) (D(end_addr div 2 := (D (end_addr div 2))\<lparr>dd_bytecode := RV32I_BC_INVALID, dd_idxend := 0\<rparr>)) of
              None \<Rightarrow> None
            | Some D1 \<Rightarrow> Some (s\<lparr>seg_decoder := D1\<rparr>)))"

end
