(* ===== verification/Cache_Laws.thy ===== *)
theory Cache_Laws
  imports Decoder_Cache Cpu_Properties
begin

text \<open>
  The contract of the decoder cache (\<open>decoder_cache.cpp\<close>): the linear sweep over the segment, the blocks it is cut into, what each entry holds
  after \<open>generate_decoder_cache\<close>, that generation succeeds, and the locale that offers these laws to the dispatcher.
\<close>

unbundle bit_operations_syntax

section \<open>Reading instructions\<close>

lemma field_low: "lo + n \<le> 16 \<Longrightarrow> field lo n (h OR push_bit 16 y) = field lo n h"
  by (rule bit_word_eqI) (auto simp: bit_field bit_simps)

lemma and3_field: "i AND 3 = field 0 2 i"
  by (simp add: field_def take_bit_eq_mask mask_eq_exp_minus_1)

lemma ends_block_low: "ends_block (h OR push_bit 16 y) = ends_block h"
  by (simp add: ends_block_def instr_length_def is_long_def is_regular_compressed_def and3_field c_funct3_def CR_rd_def CR_rs2_def opcode_def
      field_low)

lemma instr_length_low: "instr_length (h OR push_bit 16 y) = instr_length h"
  by (simp add: instr_length_def is_long_def and3_field field_low)

lemma read_instruction_low:
  assumes "a + 2 \<le> last_pc"
  shows "ends_block (read_instruction x a last_pc) = ends_block (half_at x a)"
    and "instr_length (read_instruction x a last_pc) = length_at x a"
  using assms by (simp_all add: read_instruction_def ends_block_low instr_length_low)
    (simp_all add: instr_length_def is_long_def length_at_def)

lemma length_at_cases: "length_at x a = 2 \<or> length_at x a = 4"
  by (simp add: length_at_def)

lemma length_at_even [simp]: "even (length_at x a)" "length_at x a \<noteq> 0" "0 < length_at x a" "even (a + length_at x a) = even a"
  by (simp_all add: length_at_def)

section \<open>The linear sweep\<close>

function sweep :: "(nat \<Rightarrow> 8 word) \<Rightarrow> nat \<Rightarrow> nat \<Rightarrow> nat list" where
  "sweep x last_pc pc = (if pc < last_pc then pc # sweep x last_pc (pc + length_at x pc) else [])"
  by pat_completeness auto
termination
  by (relation "measure (\<lambda>(x, last_pc, pc). last_pc - pc)") (auto simp: length_at_def)

declare sweep.simps [simp del]

lemma sweep_range: "a \<in> set (sweep x last_pc pc) \<Longrightarrow> pc \<le> a \<and> a < last_pc \<and> (even pc \<longrightarrow> even a)"
proof (induction x last_pc pc rule: sweep.induct)
  case (1 x last_pc pc)
  show ?case
    using 1(2) 1(1) by (subst (asm) sweep.simps) (fastforce split: if_splits)
qed

lemma sweep_next:
  assumes "a \<in> set (sweep x last_pc pc)" "a + length_at x a < last_pc"
  shows "a + length_at x a \<in> set (sweep x last_pc pc)"
  using assms
proof (induction x last_pc pc rule: sweep.induct)
  case (1 x last_pc pc)
  have s: "sweep x last_pc pc = pc # sweep x last_pc (pc + length_at x pc)" if "pc < last_pc"
    using that by (subst sweep.simps) simp
  have p: "pc < last_pc" using 1(2) by (subst (asm) sweep.simps) (simp split: if_splits)
  show ?case
  proof (cases "a = pc")
    case True
    then have "a + length_at x a \<in> set (sweep x last_pc (pc + length_at x pc))"
      using 1(3) by (subst sweep.simps) simp
    then show ?thesis using s [OF p] by simp
  next
    case False
    then show ?thesis using 1 s [OF p] p by simp
  qed
qed

section \<open>The generated entries\<close>

definition fresh_entry :: "(nat \<Rightarrow> 32 word) \<Rightarrow> Segment \<Rightarrow> (nat \<Rightarrow> 8 word) \<Rightarrow> nat \<Rightarrow> nat \<Rightarrow> DecoderData option" where
  "fresh_entry u s x last_pc a = decode_entry u s a (read_instruction x a last_pc)"

lemma generate_loop_entries:
  assumes "generate_loop u s x e dst full D = Some D1" "even dst" "even e"
  shows "(\<forall>a. even a \<and> dst \<le> a \<and> a < e \<longrightarrow>
      (if a \<in> set (sweep x e (if full then dst else dst + 2)) then fresh_entry u s x e a = Some (D1 (a div 2)) else D1 (a div 2) = invalid_entry)) \<and>
    (\<forall>k. k < dst div 2 \<or> e div 2 \<le> k \<longrightarrow> D1 k = D k)"
  using assms
proof (induction u s x e dst full D arbitrary: D1 rule: generate_loop.induct)
  case (1 u s x e dst full D)
  show ?case
  proof (cases "dst < e")
    case False
    then show ?thesis using 1(3) by (subst (asm) generate_loop.simps) auto
  next
    case True
    let ?i = "read_instruction x dst e"
    have e2: "dst + 2 \<le> e" using True 1(4,5) by presburger
    have len: "instr_length ?i = length_at x dst" using read_instruction_low(2) [OF e2] .
    have idx: "k < dst div 2 \<or> e div 2 \<le> k \<Longrightarrow> k < (dst + 2) div 2 \<or> e div 2 \<le> k" for k by auto
    show ?thesis
    proof (cases full)
      case full: True
      from 1(3) True full obtain d where d: "decode_entry u s dst ?i = Some d"
        and g: "generate_loop u s x e (dst + 2) (instr_length ?i = 2) (D(dst div 2 := d)) = Some D1"
        by (subst (asm) generate_loop.simps) (auto simp: Let_def split: option.splits)
      have ev: "even (dst + 2)" using 1(4) by simp
      note IH = 1(1) [OF True refl full d g ev 1(5)]
      note IH1 = IH [THEN conjunct1, rule_format] and IH2 = IH [THEN conjunct2, rule_format]
      have nx: "(if instr_length ?i = 2 then dst + 2 else dst + 2 + 2) = dst + length_at x dst"
        using length_at_cases [of x dst] len by auto
      have sw: "sweep x e dst = dst # sweep x e (dst + length_at x dst)" using True by (subst sweep.simps) simp
      show ?thesis
      proof (intro conjI allI impI)
        fix a assume a: "even a \<and> dst \<le> a \<and> a < e"
        show "if a \<in> set (sweep x e (if full then dst else dst + 2)) then fresh_entry u s x e a = Some (D1 (a div 2)) else D1 (a div 2) = invalid_entry"
        proof (cases "a = dst")
          case True
          then show ?thesis using IH2 [of "dst div 2"] d full sw by (simp add: fresh_entry_def)
        next
          case False
          with a 1(4) have "dst + 2 \<le> a" by presburger
          with IH1 [of a] a have "if a \<in> set (sweep x e (dst + length_at x dst)) then fresh_entry u s x e a = Some (D1 (a div 2)) else D1 (a div 2) = invalid_entry"
            unfolding nx by blast
          with False full sw show ?thesis by simp
        qed
      next
        fix k assume "k < dst div 2 \<or> e div 2 \<le> k"
        moreover have "dst div 2 < e div 2" using True 1(4,5) by presburger
        ultimately show "D1 k = D k" using IH2 [of k] idx by auto
      qed
    next
      case nf: False
      with 1(3) True have g: "generate_loop u s x e (dst + 2) True (D(dst div 2 := invalid_entry)) = Some D1"
        by (subst (asm) generate_loop.simps) (auto simp: Let_def)
      have ev: "even (dst + 2)" using 1(4) by simp
      note IH = 1(2) [OF True refl nf g ev 1(5)]
      note IH1 = IH [THEN conjunct1, rule_format] and IH2 = IH [THEN conjunct2, rule_format]
      show ?thesis
      proof (intro conjI allI impI)
        fix a assume a: "even a \<and> dst \<le> a \<and> a < e"
        show "if a \<in> set (sweep x e (if full then dst else dst + 2)) then fresh_entry u s x e a = Some (D1 (a div 2)) else D1 (a div 2) = invalid_entry"
        proof (cases "a = dst")
          case True
          then have "a \<notin> set (sweep x e (dst + 2))" using sweep_range [of a x e "dst + 2"] by auto
          then show ?thesis using True nf IH2 [of "dst div 2"] by simp
        next
          case False
          with a 1(4) have "dst + 2 \<le> a" by presburger
          with IH1 [of a] a nf show ?thesis by simp
        qed
      next
        fix k assume "k < dst div 2 \<or> e div 2 \<le> k"
        moreover have "dst div 2 < e div 2" using True 1(4,5) by presburger
        ultimately show "D1 k = D k" using IH2 [of k] idx by auto
      qed
    qed
  qed
qed

section \<open>The blocks of the sweep\<close>

fun chain :: "(nat \<Rightarrow> 8 word) \<Rightarrow> nat list \<Rightarrow> bool" where
  "chain x [] = True"
| "chain x [a] = True"
| "chain x (a # b # r) = (b = a + length_at x a \<and> chain x (b # r))"

lemma chain_nth: "chain x as \<Longrightarrow> Suc n < length as \<Longrightarrow> as ! Suc n = as ! n + length_at x (as ! n)"
  by (induction x as arbitrary: n rule: chain.induct) (auto simp: nth_Cons split: nat.splits)

lemma chain_mono: "chain x (a # as) \<Longrightarrow> b \<in> set as \<Longrightarrow> a + length_at x a \<le> b"
proof (induction as arbitrary: a)
  case (Cons c cs)
  from Cons.prems(1) have c: "c = a + length_at x a" "chain x (c # cs)" by auto
  show ?case
  proof (cases "b = c")
    case False
    then have "c + length_at x c \<le> b" using Cons.IH [OF c(2)] Cons.prems(2) by simp
    then show ?thesis using c(1) by simp
  qed (use c in simp)
qed simp

lemma chain_even: "chain x (a # as) \<Longrightarrow> even a \<Longrightarrow> b \<in> set as \<Longrightarrow> even b"
proof (induction as arbitrary: a)
  case (Cons c cs)
  from Cons.prems have c: "even c" "chain x (c # cs)" by auto
  then show ?case using Cons.IH [OF c(2) c(1)] Cons.prems(3) by auto
qed simp

lemma chain_last: "chain x (a # as) \<Longrightarrow> a + 2 * length as \<le> last (a # as)"
proof (induction as arbitrary: a)
  case (Cons c cs)
  from Cons.prems have c: "c = a + length_at x a" "chain x (c # cs)" by auto
  have "a + 2 \<le> c" using c(1) length_at_cases [of x a] by auto
  then show ?case using Cons.IH [OF c(2)] by simp
qed simp

text \<open>What the loop over a block does with its last entry: kept when the instruction ends blocks, else cut.\<close>

definition last_entry :: "(nat \<Rightarrow> 8 word) \<Rightarrow> nat \<Rightarrow> nat \<Rightarrow> DecoderData \<Rightarrow> DecoderData \<Rightarrow> bool" where
  "last_entry x last_pc a d0 d \<longleftrightarrow>
    dd_bytecode d = RV32I_BC_INVALID \<or>
    (dd_bytecode d = RV32I_BC_FUNCBLOCK \<and> dd_instr d = read_instruction x a last_pc \<and> a + length_at x a < last_pc \<and> \<not> ends_block (half_at x a)) \<or>
    (d = d0 \<and> ends_block (half_at x a) \<and> a + length_at x a \<le> last_pc)"

definition is_block ::
  "(nat \<Rightarrow> 8 word) \<Rightarrow> nat \<Rightarrow> nat \<Rightarrow> nat \<Rightarrow> nat list \<Rightarrow> nat \<Rightarrow> bool" where
  "is_block x last_pc block_pc pc as pc2 \<longleftrightarrow>
    as \<noteq> [] \<and> hd as = pc \<and> chain x as \<and> pc2 = last as + length_at x (last as) \<and>
    sweep x last_pc pc = as @ sweep x last_pc pc2 \<and>
    (\<forall>a\<in>set (butlast as). \<not> ends_block (half_at x a) \<and> a + length_at x a < last_pc) \<and> (last as - block_pc) div 2 < 255"

lemma is_block_single:
  assumes "pc < last_pc" "(pc - block_pc) div 2 < 255"
  shows "is_block x last_pc block_pc pc [pc] (pc + length_at x pc)"
  using assms by (auto simp: is_block_def) (subst sweep.simps, simp)

lemma is_block_Cons:
  assumes "is_block x last_pc block_pc (pc + length_at x pc) as pc2" "\<not> ends_block (half_at x pc)" "pc + length_at x pc < last_pc"
  shows "is_block x last_pc block_pc pc (pc # as) pc2"
proof -
  obtain b bs where as: "as = b # bs" using assms(1) by (cases as) (auto simp: is_block_def)
  have "sweep x last_pc pc = pc # sweep x last_pc (pc + length_at x pc)"
    using assms(3) by (subst sweep.simps) simp
  then show ?thesis using assms unfolding as is_block_def by auto
qed

lemma block_loop_shape:
  assumes "block_loop x last_pc block_pc pc D = Some (items, pc2, D2)" "pc < last_pc" "(pc - block_pc) div 2 < 255"
  shows "\<exists>as d. is_block x last_pc block_pc pc as pc2 \<and> items = map (\<lambda>a. (a div 2, length_at x a div 2)) as \<and>
    D2 = D(last as div 2 := d) \<and> last_entry x last_pc (last as) (D (last as div 2)) d"
  using assms
proof (induction x last_pc block_pc pc D arbitrary: items pc2 D2 rule: block_loop.induct)
  case (1 x last_pc block_pc pc D)
  let ?pc1 = "pc + length_at x pc"
  have single: ?case if "items = [(pc div 2, length_at x pc div 2)]" "pc2 = ?pc1" "D2 = D(pc div 2 := d)"
      "last_entry x last_pc pc (D (pc div 2)) d" for d
    using is_block_single [OF 1(3,4), of x] that by (intro exI [of _ "[pc]"] exI [of _ d]) simp
  show ?case
  proof (cases "?pc1 \<ge> 2 ^ 64 \<or> ?pc1 > last_pc \<or> ends_block (half_at x pc) \<or> ?pc1 \<ge> last_pc \<or> (?pc1 - block_pc) div 2 \<ge> 255")
    case True
    let ?inv = "(D (pc div 2))\<lparr>dd_bytecode := RV32I_BC_INVALID\<rparr>"
    let ?fb = "(D (pc div 2))\<lparr>dd_bytecode := RV32I_BC_FUNCBLOCK, dd_instr := read_instruction x pc last_pc\<rparr>"
    from 1(2) True have "items = [(pc div 2, length_at x pc div 2)] \<and> pc2 = ?pc1 \<and>
      (D2 = D(pc div 2 := ?inv) \<or> (D2 = D(pc div 2 := D (pc div 2)) \<and> ends_block (half_at x pc) \<and> ?pc1 \<le> last_pc) \<or>
       (D2 = D(pc div 2 := ?fb) \<and> ?pc1 < last_pc \<and> \<not> ends_block (half_at x pc)))"
      by (subst (asm) block_loop.simps) (auto simp: Let_def set_bytecode_def split: if_splits)
    moreover have "last_entry x last_pc pc (D (pc div 2)) ?inv" by (simp add: last_entry_def)
    moreover have "ends_block (half_at x pc) \<Longrightarrow> ?pc1 \<le> last_pc \<Longrightarrow> last_entry x last_pc pc (D (pc div 2)) (D (pc div 2))"
      by (simp add: last_entry_def)
    moreover have "?pc1 < last_pc \<Longrightarrow> \<not> ends_block (half_at x pc) \<Longrightarrow> last_entry x last_pc pc (D (pc div 2)) ?fb"
      by (simp add: last_entry_def)
    ultimately show ?thesis using single by blast
  next
    case False
    with 1(2) obtain items' where items: "items = (pc div 2, length_at x pc div 2) # items'"
      and r: "block_loop x last_pc block_pc ?pc1 D = Some (items', pc2, D2)"
      by (subst (asm) block_loop.simps) (auto simp: Let_def split: option.splits)
    from False have f: "?pc1 < last_pc" "(?pc1 - block_pc) div 2 < 255" "\<not> ends_block (half_at x pc)" by auto
    have "\<exists>as d. is_block x last_pc block_pc ?pc1 as pc2 \<and> items' = map (\<lambda>a. (a div 2, length_at x a div 2)) as \<and>
      D2 = D(last as div 2 := d) \<and> last_entry x last_pc (last as) (D (last as div 2)) d"
      using False by (intro 1(1) [OF refl refl refl refl _ _ _ _ _ r] f) auto
    then obtain as d where as: "is_block x last_pc block_pc ?pc1 as pc2" "items' = map (\<lambda>a. (a div 2, length_at x a div 2)) as"
      "D2 = D(last as div 2 := d)" "last_entry x last_pc (last as) (D (last as div 2)) d" by blast
    have "as \<noteq> []" using as(1) by (simp add: is_block_def)
    then show ?thesis using as items is_block_Cons [OF as(1) f(3,1)]
      by (intro exI [of _ "pc # as"] exI [of _ d]) simp
  qed
qed

lemma fill_loop_other: "k \<notin> fst ` set items \<Longrightarrow> fill_loop items count D k = D k"
  by (induction items count D rule: fill_loop.induct) auto

lemma fill_loop_nth:
  assumes "chain x as" "as \<noteq> []" "even (hd as)" "count = (last as - hd as) div 2" "count \<le> 255" "n < length as"
  shows "fill_loop (map (\<lambda>a. (a div 2, length_at x a div 2)) as) count D (as ! n div 2) =
    (D (as ! n div 2))\<lparr>dd_idxend := (last as - as ! n) div 2, dd_icount := (length as - n) mod 256\<rparr>"
  using assms
proof (induction as arbitrary: count D n)
  case (Cons a as)
  have distinct: "a div 2 \<notin> (\<lambda>b. b div 2) ` set as"
  proof
    assume "a div 2 \<in> (\<lambda>b. b div 2) ` set as"
    then obtain b where b: "b \<in> set as" "a div 2 = b div 2" by auto
    have "a + 2 \<le> b" using chain_mono [OF Cons(2) b(1)] length_at_cases [of x a] by auto
    with b(2) show False by auto
  qed
  show ?case
  proof (cases n)
    case 0
    then show ?thesis using Cons(5,6) distinct by (simp add: fill_loop_other image_image)
  next
    case (Suc m)
    obtain b bs where as: "as = b # bs" using Cons(7) Suc by (cases as) auto
    have b: "b = a + length_at x a" "chain x as" using Cons(2) as by auto
    have "even b" using b Cons(4) by simp
    have ba: "b \<le> last as" using chain_last [of x b bs] b as by simp
    let ?e = "\<lambda>c k. c \<lparr>dd_idxend := count mod 256, dd_icount := k mod 256\<rparr>"
    have c: "count - length_at x a div 2 = (last as - hd as) div 2"
      using Cons(5) b ba as Cons(4) length_at_cases [of x a] by auto
    then have c255: "count - length_at x a div 2 \<le> 255" using Cons(6) by simp
    have m: "m < length as" using Cons(7) Suc by simp
    have ne: "as ! m div 2 \<noteq> a div 2" using distinct m by (metis imageI nth_mem)
    have "as \<noteq> []" "even (hd as)" using as \<open>even b\<close> by auto
    note IH = Cons.IH [OF b(2) this c c255 m, of "D(a div 2 := ?e (D (a div 2)) (Suc (length as)))"]
    show ?thesis
      using IH \<open>as \<noteq> []\<close> unfolding Suc fun_upd_other [OF ne] by (simp del: fun_upd_apply)
  qed
qed simp

section \<open>What the cache promises\<close>

text \<open>
  The entry of an instruction either ends its block or hands over to the entry of the next instruction, whose distance to the end of the block and count of instructions it continues.
\<close>

definition ends_here ::
  "(nat \<Rightarrow> 32 word) \<Rightarrow> Segment \<Rightarrow> (nat \<Rightarrow> 8 word) \<Rightarrow> nat \<Rightarrow> nat \<Rightarrow> DecoderData \<Rightarrow> bool" where
  "ends_here u s x last_pc a d \<longleftrightarrow>
    (let i = read_instruction x a last_pc in
     dd_bytecode d = RV32I_BC_INVALID \<or>
     (dd_bytecode d = RV32I_BC_FUNCBLOCK \<and> dd_instr d = i \<and> a + length_at x a < last_pc \<and> \<not> ends_block i) \<or>
     (ends_block i \<and> a + length_at x a \<le> last_pc \<and>
      threaded_rewrite (u a) s (computed_index_for i) (of_nat a) i = Some (dd_bytecode d, dd_instr d)))"

definition entry_law ::
  "(nat \<Rightarrow> 32 word) \<Rightarrow> Segment \<Rightarrow> (nat \<Rightarrow> 8 word) \<Rightarrow> nat \<Rightarrow> cache \<Rightarrow> nat \<Rightarrow> bool" where
  "entry_law u s x last_pc D a \<longleftrightarrow>
    (let i = read_instruction x a last_pc; d = D (a div 2); d1 = D ((a + length_at x a) div 2) in
     (dd_idxend d = 0 \<and> dd_icount d = 1 \<and> ends_here u s x last_pc a d) \<or>
     (\<not> ends_block i \<and> a + length_at x a < last_pc \<and>
      threaded_rewrite (u a) s (computed_index_for i) (of_nat a) i = Some (dd_bytecode d, dd_instr d) \<and>
      dd_idxend d = length_at x a div 2 + dd_idxend d1 \<and> dd_icount d = Suc (dd_icount d1) \<and>
      dd_idxend d \<le> 255 \<and> dd_icount d \<le> 255))"

lemma fresh_entry_rewrite:
  "fresh_entry u s x last_pc a = Some d \<Longrightarrow>
    threaded_rewrite (u a) s (computed_index_for (read_instruction x a last_pc)) (of_nat a) (read_instruction x a last_pc) = Some (dd_bytecode d, dd_instr d)"
  by (auto simp: fresh_entry_def decode_entry_def split: option.splits)

lemma chain_less: "chain x as \<Longrightarrow> m < n \<Longrightarrow> n < length as \<Longrightarrow> as ! m < as ! n"
proof (induction n)
  case (Suc n)
  have "as ! n < as ! Suc n" using chain_nth [OF Suc.prems(1,3)] by simp
  then show ?case using Suc by (cases "m = n") auto
qed simp

lemma chain_le_last:
  assumes "chain x as" "a \<in> set as"
  shows "a \<le> last as"
proof -
  obtain n where n: "n < length as" "a = as ! n" using assms(2) by (auto simp: in_set_conv_nth)
  have "as \<noteq> []" using n by auto
  then have l: "last as = as ! (length as - 1)" by (rule last_conv_nth)
  show ?thesis
  proof (cases "n = length as - 1")
    case False
    then have "n < length as - 1" using n by simp
    moreover have "length as - 1 < length as" using n(1) by simp
    ultimately show ?thesis using chain_less [OF assms(1)] n(2) l by (simp add: less_imp_le)
  qed (use n l in simp)
qed

lemma chain_next: "chain x as \<Longrightarrow> a \<in> set as \<Longrightarrow> a \<noteq> last as \<Longrightarrow> a + length_at x a \<in> set as"
  by (induction x as rule: chain.induct) (auto split: if_splits)

lemma block_filled:
  assumes blk: "is_block x last_pc pc pc as pc2" and ev: "even pc"
    and D1: "D1 = fill_loop (map (\<lambda>a. (a div 2, length_at x a div 2)) as) ((last as - pc) div 2) (D(last as div 2 := d))"
  shows "n < length as \<Longrightarrow> D1 (as ! n div 2) = ((D(last as div 2 := d)) (as ! n div 2))\<lparr>dd_idxend := (last as - as ! n) div 2, dd_icount := length as - n\<rparr>"
    and "length as \<le> 255" and "n < length as \<Longrightarrow> (last as - as ! n) div 2 < 255"
    and "k \<notin> (\<lambda>a. a div 2) ` set as \<Longrightarrow> D1 k = D k"
proof -
  obtain r where as: "as = pc # r" using blk by (cases as) (auto simp: is_block_def)
  have c: "chain x as" "(last as - pc) div 2 < 255" using blk by (auto simp: is_block_def)
  have "pc + 2 * length r \<le> last as" using chain_last [of x pc r] c as by simp
  then show len: "length as \<le> 255" using c(2) as by simp
  show "D1 k = D k" if "k \<notin> (\<lambda>a. a div 2) ` set as"
  proof -
    have "last as \<in> set as" using as by simp
    then have "k \<noteq> last as div 2" using that by blast
    then show ?thesis unfolding D1 using that by (subst fill_loop_other) (auto simp: image_image)
  qed
  show "(last as - as ! n) div 2 < 255" if n: "n < length as"
  proof -
    have "pc \<le> as ! n"
      using chain_mono [of x pc r "as ! n"] c as n by (cases n) (auto simp: nth_mem intro: le_trans [OF le_add1])
    then have "(last as - as ! n) div 2 \<le> (last as - pc) div 2" by (intro div_le_mono diff_le_mono2)
    with c(2) show ?thesis by simp
  qed
  assume n: "n < length as"
  show "D1 (as ! n div 2) = ((D(last as div 2 := d)) (as ! n div 2))\<lparr>dd_idxend := (last as - as ! n) div 2, dd_icount := length as - n\<rparr>"
  proof -
    have h: "as \<noteq> []" "even (hd as)" "(last as - pc) div 2 = (last as - hd as) div 2" "(last as - pc) div 2 \<le> 255"
      using as ev c(2) by auto
    have "(length as - n) mod 256 = length as - n" using len by simp
    with fill_loop_nth [OF c(1) h n, of "D(last as div 2 := d)"] show ?thesis unfolding D1 by (simp only:)
  qed
qed

lemma block_law:
  assumes blk: "is_block x last_pc pc pc as pc2" and ev: "even pc" "even last_pc"
    and D1: "D1 = fill_loop (map (\<lambda>a. (a div 2, length_at x a div 2)) as) ((last as - pc) div 2) (D(last as div 2 := d))"
    and d: "last_entry x last_pc (last as) (D (last as div 2)) d"
    and fresh: "\<And>a. a \<in> set as \<Longrightarrow> fresh_entry u s x last_pc a = Some (D (a div 2))"
    and a: "a \<in> set as"
  shows "entry_law u s x last_pc D1 a"
proof -
  obtain n where n: "n < length as" "a = as ! n" using a by (auto simp: in_set_conv_nth)
  have c: "chain x as" "as \<noteq> []" "sweep x last_pc pc = as @ sweep x last_pc pc2"
    "\<And>b. b \<in> set (butlast as) \<Longrightarrow> \<not> ends_block (half_at x b) \<and> b + length_at x b < last_pc"
    using blk by (auto simp: is_block_def)
  note filled = block_filled [OF blk ev(1) D1]
  have "a \<in> set (sweep x last_pc pc)" using a c(3) by simp
  then have "a < last_pc" "even a" using sweep_range ev(1) by auto
  then have "a + 2 \<le> last_pc" using ev(2) by presburger
  note low = read_instruction_low [OF this, of x]
  show ?thesis
  proof (cases "Suc n < length as")
    case False
    then have n1: "n = length as - 1" using n(1) by simp
    then have la: "a = last as" using n(2) c(2) by (simp add: last_conv_nth)
    have da: "D1 (a div 2) = d\<lparr>dd_idxend := 0, dd_icount := 1\<rparr>" using filled(1) [OF n(1)] n1 n(1) la n(2) by simp
    have "ends_here u s x last_pc a d"
      using d fresh_entry_rewrite [OF fresh [OF a]] la low unfolding last_entry_def ends_here_def Let_def by auto
    then show ?thesis using da by (simp add: entry_law_def ends_here_def)
  next
    case True
    have nl: "a div 2 \<noteq> last as div 2"
    proof
      assume eq: "a div 2 = last as div 2"
      have "last as \<in> set (sweep x last_pc pc)" using c(2,3) by simp
      then have "even (last as)" using sweep_range ev(1) by auto
      with eq \<open>even a\<close> have "a = last as" by presburger
      then have "as ! n = as ! (length as - 1)" using n c(2) by (simp add: last_conv_nth)
      moreover have "as ! n < as ! (length as - 1)" using chain_less [OF c(1), of n "length as - 1"] True by simp
      ultimately show False by simp
    qed
    have nb: "a \<in> set (butlast as)" using n True by (metis in_set_conv_nth length_butlast less_diff_conv nth_butlast Suc_eq_plus1)
    have nxt: "as ! Suc n = a + length_at x a" using chain_nth [OF c(1) True] n(2) by simp
    have da: "D1 (a div 2) = (D (a div 2))\<lparr>dd_idxend := (last as - a) div 2, dd_icount := length as - n\<rparr>"
      using filled(1) [OF n(1)] n(2) nl by simp
    have db: "dd_idxend (D1 ((a + length_at x a) div 2)) = (last as - (a + length_at x a)) div 2"
      "dd_icount (D1 ((a + length_at x a) div 2)) = length as - Suc n"
      using filled(1) [OF True] nxt by simp_all
    have "as ! Suc n \<le> last as" using chain_le_last [OF c(1)] True by simp
    then have dist: "(last as - a) div 2 = length_at x a div 2 + (last as - (a + length_at x a)) div 2"
      using nxt length_at_cases [of x a] by auto
    have "length as - n = Suc (length as - Suc n)" "length as - n \<le> 255" using True filled(2) by simp_all
    moreover have "(last as - a) div 2 \<le> 255" using filled(3) [OF n(1)] n(2) by simp
    moreover have "\<not> ends_block (read_instruction x a last_pc)" "a + length_at x a < last_pc" using c(4) [OF nb] low by simp_all
    ultimately show ?thesis
      unfolding entry_law_def Let_def da db using fresh_entry_rewrite [OF fresh [OF a]] dist by simp
  qed
qed

lemma realize_loop_unchanged:
  assumes "realize_loop x last_pc pc D = Some D1" "k \<notin> (\<lambda>a. a div 2) ` set (sweep x last_pc pc)"
  shows "D1 k = D k"
  using assms
proof (induction x last_pc pc D arbitrary: D1 rule: realize_loop.induct)
  case (1 x last_pc pc D)
  show ?case
  proof (cases "pc < last_pc")
    case False
    then show ?thesis using 1(2) by (subst (asm) realize_loop.simps) auto
  next
    case True
    with 1(2) obtain items pc2 D2 D3 where b: "block_loop x last_pc pc pc D = Some (items, pc2, D2)"
      and f: "fill_entries items pc pc2 D2 = Some D3" and r: "realize_loop x last_pc pc2 D3 = Some D1"
      by (subst (asm) realize_loop.simps) (auto split: option.splits)
    obtain as d where as: "is_block x last_pc pc pc as pc2" "items = map (\<lambda>a. (a div 2, length_at x a div 2)) as"
      "D2 = D(last as div 2 := d)"
      using block_loop_shape [OF b True] by auto
    have blk: "as \<noteq> []" "sweep x last_pc pc = as @ sweep x last_pc pc2" using as(1) by (auto simp: is_block_def)
    have out: "k \<notin> (\<lambda>a. a div 2) ` set as" "k \<notin> (\<lambda>a. a div 2) ` set (sweep x last_pc pc2)"
      using 1(3) blk(2) by auto
    have "D3 = fill_loop items ((pc2 - pc) div 2 - snd (last items)) D2" using f by (auto simp: fill_entries_def Let_def split: if_splits)
    moreover have "k \<notin> fst ` set items" using out as(2) by (auto simp: image_image)
    ultimately have "D3 k = D2 k" using fill_loop_other by simp
    moreover have "D2 k = D k" using as(3) out(1) blk(1) by (metis fun_upd_other imageI last_in_set)
    moreover have "D1 k = D3 k" using 1(1) [OF True b refl refl f r out(2)] .
    ultimately show ?thesis by simp
  qed
qed

lemma sweep_above: "k < pc div 2 \<Longrightarrow> k \<notin> (\<lambda>a. a div 2) ` set (sweep x last_pc pc)"
  using sweep_range by fastforce

lemma realize_loop_law:
  assumes "realize_loop x last_pc pc D = Some D1" "even pc" "even last_pc"
    and "\<And>a. a \<in> set (sweep x last_pc pc) \<Longrightarrow> fresh_entry u s x last_pc a = Some (D (a div 2))"
  shows "\<forall>a\<in>set (sweep x last_pc pc). entry_law u s x last_pc D1 a"
  using assms
proof (induction x last_pc pc D arbitrary: D1 rule: realize_loop.induct)
  case (1 x last_pc pc D)
  show ?case
  proof (cases "pc < last_pc")
    case False
    then show ?thesis by (subst sweep.simps) simp
  next
    case True
    with 1(2) obtain items pc2 D2 D3 where b: "block_loop x last_pc pc pc D = Some (items, pc2, D2)"
      and f: "fill_entries items pc pc2 D2 = Some D3" and r: "realize_loop x last_pc pc2 D3 = Some D1"
      by (subst (asm) realize_loop.simps) (auto split: option.splits)
    obtain as d where as: "is_block x last_pc pc pc as pc2" "items = map (\<lambda>a. (a div 2, length_at x a div 2)) as"
      "D2 = D(last as div 2 := d)" "last_entry x last_pc (last as) (D (last as div 2)) d"
      using block_loop_shape [OF b True] by auto
    have blk: "as \<noteq> []" "pc2 = last as + length_at x (last as)" "sweep x last_pc pc = as @ sweep x last_pc pc2"
      "chain x as" "hd as = pc"
      using as(1) by (auto simp: is_block_def)
    have mem: "a \<in> set as \<Longrightarrow> pc \<le> a \<and> a < last_pc \<and> even a" for a
      using blk(3) sweep_range [of a x last_pc pc] 1(3) by auto
    have pc2: "even pc2" using blk(1,2) mem [of "last as"] by auto
    have lo: "a \<in> set as \<Longrightarrow> a < pc2" for a
      using chain_le_last [OF blk(4)] blk(2) length_at_cases [of x "last as"] by fastforce
    have "snd (last items) = length_at x (last as) div 2" using as(2) blk(1) by (simp add: last_map)
    then have count: "(pc2 - pc) div 2 - snd (last items) = (last as - pc) div 2"
      using blk(2) mem [of "last as"] blk(1) length_at_cases [of x "last as"] by auto
    then have D3: "D3 = fill_loop (map (\<lambda>a. (a div 2, length_at x a div 2)) as) ((last as - pc) div 2) (D(last as div 2 := d))"
      using f as(2,3) by (auto simp: fill_entries_def Let_def split: if_splits)
    have law3: "entry_law u s x last_pc D3 a" if "a \<in> set as" for a
      using block_law [OF as(1) 1(3,4) D3 as(4) _ that] 1(5) blk(3) by auto
    have same: "D1 k = D3 k" if "k < pc2 div 2" for k
      using realize_loop_unchanged [OF r sweep_above] that by blast
    have "entry_law u s x last_pc D1 a" if a: "a \<in> set as" for a
    proof -
      have ev: "even a" using mem [OF a] by simp
      have same1: "D1 (a div 2) = D3 (a div 2)" using same lo [OF a] ev pc2 by (auto elim!: evenE)
      show ?thesis
      proof (cases "a = last as")
        case True
        have "dd_idxend (D3 (a div 2)) = 0"
          using block_filled(1) [OF as(1) 1(3) D3, of "length as - 1"] True blk(1) by (simp add: last_conv_nth)
        then have "dd_idxend (D3 (a div 2)) \<noteq> length_at x a div 2 + dd_idxend (D3 ((a + length_at x a) div 2))"
          using length_at_cases [of x a] by auto
        then show ?thesis using law3 [OF a] same1 by (auto simp: entry_law_def Let_def)
      next
        case False
        then have "a + length_at x a \<in> set as"
          using chain_next [OF blk(4) a] by simp
        from lo [OF this] have "D1 ((a + length_at x a) div 2) = D3 ((a + length_at x a) div 2)"
          using same ev pc2 by (auto elim!: evenE)
        then show ?thesis using law3 [OF a] same1 by (simp add: entry_law_def)
      qed
    qed
    moreover have "\<forall>a\<in>set (sweep x last_pc pc2). entry_law u s x last_pc D1 a"
    proof (rule 1(1) [OF True b refl refl f r pc2 1(4)])
      fix a assume a: "a \<in> set (sweep x last_pc pc2)"
      have "pc2 \<le> a" "even a" using sweep_range [OF a] pc2 by auto
      then have "a div 2 \<notin> (\<lambda>b. b div 2) ` set as" using lo mem pc2 by (fastforce elim!: evenE)
      then have "D3 (a div 2) = D (a div 2)" using block_filled(4) [OF as(1) 1(3) D3] by simp
      then show "fresh_entry u s x last_pc a = Some (D3 (a div 2))" using 1(5) a blk(3) by simp
    qed
    ultimately show ?thesis using blk(3) by auto
  qed
qed

section \<open>The generated cache\<close>

lemma generated_cache:
  assumes g: "generate_decoder_cache u x s = Some s1" and ev: "even (unat (m_vaddr_end s))"
  defines "b \<equiv> unat (m_vaddr_begin s)" and "e \<equiv> unat (m_vaddr_end s)"
  shows "m_vaddr_begin s1 = m_vaddr_begin s" "m_vaddr_end s1 = m_vaddr_end s" "even b" "b < e"
    and "a \<in> set (sweep x e b) \<Longrightarrow> entry_law u s x e (seg_decoder s1) a"
    and "even a \<Longrightarrow> b \<le> a \<Longrightarrow> a \<le> e \<Longrightarrow> a \<notin> set (sweep x e b) \<Longrightarrow> seg_decoder s1 (a div 2) = invalid_entry"
proof -
  let ?D = "\<lambda>D. D(e div 2 := (D (e div 2))\<lparr>dd_bytecode := RV32I_BC_INVALID, dd_idxend := 0\<rparr>)"
  from g obtain D D1 where le: "b \<le> e" and D: "generate_loop u s x e b True (\<lambda>_. invalid_entry) = Some D"
    and f: "realize_fastsim x b (b + 2 * ((e - b + 1) div 2)) (?D D) = Some D1" and s1: "s1 = s\<lparr>seg_decoder := D1\<rparr>"
    by (auto simp: generate_decoder_cache_def Let_def b_def e_def not_less split: if_splits option.splits)
  show "m_vaddr_begin s1 = m_vaddr_begin s" "m_vaddr_end s1 = m_vaddr_end s" using s1 by simp_all
  from f show bev: "even b" by (auto simp: realize_fastsim_def split: if_splits)
  with ev le have last: "b + 2 * ((e - b + 1) div 2) = e" unfolding e_def by presburger
  from f show be: "b < e" unfolding last by (auto simp: realize_fastsim_def split: if_splits)
  from f be bev have r: "realize_loop x e b (?D D) = Some D1" unfolding last by (simp add: realize_fastsim_def)
  note gen = generate_loop_entries [OF D bev ev [folded e_def]]
  have fresh: "fresh_entry u s x e a = Some ((?D D) (a div 2))" if a: "a \<in> set (sweep x e b)" for a
  proof -
    have "b \<le> a" "a < e" "even a" using sweep_range [OF a] bev by auto
    moreover from this ev have "a div 2 \<noteq> e div 2" unfolding e_def by presburger
    ultimately show ?thesis using gen a by auto
  qed
  show "entry_law u s x e (seg_decoder s1) a" if "a \<in> set (sweep x e b)"
    using realize_loop_law [OF r bev ev [folded e_def] fresh] that s1 by auto
  show "seg_decoder s1 (a div 2) = invalid_entry" if a: "even a" "b \<le> a" "a \<le> e" "a \<notin> set (sweep x e b)"
  proof -
    have "a div 2 \<notin> (\<lambda>a. a div 2) ` set (sweep x e b)"
    proof
      assume "a div 2 \<in> (\<lambda>a. a div 2) ` set (sweep x e b)"
      then obtain c where c: "c \<in> set (sweep x e b)" "a div 2 = c div 2" by auto
      then have "even c" using sweep_range bev by auto
      with c a(1) have "c = a" by presburger
      with c a(4) show False by simp
    qed
    then have "D1 (a div 2) = (?D D) (a div 2)" using realize_loop_unchanged [OF r] by blast
    also have "\<dots> = invalid_entry"
    proof (cases "a = e")
      case True
      have "D (e div 2) = invalid_entry" using gen by simp
      then show ?thesis using True by (simp add: invalid_entry_def)
    next
      case False
      with a ev have "a div 2 \<noteq> e div 2" "a < e" unfolding e_def by presburger+
      then show ?thesis using gen a by auto
    qed
    finally show ?thesis using s1 by simp
  qed
qed

lemma fresh_entry_defined: "\<exists>d. decode_entry u s dst i = Some d"
proof -
  obtain bw where "threaded_rewrite (u dst) s (computed_index_for i) (of_nat dst) i = Some bw"
    using rewrite_defined [of "computed_index_for i" "u dst" s "of_nat dst" i] never_computed by blast
  then show ?thesis by (cases bw) (simp add: decode_entry_def)
qed

lemma generate_loop_defined: "\<exists>D1. generate_loop u s x e dst full D = Some D1"
proof (induction u s x e dst full D rule: generate_loop.induct)
  case (1 u s x e dst full D)
  obtain d where d: "decode_entry u s dst (read_instruction x dst e) = Some d" using fresh_entry_defined by blast
  show ?case
  proof (cases "dst < e")
    case True
    then show ?thesis using d 1(1) [OF True refl _ d] 1(2) [OF True refl] by (subst generate_loop.simps) (auto simp: Let_def fun_upd_def)
  qed (subst generate_loop.simps, simp)
qed

lemma block_loop_defined:
  assumes "pc < last_pc" "last_pc + 4 \<le> 2 ^ 64" "even pc" "even last_pc"
  shows "\<exists>r. block_loop x last_pc block_pc pc D = Some r"
  using assms
proof (induction x last_pc block_pc pc D rule: block_loop.induct)
  case (1 x last_pc block_pc pc D)
  have "\<not> pc + length_at x pc \<ge> 2 ^ 64" using 1(2-5) length_at_cases [of x pc] by presburger
  moreover have "\<not> ends_block (half_at x pc) \<and> pc + length_at x pc < last_pc \<and> (pc + length_at x pc - block_pc) div 2 < 255 \<longrightarrow>
      (\<exists>r. block_loop x last_pc block_pc (pc + length_at x pc) D = Some r)"
    using 1(1) [OF refl refl refl refl] 1(3-5) calculation by auto
  ultimately have "block_loop x last_pc block_pc pc D \<noteq> None"
    by (subst block_loop.simps, cases "pc + length_at x pc < last_pc") (auto simp: Let_def not_le split: option.split)
  then show ?case by blast
qed

lemma realize_loop_defined:
  assumes "last_pc + 4 \<le> 2 ^ 64" "even pc" "even last_pc"
  shows "\<exists>D1. realize_loop x last_pc pc D = Some D1"
  using assms
proof (induction x last_pc pc D rule: realize_loop.induct)
  case (1 x last_pc pc D)
  show ?case
  proof (cases "pc < last_pc")
    case True
    then obtain items pc2 D2 where b: "block_loop x last_pc pc pc D = Some (items, pc2, D2)"
      using block_loop_defined [of pc last_pc x pc D] 1(2-4) by (metis prod_cases3)
    obtain as d where as: "is_block x last_pc pc pc as pc2" "items = map (\<lambda>a. (a div 2, length_at x a div 2)) as"
      using block_loop_shape [OF b True] by auto
    have blk: "as \<noteq> []" "pc2 = last as + length_at x (last as)" "sweep x last_pc pc = as @ sweep x last_pc pc2"
        "(last as - pc) div 2 < 255"
      using as(1) by (auto simp: is_block_def)
    have la: "pc \<le> last as" "even (last as)" using blk(1,3) 1(3) sweep_range [of "last as" x last_pc pc] by auto
    have "snd (last items) = length_at x (last as) div 2" using as(2) blk(1) by (simp add: last_map)
    then have "(pc2 - pc) div 2 - snd (last items) = (last as - pc) div 2"
      using blk(2) la length_at_cases [of x "last as"] by auto
    then obtain D3 where f: "fill_entries items pc pc2 D2 = Some D3" using blk(4) by (simp add: fill_entries_def)
    have "even pc2" using blk(2) la by simp
    from 1(1) [OF True b refl refl f 1(2) this 1(4)] show ?thesis using True b f by (subst realize_loop.simps) simp
  qed (subst realize_loop.simps, simp)
qed

lemma generate_decoder_cache_defined:
  assumes "even (unat (m_vaddr_begin s))" "even (unat (m_vaddr_end s))" "m_vaddr_begin s < m_vaddr_end s"
    and "unat (m_vaddr_end s) + 4 \<le> 2 ^ 64"
  shows "\<exists>s1. generate_decoder_cache u x s = Some s1"
proof -
  define b e where "b = unat (m_vaddr_begin s)" and "e = unat (m_vaddr_end s)"
  have be: "b < e" "even b" "even e" "e + 4 \<le> 2 ^ 64" using assms by (simp_all add: b_def e_def word_less_nat_alt)
  then have last: "b + 2 * ((e - b + 1) div 2) = e" by presburger
  obtain D where D: "generate_loop u s x e b True (\<lambda>_. invalid_entry) = Some D" using generate_loop_defined by blast
  obtain D1 where "realize_loop x e b (D(e div 2 := (D (e div 2))\<lparr>dd_bytecode := RV32I_BC_INVALID, dd_idxend := 0\<rparr>)) = Some D1"
    using realize_loop_defined [of e b] be by blast
  with D be last show ?thesis
    by (simp add: generate_decoder_cache_def realize_fastsim_def flip: b_def e_def)
qed

section \<open>The contract of the decoder cache\<close>

text \<open>
  What the dispatcher relies on: the operation that generates the cache keeps the bounds of the segment, gives the entry of each instruction of
  the linear sweep what \<open>entry_law\<close> says, and makes every other entry up to the one after the segment invalid.
\<close>

locale decoder_contract =
  fixes gen :: "(nat \<Rightarrow> 32 word) \<Rightarrow> (nat \<Rightarrow> 8 word) \<Rightarrow> Segment \<Rightarrow> Segment option"
  assumes gen_bounds: "gen u x s = Some s1 \<Longrightarrow> even (unat (m_vaddr_end s)) \<Longrightarrow>
      m_vaddr_begin s1 = m_vaddr_begin s \<and> m_vaddr_end s1 = m_vaddr_end s \<and>
      even (unat (m_vaddr_begin s)) \<and> unat (m_vaddr_begin s) < unat (m_vaddr_end s)"
    and gen_entry: "gen u x s = Some s1 \<Longrightarrow> even (unat (m_vaddr_end s)) \<Longrightarrow>
      a \<in> set (sweep x (unat (m_vaddr_end s)) (unat (m_vaddr_begin s))) \<Longrightarrow> entry_law u s x (unat (m_vaddr_end s)) (seg_decoder s1) a"
    and gen_gap: "gen u x s = Some s1 \<Longrightarrow> even (unat (m_vaddr_end s)) \<Longrightarrow> even a \<Longrightarrow> unat (m_vaddr_begin s) \<le> a \<Longrightarrow> a \<le> unat (m_vaddr_end s) \<Longrightarrow>
      a \<notin> set (sweep x (unat (m_vaddr_end s)) (unat (m_vaddr_begin s))) \<Longrightarrow> seg_decoder s1 (a div 2) = invalid_entry"

interpretation decoder: decoder_contract generate_decoder_cache
proof
  show "generate_decoder_cache u x s = Some s1 \<Longrightarrow> even (unat (m_vaddr_end s)) \<Longrightarrow>
      m_vaddr_begin s1 = m_vaddr_begin s \<and> m_vaddr_end s1 = m_vaddr_end s \<and>
      even (unat (m_vaddr_begin s)) \<and> unat (m_vaddr_begin s) < unat (m_vaddr_end s)" for u x s s1
    using generated_cache(1-4) by simp
qed (rule generated_cache; assumption)+

end
