(* ===== verification/Dispatch_Sync.thy ===== *)
theory Dispatch_Sync
  imports Dispatch_Flow Cache_Laws
begin

text \<open>
  The dispatcher on a cache that keeps the contract of \<open>Cache_Laws\<close>: its decoder index and program counter stay in step and inside of the cache,
  each step is a step of the precise simulator, and the instruction counter bounds the number of steps.
\<close>

unbundle bit_operations_syntax

section \<open>Index and program counter\<close>

definition in_sync :: "Segment \<Rightarrow> 'w Sim \<Rightarrow> bool" where
  "in_sync s st \<longleftrightarrow>
    unat (m_vaddr_begin s) \<le> 2 * unat (sim_decoder st) \<and> 2 * unat (sim_decoder st) \<le> unat (m_vaddr_end s) \<and>
    unat (sim_pc st) div 2 = unat (sim_decoder st) + dd_idxend (entry_at s (sim_decoder st))"

lemma displacement:
  fixes len :: "64 word"
  assumes a: "a < 2 ^ 63" and t: "t < 2 ^ 63" and w: "of_nat a + len = of_nat t"
  shows "sint len = int t - int a"
proof -
  have "len = of_nat t - of_nat a" using w by (metis add_diff_cancel_left')
  then have "len = word_of_int (int t - int a)" by (simp only: of_int_diff of_int_of_nat_eq)
  then have "sint len = signed_take_bit 63 (int t - int a)" by (simp only: signed_of_int) simp
  also have "\<dots> = int t - int a" using a t by (intro signed_take_bit_int_eq_self) auto
  finally show ?thesis .
qed

lemma half_displacement:
  fixes idx len :: "64 word"
  assumes a: "2 * unat idx < 2 ^ 63" and t: "t < 2 ^ 63" "even t" and w: "of_nat (2 * unat idx) + len = of_nat t"
  shows "unat (idx + signed_drop_bit 1 len) = t div 2"
proof -
  have "sint len = int t - int (2 * unat idx)" by (rule displacement [OF a t(1) w])
  moreover have "int t = 2 * int (t div 2)" using t(2) by auto
  ultimately have "sint (signed_drop_bit 1 len) = int (t div 2) - int (unat idx)"
    by (simp add: sint_signed_drop_bit_eq drop_bit_eq_div)
  moreover have "word_of_int (sint (signed_drop_bit 1 len)) = signed_drop_bit 1 len" by simp
  ultimately have "signed_drop_bit 1 len = word_of_int (int (t div 2) - int (unat idx))" by (simp only:)
  then have "idx + signed_drop_bit 1 len = of_nat (t div 2)" by simp
  then show ?thesis using t(1) by (simp add: unat_of_nat take_bit_nat_eq_self)
qed

lemma moved_pc:
  fixes pc len :: "64 word"
  assumes p: "unat pc div 2 = k" and t: "t < 2 ^ 63" "even t" and w: "of_nat (2 * k) + len = of_nat t"
  shows "unat (pc + len) div 2 = t div 2" "even (unat (pc + len)) = even (unat pc)"
proof -
  define r where "r = unat pc mod 2"
  have r: "r < 2" "unat pc = 2 * k + r" using p by (auto simp: r_def)
  have "pc = of_nat (unat pc)" by simp
  also have "\<dots> = of_nat (2 * k) + of_nat r" unfolding r(2) by (rule of_nat_add)
  finally have "pc + len = of_nat (2 * k) + len + of_nat r" by (simp only: ac_simps)
  also have "\<dots> = of_nat (t + r)" unfolding w by simp
  finally have "unat (pc + len) = t + r" using t(1) r(1) by (simp only: unat_of_nat) (simp add: take_bit_nat_eq_self)
  then show "unat (pc + len) div 2 = t div 2" "even (unat (pc + len)) = even (unat pc)" using t(2) r by auto
qed

lemma within_bounds:
  fixes p b e :: "64 word"
  assumes "p - b < e - b" "b < e"
  shows "b \<le> p \<and> p < e"
proof -
  have d: "unat (e - b) = unat e - unat b" using assms(2) by (simp add: unat_sub order_less_imp_le)
  have bp: "b \<le> p"
  proof (rule ccontr)
    assume "\<not> b \<le> p"
    then have "unat p < unat b" by (simp add: word_le_nat_alt)
    moreover have "unat (p - b) = unat p + 2 ^ 64 - unat b"
      using calculation by (simp add: unat_sub_if')
    moreover have "unat e < 2 ^ 64" using unsigned_less [of e, where 'a = nat] by simp
    ultimately show False using assms(1) d by (simp add: word_less_nat_alt)
  qed
  then have "unat (p - b) = unat p - unat b" by (simp add: unat_sub)
  with assms d bp show ?thesis by (simp add: word_less_nat_alt word_le_nat_alt)
qed

lemma unat_plus_nat: "unat w + n < 2 ^ 64 \<Longrightarrow> unat (w + of_nat n :: 64 word) = unat w + n"
proof -
  assume "unat w + n < 2 ^ 64"
  moreover have "w + of_nat n = of_nat (unat w + n)" by simp
  ultimately show ?thesis by (simp only: unat_of_nat) (simp add: take_bit_nat_eq_self)
qed

lemma even_unat_iff: "even (unat w) \<longleftrightarrow> even (w :: 64 word)"
proof -
  have "bit (unat w) 0 \<longleftrightarrow> bit w 0" by (simp add: bit_unsigned_iff)
  then show ?thesis by (simp add: bit_0)
qed

lemma system_bytecodes:
  assumes r: "threaded_rewrite u s (computed_index_for i) a i = Some bw" and b: "fst bw \<in> {RV32I_BC_SYSTEM, RV32I_BC_SYSCALL, RV32I_BC_STOP}"
  shows "is_long i \<and> ends_block i \<and> opcode i = RV32I_SYSTEM"
proof -
  have c: "computed_index_for i = fst bw"
    using r b by (cases "computed_index_for i") (auto simp: rewrite_table rewrite_c_table rewrite_branch_def rewrite_jal_def rewrite_c_branch_def
      rewrite_c_jmp_def Let_def rewrite_rest_table split: if_splits)
  have short: "computed_c0 i \<noteq> z" "computed_c1 i \<noteq> z" "computed_c2 i \<noteq> z"
      if "z \<in> {RV32I_BC_SYSTEM, RV32I_BC_SYSCALL, RV32I_BC_STOP}" for z
    using that unfolding computed_c0_def computed_c1_def computed_c2_def computed_c1_alu_def Let_def
    by (elim insertE emptyE; hypsubst; intro if_neq bytecode.distinct)+
  have long: "computed_long i \<noteq> z" if "z \<in> {RV32I_BC_SYSTEM, RV32I_BC_SYSCALL, RV32I_BC_STOP}" "opcode i \<noteq> RV32I_SYSTEM" for z
    using that(1) unfolding computed_long_def computed_load_def computed_store_def computed_branch_def computed_op_imm_def computed_op_def
      computed_op32_def computed_op_imm32_def computed_fpfunc_def Let_def if_not_P [OF that(2)]
    by (elim insertE emptyE; hypsubst; intro if_neq bytecode.distinct)
  have "is_long i" using c short [OF b] by (auto simp: computed_index_for_def instr_length_def split: if_splits)
  moreover from this have "opcode i = RV32I_SYSTEM" using c long [OF b] by (auto simp: computed_index_for_def)
  ultimately show ?thesis by (simp add: ends_block_def)
qed

lemma in_sync_update [simp]:
  "in_sync s (st\<lparr>sim_cpu := c\<rparr>) = in_sync s st" "in_sync s (retrieve_counters c st) = in_sync s st"
  "sim_pc (retrieve_counters c st) = sim_pc st" "sim_decoder (retrieve_counters c st) = sim_decoder st"
  by (simp_all add: in_sync_def retrieve_counters_def)

lemma rewrite_not_funcblock:
  assumes "threaded_rewrite u s (computed_index_for i) a i = Some bw"
  shows "fst bw \<noteq> RV32I_BC_FUNCBLOCK"
proof -
  have "computed_index_for i \<noteq> RV32I_BC_FUNCBLOCK"
    unfolding computed_index_for_def computed_long_def computed_load_def computed_store_def computed_branch_def computed_op_imm_def computed_op_def
      computed_op32_def computed_op_imm32_def computed_fpfunc_def computed_system_def computed_c0_def computed_c1_def computed_c2_def
      computed_c1_alu_def Let_def
    by (intro if_neq bytecode.distinct)
  then show ?thesis
    using assms by (cases "computed_index_for i") (auto simp: rewrite_table rewrite_c_table rewrite_branch_def rewrite_jal_def rewrite_c_branch_def
      rewrite_c_jmp_def Let_def rewrite_rest_table split: if_splits)
qed

lemma entry_law_cases:
  assumes "entry_law u s x e D a"
  obtains (invalid) "dd_bytecode (D (a div 2)) = RV32I_BC_INVALID"
    | (cut) "dd_bytecode (D (a div 2)) = RV32I_BC_FUNCBLOCK" "dd_instr (D (a div 2)) = read_instruction x a e" "a + length_at x a < e"
        "dd_idxend (D (a div 2)) = 0"
    | (rewritten) "threaded_rewrite (u a) s (computed_index_for (read_instruction x a e)) (of_nat a) (read_instruction x a e) =
          Some (dd_bytecode (D (a div 2)), dd_instr (D (a div 2)))"
        "dd_bytecode (D (a div 2)) \<noteq> RV32I_BC_INVALID" "dd_bytecode (D (a div 2)) \<noteq> RV32I_BC_FUNCBLOCK"
        "ends_block (read_instruction x a e) \<longrightarrow> a + length_at x a \<le> e \<and> dd_idxend (D (a div 2)) = 0 \<and> dd_icount (D (a div 2)) = 1"
proof (cases "dd_bytecode (D (a div 2)) = RV32I_BC_INVALID")
  case False
  consider "dd_bytecode (D (a div 2)) = RV32I_BC_FUNCBLOCK" "dd_instr (D (a div 2)) = read_instruction x a e" "a + length_at x a < e"
        "dd_idxend (D (a div 2)) = 0"
    | "threaded_rewrite (u a) s (computed_index_for (read_instruction x a e)) (of_nat a) (read_instruction x a e) =
          Some (dd_bytecode (D (a div 2)), dd_instr (D (a div 2)))"
      "ends_block (read_instruction x a e) \<longrightarrow> a + length_at x a \<le> e \<and> dd_idxend (D (a div 2)) = 0 \<and> dd_icount (D (a div 2)) = 1"
    using assms False unfolding entry_law_def ends_here_def Let_def by (elim disjE conjE) auto
  then show ?thesis
  proof cases
    case 2
    then show ?thesis using rewritten [OF 2(1) False _ 2(2)] rewrite_not_funcblock [OF 2(1)] by simp
  qed (rule cut)
qed (rule invalid)

text \<open>
  The two ways in which the dispatcher goes on: to the entry of the next instruction, \<open>n\<close> halfwords further in the same block, or to the start of a
  block, further on or with the instruction counter below its limit.
\<close>

definition steps_on :: "Segment \<Rightarrow> Segment \<Rightarrow> (nat \<Rightarrow> 8 word) \<Rightarrow> nat \<Rightarrow> 'w Sim \<Rightarrow> 'w Sim \<Rightarrow> bool" where
  "steps_on s s1 x n st st1 \<longleftrightarrow>
    (let a = 2 * unat (sim_decoder st) in
     st1 = st\<lparr>sim_decoder := sim_decoder st + of_nat n\<rparr> \<and> 2 * n = length_at x a \<and> a + 2 * n < unat (m_vaddr_end s) \<and>
     dd_idxend (seg_decoder s1 (a div 2)) = n + dd_idxend (seg_decoder s1 ((a + 2 * n) div 2)))"

definition enters :: "Segment \<Rightarrow> nat \<Rightarrow> 'w Sim \<Rightarrow> 'w Sim \<Rightarrow> bool" where
  "enters s k st st2 \<longleftrightarrow>
    unat (m_vaddr_begin s) \<le> 2 * unat (sim_decoder st2) \<and> 2 * unat (sim_decoder st2) \<le> unat (m_vaddr_end s) \<and>
    unat (sim_pc st2) div 2 = unat (sim_decoder st2) \<and> sim_counter st2 = sim_counter st \<and> sim_max st2 = sim_max st \<and> sim_cpu st2 = sim_cpu st \<and>
    (k < unat (sim_decoder st2) \<or> \<not> overflowed st)"

lemma overflowed_update [simp]:
  "overflowed (st\<lparr>sim_pc := p\<rparr>) = overflowed st" "overflowed (st\<lparr>sim_decoder := k\<rparr>) = overflowed st" "overflowed (st\<lparr>sim_cpu := c\<rparr>) = overflowed st"
  by (simp_all add: overflowed_def)

lemma next_entry_index:
  assumes n: "steps_on s s1 x n st st1"
  shows "unat (sim_decoder st1) = unat (sim_decoder st) + n" "sim_pc st1 = sim_pc st" "sim_counter st1 = sim_counter st" "sim_max st1 = sim_max st"
    and "0 < n" "2 * unat (sim_decoder st1) < unat (m_vaddr_end s)"
    and "dd_idxend (entry_at s1 (sim_decoder st)) = n + dd_idxend (entry_at s1 (sim_decoder st1))"
proof -
  let ?a = "2 * unat (sim_decoder st)"
  from n have st1: "st1 = st\<lparr>sim_decoder := sim_decoder st + of_nat n\<rparr>" and l: "2 * n = length_at x ?a" and lt: "?a + 2 * n < unat (m_vaddr_end s)"
    and d: "dd_idxend (seg_decoder s1 (?a div 2)) = n + dd_idxend (seg_decoder s1 ((?a + 2 * n) div 2))"
    unfolding steps_on_def Let_def by blast+
  have "unat (m_vaddr_end s) < 2 ^ 64" using unsigned_less [of "m_vaddr_end s", where 'a = nat] by simp
  with lt have "unat (sim_decoder st) + n < 2 ^ 64" by linarith
  then have "unat (sim_decoder st + of_nat n) = unat (sim_decoder st) + n" by (rule unat_plus_nat)
  then show k: "unat (sim_decoder st1) = unat (sim_decoder st) + n" and "sim_pc st1 = sim_pc st" "sim_counter st1 = sim_counter st" "sim_max st1 = sim_max st"
    unfolding st1 by simp_all
  show "0 < n" using l length_at_cases [of x ?a] by auto
  show "2 * unat (sim_decoder st1) < unat (m_vaddr_end s)" using lt k by simp
  have "(?a + 2 * n) div 2 = unat (sim_decoder st1)" using k by simp
  then show "dd_idxend (entry_at s1 (sim_decoder st)) = n + dd_idxend (entry_at s1 (sim_decoder st1))"
    using d unfolding entry_at_def by simp
qed

text \<open>A call of the host that a block ends with, and the machine that it leaves.\<close>

definition host_call :: "'w Env \<Rightarrow> 'w Sim \<Rightarrow> 'w CPU \<Rightarrow> bool" where
  "host_call E st c \<longleftrightarrow>
    (\<exists>w. SYSTEM E w (expose st) = (Inr (), c)) \<or> system_call E (reg (expose st) REG_ECALL) (expose st) = (Inr (), c)"

text \<open>
  The instruction counter, which counts to the end of the current block, against a limit \<open>L\<close>, and a bound on the steps until the dispatcher leaves its loop.
\<close>

definition within_limit :: "nat \<Rightarrow> Segment \<Rightarrow> 'w Sim \<Rightarrow> bool" where
  "within_limit L s st \<longleftrightarrow>
    unat (sim_max st) \<le> L \<and> unat (sim_counter st) \<le> L + unat (sim_decoder st) + dd_idxend (entry_at s (sim_decoder st)) + 1"

definition budget :: "Segment \<Rightarrow> 'w Sim \<Rightarrow> nat" where
  "budget s st =
    (if dd_bytecode (entry_at s (sim_decoder st)) = RV32I_BC_INVALID then 0
     else Suc ((unat (sim_max st) - unat (sim_counter st)) * Suc (unat (m_vaddr_end s) div 2) + (unat (m_vaddr_end s) div 2 - unat (sim_decoder st))))"

text \<open>The host neither takes back executed instructions nor raises the limit during a call.\<close>

definition counters_monotone :: "'w Env \<Rightarrow> bool" where
  "counters_monotone E \<longleftrightarrow> (\<forall>st c. host_call E st c \<longrightarrow> sim_counter st \<le> cpu_counter c \<and> cpu_max_counter c \<le> sim_max st)"

lemma lex_less:
  fixes A B i j K :: nat
  assumes "A < B \<and> j \<le> K \<or> A \<le> B \<and> j < i"
  shows "A * Suc K + j < B * Suc K + i"
  using assms
proof (elim disjE conjE)
  assume "A < B" "j \<le> K"
  then have "Suc A * Suc K \<le> B * Suc K" by (intro mult_le_mono1) simp
  then show ?thesis using \<open>j \<le> K\<close> by simp
next
  assume "A \<le> B" "j < i"
  then have "A * Suc K \<le> B * Suc K" by (intro mult_le_mono1)
  then show ?thesis using \<open>j < i\<close> by linarith
qed

section \<open>What the guest sees\<close>

text \<open>
  The machine that a state of the dispatcher stands for, the machine that the outcome of a step leaves (an exception keeps the address of the
  instruction), and machines up to the instruction counters, which the dispatcher keeps in locals.
\<close>

definition guest :: "'w Sim \<Rightarrow> 'w CPU" where
  "guest st = at_pc (of_nat (2 * unat (sim_decoder st))) (sim_cpu st)"

definition forget_counters :: "(unit, 'w CPU) thrown \<Rightarrow> (unit, 'w CPU) thrown" where
  "forget_counters r = (fst r, (snd r)\<lparr>cpu_counter := 0, cpu_max_counter := 0\<rparr>)"

fun observed :: "64 word \<Rightarrow> 'w outcome \<Rightarrow> (unit, 'w CPU) thrown" where
  "observed a (Running st) = (Inr (), guest st)"
| "observed a (New_segment st) = (Inr (), at_pc (sim_pc st) (sim_cpu st))"
| "observed a (Returned _ c) = (Inr (), c)"
| "observed a (Raised e c) = (Inl e, at_pc a c)"

text \<open>The states in which the dispatcher and the precise simulator are comparable: no call of the host and none of the known differences.\<close>

definition comparable :: "'w Env \<Rightarrow> Segment \<Rightarrow> (nat \<Rightarrow> 8 word) \<Rightarrow> 'w Sim \<Rightarrow> bool" where
  "comparable E s x st \<longleftrightarrow>
    (let a = 2 * unat (sim_decoder st); i = read_instruction x a (unat (m_vaddr_end s)); bc = dd_bytecode (entry_at s (sim_decoder st)) in
     bc \<noteq> RV32I_BC_INVALID \<and> bc \<noteq> RV32I_BC_FUNCBLOCK \<and> \<not> host_instr (env_custom_count E) i \<and> \<not> rem_diverges i (sim_cpu st) \<and>
     \<not> clobbers_zero i \<and> \<not> odd_target (of_nat a) i (sim_cpu st) \<and> reg (sim_cpu st) 0 = 0 \<and> even (unat (sim_pc st)))"

text \<open>A handler reads nothing of its decoder entry but the instruction and the distance to the end of the block.\<close>

lemmas control_defs =
  rv32i_fast_jal_def rv32i_fast_call_def rv32c_bnez_def rv32c_beqz_def rv32c_jmp_def rv32c_jr_def rv32c_jalr_def rv32i_jal_def rv32i_jalr_def
  rv32i_beq_def rv32i_bne_def rv32i_blt_def rv32i_bge_def rv32i_bltu_def rv32i_bgeu_def rv32i_beq_fw_def rv32i_bne_fw_def
  branch_instr_def forward_branch_instr_def execute_function_block_def

lemma handler_entry:
  assumes "bytecode_impl FB bc = Some h" "dd_instr d = dd_instr d1" "dd_idxend d = dd_idxend d1"
  shows "h E pc d c = h E pc d1 c"
  using assms
  by (cases bc) (auto simp: impl_table impl_float_table impl_dispatched straight_defs control_defs block_bytes_def)

lemma check_jump_leaves:
  assumes "\<nexists>st1. check_jump s st = Running st1"
  shows "forget_counters (observed a (check_jump s st)) = forget_counters (Inr (), at_pc (sim_pc st) (sim_cpu st))"
  using assms by (auto simp: check_jump_def continue_segment_def counter_overflow_def forget_counters_def at_pc_def)

lemma follow_leaves:
  assumes n: "\<nexists>st1. follow s fl st = Running st1"
  shows "forget_counters (observed a (follow s fl st)) = forget_counters (Inr (), at_pc (flow_target b (sim_pc st) fl) (sim_cpu st))"
proof -
  have "\<exists>st2. follow s fl st = check_jump s st2 \<and> sim_pc st2 = flow_target b (sim_pc st) fl \<and> sim_cpu st2 = sim_cpu st"
  proof (cases fl)
    case (NEXT_BLOCK len f)
    let ?st = "st\<lparr>sim_pc := sim_pc st + len, sim_decoder := sim_decoder st + signed_drop_bit 1 len\<rparr>"
    have "follow s fl st = check_jump s ?st" using n by (auto simp: NEXT_BLOCK follow_def next_block_def Let_def split: if_splits)
    then show ?thesis using NEXT_BLOCK by (intro exI [of _ ?st]) simp
  next
    case (PERFORM_BRANCH off)
    have "follow s fl st = check_jump s (st\<lparr>sim_pc := sim_pc st + off\<rparr>)"
      using n by (auto simp: PERFORM_BRANCH follow_def perform_branch_def next_block_def Let_def split: if_splits)
    then show ?thesis using PERFORM_BRANCH by (intro exI [of _ "st\<lparr>sim_pc := sim_pc st + off\<rparr>"]) simp
  next
    case (OVERFLOW_CHECKED_JUMP t)
    then show ?thesis by (intro exI [of _ "st\<lparr>sim_pc := t\<rparr>"]) (simp add: follow_def)
  qed (use n in \<open>auto simp: follow_def\<close>)
  then show ?thesis using check_jump_leaves n by metis
qed

section \<open>The invariant of the dispatcher\<close>

context decoder_contract
begin

lemma block_end:
  assumes g: "gen u x s = Some s1" "even (unat (m_vaddr_end s))"
    and a: "a \<in> set (sweep x (unat (m_vaddr_end s)) (unat (m_vaddr_begin s)))"
  shows "a + 2 * dd_idxend (seg_decoder s1 (a div 2)) < unat (m_vaddr_end s)"
  using a
proof (induction "unat (m_vaddr_end s) - a" arbitrary: a rule: less_induct)
  case less
  have e: "a < unat (m_vaddr_end s)" using sweep_range [OF less(2)] by simp
  have "entry_law u s x (unat (m_vaddr_end s)) (seg_decoder s1) a" by (rule gen_entry [OF g less(2)])
  then consider "dd_idxend (seg_decoder s1 (a div 2)) = 0"
    | "a + length_at x a < unat (m_vaddr_end s)"
      "dd_idxend (seg_decoder s1 (a div 2)) = length_at x a div 2 + dd_idxend (seg_decoder s1 ((a + length_at x a) div 2))"
    by (auto simp: entry_law_def Let_def)
  then show ?case
  proof cases
    case 2
    have n: "a + length_at x a \<in> set (sweep x (unat (m_vaddr_end s)) (unat (m_vaddr_begin s)))" by (rule sweep_next [OF less(2) 2(1)])
    have "unat (m_vaddr_end s) - (a + length_at x a) < unat (m_vaddr_end s) - a"
      using e length_at_cases [of x a] by auto
    from less(1) [OF this n] show ?thesis using 2(2) length_at_cases [of x a] by auto
  qed (use e in simp)
qed

lemma icount_bounds:
  assumes g: "gen u x s = Some s1" "even (unat (m_vaddr_end s))"
    and a: "a \<in> set (sweep x (unat (m_vaddr_end s)) (unat (m_vaddr_begin s)))"
  shows "1 \<le> dd_icount (seg_decoder s1 (a div 2)) \<and> dd_icount (seg_decoder s1 (a div 2)) \<le> Suc (dd_idxend (seg_decoder s1 (a div 2)))"
  using a
proof (induction "unat (m_vaddr_end s) - a" arbitrary: a rule: less_induct)
  case less
  have e: "a < unat (m_vaddr_end s)" using sweep_range [OF less(2)] by simp
  have "entry_law u s x (unat (m_vaddr_end s)) (seg_decoder s1) a" by (rule gen_entry [OF g less(2)])
  then consider "dd_icount (seg_decoder s1 (a div 2)) = 1"
    | "a + length_at x a < unat (m_vaddr_end s)"
      "dd_idxend (seg_decoder s1 (a div 2)) = length_at x a div 2 + dd_idxend (seg_decoder s1 ((a + length_at x a) div 2))"
      "dd_icount (seg_decoder s1 (a div 2)) = Suc (dd_icount (seg_decoder s1 ((a + length_at x a) div 2)))"
    by (auto simp: entry_law_def Let_def)
  then show ?case
  proof cases
    case 2
    have n: "a + length_at x a \<in> set (sweep x (unat (m_vaddr_end s)) (unat (m_vaddr_begin s)))" by (rule sweep_next [OF less(2) 2(1)])
    have "unat (m_vaddr_end s) - (a + length_at x a) < unat (m_vaddr_end s) - a" using e length_at_cases [of x a] by auto
    from less(1) [OF this n] show ?thesis using 2(2,3) length_at_cases [of x a] by auto
  qed simp
qed

text \<open>The entry that the index of the dispatcher is at: an instruction of the sweep or an invalid entry.\<close>

lemma entry_cases:
  assumes g: "gen u x s = Some s1" "even (unat (m_vaddr_end s))"
    and i: "unat (m_vaddr_begin s) \<le> 2 * unat idx" "2 * unat idx \<le> unat (m_vaddr_end s)"
  obtains (gap) "entry_at s1 idx = invalid_entry"
  | (instr) "2 * unat idx \<in> set (sweep x (unat (m_vaddr_end s)) (unat (m_vaddr_begin s)))"
      "entry_law u s x (unat (m_vaddr_end s)) (seg_decoder s1) (2 * unat idx)" "entry_at s1 idx = seg_decoder s1 (2 * unat idx div 2)"
  using gen_gap [OF g, of "2 * unat idx"] gen_entry [OF g, of "2 * unat idx"] i by (auto simp: entry_at_def)

lemma begin_block_sync:
  assumes g: "gen u x s = Some s1" "even (unat (m_vaddr_end s))"
    and i: "unat (m_vaddr_begin s) \<le> 2 * unat (sim_decoder st)" "2 * unat (sim_decoder st) \<le> unat (m_vaddr_end s)"
    and p: "unat (sim_pc st) div 2 = unat (sim_decoder st)"
  shows "in_sync s1 (begin_block s1 st)" "even (unat (sim_pc (begin_block s1 st))) = even (unat (sim_pc st))"
proof -
  let ?k = "unat (sim_decoder st)" and ?d = "entry_at s1 (sim_decoder st)"
  have lt: "2 * ?k + 2 * dd_idxend ?d \<le> unat (m_vaddr_end s)"
    using i by (cases rule: entry_cases [OF g i]) (use block_end [OF g, of "2 * unat (sim_decoder st)"] in \<open>auto simp: invalid_entry_def less_imp_le\<close>)
  moreover have "unat (m_vaddr_end s) < 2 ^ 64" using unsigned_less [of "m_vaddr_end s", where 'a = nat] by simp
  moreover have ev: "unat (m_vaddr_end s) \<noteq> 2 ^ 64 - 1" using g(2) by auto
  moreover have pc: "unat (sim_pc st) = 2 * ?k + unat (sim_pc st) mod 2" using p by presburger
  ultimately have "unat (sim_pc st) + 2 * dd_idxend ?d < 2 ^ 64" by auto
  then have "unat (sim_pc st + block_bytes ?d) = unat (sim_pc st) + 2 * dd_idxend ?d"
    unfolding block_bytes_def by (subst mult.commute) (rule unat_plus_nat)
  then show "in_sync s1 (begin_block s1 st)" "even (unat (sim_pc (begin_block s1 st))) = even (unat (sim_pc st))"
    using i p gen_bounds [OF g] pc by (auto simp: in_sync_def begin_block_def Let_def)
qed

lemma check_jump_enters:
  assumes g: "gen u x s = Some s1" "even (unat (m_vaddr_end s))" and r: "check_jump s1 st = Running st1"
  shows "\<exists>st2. st1 = begin_block s1 st2 \<and> enters s k st st2 \<and> sim_pc st2 = sim_pc st"
proof -
  let ?st = "st\<lparr>sim_decoder := drop_bit 1 (sim_pc st)\<rparr>"
  from r have st1: "st1 = begin_block s1 ?st" and b: "sim_pc st - m_vaddr_begin s1 < m_vaddr_end s1 - m_vaddr_begin s1" and o: "\<not> overflowed st"
    by (auto simp: check_jump_def continue_segment_def counter_overflow_def split: if_splits)
  have bounds: "m_vaddr_begin s1 = m_vaddr_begin s" "m_vaddr_end s1 = m_vaddr_end s" "even (unat (m_vaddr_begin s))"
    "unat (m_vaddr_begin s) < unat (m_vaddr_end s)" using gen_bounds [OF g] by auto
  have "m_vaddr_begin s \<le> sim_pc st" "sim_pc st < m_vaddr_end s"
    using within_bounds [of "sim_pc st" "m_vaddr_begin s" "m_vaddr_end s"] b bounds by (auto simp: word_less_nat_alt)
  then have le: "unat (m_vaddr_begin s) \<le> unat (sim_pc st)" "unat (sim_pc st) < unat (m_vaddr_end s)"
    by (simp_all add: word_le_nat_alt word_less_nat_alt)
  have k: "unat (drop_bit 1 (sim_pc st)) = unat (sim_pc st) div 2" by (simp add: drop_bit_Suc unat_div)
  have "unat (m_vaddr_begin s) \<le> 2 * (unat (sim_pc st) div 2)" using le(1) bounds(3) by presburger
  moreover have "2 * (unat (sim_pc st) div 2) \<le> unat (m_vaddr_end s)" using le(2) by auto
  ultimately have "enters s k st ?st" using k o by (simp add: enters_def overflowed_def)
  then show ?thesis using st1 by (intro exI [of _ ?st]) simp
qed

lemma next_block_enters:
  assumes g: "gen u x s = Some s1" "even (unat (m_vaddr_end s))" "unat (m_vaddr_end s) < 2 ^ 63"
    and p: "unat (sim_pc st) div 2 = unat (sim_decoder st)" "2 * unat (sim_decoder st) \<le> unat (m_vaddr_end s)"
    and t: "of_nat (2 * unat (sim_decoder st)) + len = of_nat t" "even t" "unat (m_vaddr_begin s) \<le> t" "t \<le> unat (m_vaddr_end s)"
      "f \<or> 2 * unat (sim_decoder st) < t \<or> \<not> overflowed st"
    and r: "next_block s1 len f st = Running st1"
  shows "\<exists>st2. st1 = begin_block s1 st2 \<and> enters s (unat (sim_decoder st)) st st2 \<and> sim_pc st2 = sim_pc st + len \<and>
    even (unat (sim_pc st2)) = even (unat (sim_pc st)) \<and> 2 * unat (sim_decoder st2) = t"
proof -
  let ?st = "st\<lparr>sim_pc := sim_pc st + len, sim_decoder := sim_decoder st + signed_drop_bit 1 len\<rparr>"
  have lt: "2 * unat (sim_decoder st) < 2 ^ 63" "t < 2 ^ 63" using p(2) t(4) g(3) by simp_all
  have k: "unat (sim_decoder st + signed_drop_bit 1 len) = t div 2" by (rule half_displacement [OF lt t(2,1)])
  note m = moved_pc [OF p(1) lt(2) t(2,1)]
  from r have st1: "st1 = begin_block s1 ?st" "f \<Longrightarrow> \<not> overflowed st"
    by (auto simp: next_block_def check_jump_def counter_overflow_def overflowed_def Let_def split: if_splits)
  have t2: "2 * (t div 2) = t" using t(2) by simp
  have pc: "sim_pc ?st = sim_pc st + len" and dec: "sim_decoder ?st = sim_decoder st + signed_drop_bit 1 len"
    and c: "sim_counter ?st = sim_counter st" "sim_max ?st = sim_max st" "overflowed ?st = overflowed st" "sim_cpu ?st = sim_cpu st" by (simp_all add: overflowed_def)
  have "unat (sim_decoder st) < t div 2 \<or> \<not> overflowed st" using t(2,5) st1(2) by auto
  then have "enters s (unat (sim_decoder st)) st ?st" unfolding enters_def pc dec c k t2 using t(3,4) m(1) by blast
  then show ?thesis using st1 k t2 m(2) by (intro exI [of _ ?st]) (simp only: pc dec)
qed


lemma next_entry_sync:
  assumes g: "gen u x s = Some s1" "even (unat (m_vaddr_end s))" and st: "in_sync s1 st" and n: "steps_on s s1 x n st st1"
  shows "in_sync s1 st1"
  using st next_entry_index [OF n] gen_bounds [OF g] by (auto simp: in_sync_def)

text \<open>A step that goes on either moves to the next entry of its block or enters a block.\<close>

lemma follow_steps:
  assumes g: "gen u x s = Some s1" "even (unat (m_vaddr_end s))" "unat (m_vaddr_end s) < 2 ^ 63" and st: "in_sync s1 st"
    and a: "a = 2 * unat (sim_decoder st)" "a \<in> set (sweep x (unat (m_vaddr_end s)) (unat (m_vaddr_begin s)))"
    and e: "dd_bytecode (seg_decoder s1 (a div 2)) \<noteq> RV32I_BC_INVALID" "dd_bytecode (seg_decoder s1 (a div 2)) \<noteq> RV32I_BC_FUNCBLOCK"
    and fl: "valid_flow s (of_nat a) (read_instruction x a (unat (m_vaddr_end s))) fl"
    and r: "follow s1 fl st = Running st1"
  shows "(\<exists>n. steps_on s s1 x n st st1 \<and> flow_target (of_nat a) (sim_pc st) fl = of_nat (2 * unat (sim_decoder st1)) \<and> sim_pc st1 = sim_pc st) \<or>
    (\<exists>st2. st1 = begin_block s1 st2 \<and> enters s (unat (sim_decoder st)) st st2 \<and>
      dd_idxend (seg_decoder s1 (a div 2)) = 0 \<and> sim_pc st2 = flow_target (of_nat a) (sim_pc st) fl \<and> (even (unat (sim_pc st)) \<longrightarrow> even (unat (sim_pc st2))))"
proof -
  let ?i = "read_instruction x a (unat (m_vaddr_end s))"
  have a2: "a + 2 \<le> unat (m_vaddr_end s)" "even a" "unat (m_vaddr_begin s) \<le> a"
    using sweep_range [OF a(2)] gen_bounds [OF g(1,2)] a(1) g(2) by presburger+
  have len: "instr_length ?i = length_at x a" by (rule read_instruction_low(2) [OF a2(1)])
  note law = gen_entry [OF g(1,2) a(2), unfolded entry_law_def ends_here_def Let_def]
  have ent: "entry_at s1 (sim_decoder st) = seg_decoder s1 (a div 2)" using a(1) by (simp add: entry_at_def)
  have ends: "a + length_at x a \<le> unat (m_vaddr_end s)" "unat (sim_pc st) div 2 = unat (sim_decoder st)" "dd_idxend (seg_decoder s1 (a div 2)) = 0"
    if "ends_block ?i"
    using law that e st by (auto simp: in_sync_def ent)
  have blk: "\<exists>st2. st1 = begin_block s1 st2 \<and> enters s (unat (sim_decoder st)) st st2 \<and> sim_pc st2 = sim_pc st + off \<and>
      even (unat (sim_pc st2)) = even (unat (sim_pc st))"
    if b: "next_block s1 off f st = Running st1" "ends_block ?i"
      "off = of_nat (instr_length ?i) \<or> is_within s (of_nat a + off) 2 \<and> (of_nat a + off) AND 1 = 0 \<and> (f \<or> 0 < sint off \<or> \<not> overflowed st)" for off f
  proof -
    have le: "2 * unat (sim_decoder st) \<le> unat (m_vaddr_end s)" using a(1) a2(1) by simp
    obtain t where "of_nat (2 * unat (sim_decoder st)) + off = of_nat t" "even t" "unat (m_vaddr_begin s) \<le> t" "t \<le> unat (m_vaddr_end s)"
      "f \<or> 2 * unat (sim_decoder st) < t \<or> \<not> overflowed st"
    proof (cases "off = of_nat (instr_length ?i)")
      case True
      then have "of_nat (2 * unat (sim_decoder st)) + off = of_nat (a + length_at x a)" using a(1) len by simp
      then show ?thesis using that [of "a + length_at x a"] ends(1) [OF b(2)] a2 a(1) by simp
    next
      case False
      then have w: "is_within s (of_nat a + off) 2" "(of_nat a + off) AND 1 = 0" "f \<or> 0 < sint off \<or> \<not> overflowed st" using b(3) by auto
      let ?t = "unat (of_nat a + off)"
      have "even (of_nat a + off)" using w(2) by (simp add: and_one_eq mod_2_eq_odd)
      then have t: "even ?t" "unat (m_vaddr_begin s) \<le> ?t" "?t \<le> unat (m_vaddr_end s)" "of_nat (2 * unat (sim_decoder st)) + off = of_nat ?t"
        using w(1) a(1) by (auto simp: even_unat_iff is_within_def word_le_nat_alt)
      moreover have "a < ?t" if "0 < sint off"
      proof -
        have "a < 2 ^ 63" "?t < 2 ^ 63" using t(3) g(3) le a(1) by linarith+
        moreover have "of_nat a + off = of_nat ?t" by simp
        ultimately have "sint off = int ?t - int a" by (rule displacement)
        with that show ?thesis by linarith
      qed
      ultimately show ?thesis using that [of ?t] w(3) a(1) by blast
    qed
    from next_block_enters [OF g ends(2) [OF b(2)] le this b(1)] show ?thesis by blast
  qed
  show ?thesis
  proof (cases fl)
    case NEXT_INSTR
    then have f: "\<not> ends_block ?i" "length_at x a = 4" "st1 = st\<lparr>sim_decoder := sim_decoder st + 2\<rparr>"
      using fl r len by (simp_all add: valid_flow_def follow_def)
    then have n: "steps_on s s1 x 2 st st1" using law e a(1) by (auto simp: steps_on_def Let_def)
    then show ?thesis using next_entry_index [OF n] NEXT_INSTR f a(1) by auto
  next
    case NEXT_C_INSTR
    then have f: "\<not> ends_block ?i" "length_at x a = 2" "st1 = st\<lparr>sim_decoder := sim_decoder st + 1\<rparr>"
      using fl r len by (simp_all add: valid_flow_def follow_def)
    then have n: "steps_on s s1 x 1 st st1" using law e a(1) by (auto simp: steps_on_def Let_def)
    then show ?thesis using next_entry_index [OF n] NEXT_C_INSTR f a(1) by auto
  next
    case (NEXT_BLOCK off f)
    then show ?thesis using blk [of off f] ends(3) fl r by (auto simp: valid_flow_def follow_def)
  next
    case (PERFORM_BRANCH off)
    then have f: "ends_block ?i" "is_within s (of_nat a + off) 2" "(of_nat a + off) AND 1 = 0" using fl by (auto simp: valid_flow_def)
    have o: "\<not> overflowed st" and nb: "next_block s1 off False st = Running st1"
      using r by (auto simp: PERFORM_BRANCH follow_def perform_branch_def check_jump_def overflowed_def counter_overflow_def split: if_splits)
    from blk [OF nb f(1)] ends(3) f o show ?thesis by (auto simp: PERFORM_BRANCH)
  next
    case (OVERFLOW_CHECKED_JUMP t)
    then have "even (unat t)" "ends_block ?i" using fl by (simp_all add: valid_flow_def and_one_eq mod_2_eq_odd even_unat_iff)
    then show ?thesis
      using check_jump_enters [OF g(1,2), of "st\<lparr>sim_pc := t\<rparr>" st1 "unat (sim_decoder st)"] r OVERFLOW_CHECKED_JUMP ends(3)
      by (auto simp: follow_def enters_def)
  qed
qed

lemma dispatch_steps:
  assumes g: "gen u x s = Some s1" "even (unat (m_vaddr_end s))" "unat (m_vaddr_end s) < 2 ^ 63" and st: "in_sync s1 st"
    and r: "dispatch FB E s1 st = Running st1"
  shows "dd_bytecode (entry_at s1 (sim_decoder st)) \<noteq> RV32I_BC_INVALID \<and>
    ((\<exists>c n. steps_on s s1 x n (st\<lparr>sim_cpu := c\<rparr>) st1) \<or>
     (\<exists>st0 st2. st1 = begin_block s1 st2 \<and> enters s (unat (sim_decoder st)) st0 st2 \<and> dd_idxend (entry_at s1 (sim_decoder st)) = 0 \<and>
       (sim_counter st0 = sim_counter st \<and> sim_max st0 = sim_max st \<or>
        (\<exists>c. host_call E st c \<and> st0 = retrieve_counters c st \<and> \<not> overflowed st0))))"
proof -
  let ?a = "2 * unat (sim_decoder st)" and ?d = "entry_at s1 (sim_decoder st)"
  have i: "unat (m_vaddr_begin s) \<le> ?a" "?a \<le> unat (m_vaddr_end s)" using st gen_bounds [OF g(1,2)] by (auto simp: in_sync_def)
  have nr: "execute_invalid E w st \<noteq> Running st1" for w
    by (auto simp: execute_invalid_def Let_def split: prod.split sum.split)
  have inv: "dd_bytecode ?d \<noteq> RV32I_BC_INVALID" using r nr by (auto simp: dispatch_def Let_def impl_dispatched)
  show ?thesis
  proof (cases rule: entry_cases [OF g(1,2) i])
    case 1
    then show ?thesis using inv by (simp add: invalid_entry_def)
  next
    case 2
    let ?i = "read_instruction x ?a (unat (m_vaddr_end s))"
    have a2: "?a + 2 \<le> unat (m_vaddr_end s)" using sweep_range [OF 2(1)] g(2) by presburger
    have len: "instr_length ?i = length_at x ?a" by (rule read_instruction_low(2) [OF a2])
    have d: "?d = seg_decoder s1 (?a div 2)" by (rule 2(3))
    have block: "\<exists>st2. st1 = begin_block s1 st2 \<and> enters s (unat (sim_decoder st)) st0 st2"
      if b: "next_block s1 (of_nat (instr_length ?i)) f st0 = Running st1" "?a + length_at x ?a \<le> unat (m_vaddr_end s)" "dd_idxend ?d = 0"
        "sim_pc st0 = sim_pc st" "sim_decoder st0 = sim_decoder st" for f st0
    proof -
      have "unat (sim_pc st0) div 2 = unat (sim_decoder st0)" using st b by (simp add: in_sync_def)
      moreover have "2 * unat (sim_decoder st0) \<le> unat (m_vaddr_end s)" using i b by simp
      moreover have "of_nat (2 * unat (sim_decoder st0)) + of_nat (instr_length ?i) = of_nat (?a + length_at x ?a)" unfolding b(5) len by simp
      ultimately show ?thesis using next_block_enters [OF g _ _ _ _ _ b(2) _ b(1)] i b(5) by fastforce
    qed
    show ?thesis
      using 2(2)
    proof (cases rule: entry_law_cases)
      case invalid
      then show ?thesis using inv d by simp
    next
      case cut
      obtain c1 where "next_block s1 (of_nat (instr_length ?i)) True (st\<lparr>sim_cpu := c1\<rparr>) = Running st1"
        using r cut d by (auto simp: dispatch_def follow_def impl_table execute_function_block_def then_go_def split: prod.splits sum.splits)
      from block [OF this] cut d inv show ?thesis by fastforce
    next
      case rewritten
      note rw = rewritten [folded d]
      show ?thesis
      proof (cases "dd_bytecode ?d \<in> {RV32I_BC_SYSTEM, RV32I_BC_SYSCALL, RV32I_BC_STOP}")
        case True
        then have e: "is_long ?i" "ends_block ?i" using system_bytecodes [OF rw(1)] by auto
        then have "instr_length ?i = 4" by simp
        then have b4: "\<exists>st2. st1 = begin_block s1 st2 \<and> enters s (unat (sim_decoder st)) (retrieve_counters c st) st2"
          if "next_block s1 4 f (retrieve_counters c st) = Running st1" for f c
          using block [of f "retrieve_counters c st"] rw(4) e(2) that by simp
        obtain c where c: "host_call E st c"
          "(\<exists>pc. check_jump s1 (retrieve_counters c st\<lparr>sim_pc := pc\<rparr>) = Running st1) \<or>
           (\<not> overflowed (retrieve_counters c st) \<and> (\<exists>f. next_block s1 4 f (retrieve_counters c st) = Running st1))"
          using True r by (auto simp: dispatch_def rv32i_system_def rv32i_syscall_def rv32i_stop_def host_call_def Let_def
            split: prod.splits sum.splits if_splits)
        have o: "\<not> overflowed (retrieve_counters c st)" using c(2)
          by (auto simp: check_jump_def counter_overflow_def overflowed_def split: if_splits)
        have "\<exists>st2. st1 = begin_block s1 st2 \<and> enters s (unat (sim_decoder st)) (retrieve_counters c st) st2"
          using c(2)
        proof
          assume "\<exists>pc. check_jump s1 (retrieve_counters c st\<lparr>sim_pc := pc\<rparr>) = Running st1"
          then obtain pc where "check_jump s1 (retrieve_counters c st\<lparr>sim_pc := pc\<rparr>) = Running st1" by blast
          from check_jump_enters [OF g(1,2) this, of "unat (sim_decoder st)"] show ?thesis
            by (auto simp: enters_def overflowed_def)
        qed (use b4 in blast)
        then show ?thesis using inv c(1) o rw(4) e(2) by blast
      next
        case False
        then obtain h fl c1 where h: "bytecode_impl FB (dd_bytecode ?d) = Some h" "h E (sim_pc st) ?d (sim_cpu st) = (Inr fl, c1)"
          and f: "follow s1 fl (st\<lparr>sim_cpu := c1\<rparr>) = Running st1"
          using r nr by (auto simp: dispatch_def Let_def split: option.splits prod.splits sum.splits)
        have v: "valid_flow s (of_nat ?a) ?i fl"
          by (rule bytecode_flow_valid [OF rw(1), where h = h and d = ?d and E = E and FB = FB and c = "sim_cpu st" and pc = "sim_pc st"])
            (simp_all add: h)
        let ?st = "st\<lparr>sim_cpu := c1\<rparr>"
        have dec: "sim_decoder ?st = sim_decoder st" by simp
        consider n where "steps_on s s1 x n ?st st1"
          | st2 where "st1 = begin_block s1 st2" "enters s (unat (sim_decoder st)) ?st st2" "dd_idxend ?d = 0"
          using follow_steps [OF g, of ?st ?a fl st1, unfolded dec] st 2(1) rw(2,3) v f unfolding d by auto
        then show ?thesis
        proof cases
          case 2
          then show ?thesis using inv by fastforce
        qed (use inv in blast)
      qed
    qed
  qed
qed

lemma dispatch_sync:
  assumes g: "gen u x s = Some s1" "even (unat (m_vaddr_end s))" "unat (m_vaddr_end s) < 2 ^ 63" and st: "in_sync s1 st"
    and r: "dispatch FB E s1 st = Running st1"
  shows "in_sync s1 st1"
proof -
  consider c n where "steps_on s s1 x n (st\<lparr>sim_cpu := c\<rparr>) st1" | st0 st2 where "st1 = begin_block s1 st2" "enters s (unat (sim_decoder st)) st0 st2"
    using dispatch_steps [OF g st r] by blast
  then show ?thesis
  proof cases
    case 1
    then show ?thesis using next_entry_sync [OF g(1,2) _ 1] st by simp
  next
    case 2
    then show ?thesis using begin_block_sync(1) [OF g(1,2), of st2] by (simp add: enters_def)
  qed
qed

lemma begin_block_progress:
  assumes g: "gen u x s = Some s1" "even (unat (m_vaddr_end s))" "unat (m_vaddr_end s) < 2 ^ 63"
    and e: "enters s k st0 st2" and k: "k \<le> unat (m_vaddr_end s) div 2"
    and L: "unat (sim_max st0) \<le> L" "L < 2 ^ 63" "k < unat (sim_decoder st2) \<Longrightarrow> unat (sim_counter st0) \<le> L + k + 1"
  shows "within_limit L s1 (begin_block s1 st2)"
    and "budget s1 (begin_block s1 st2) <
      Suc ((unat (sim_max st0) - unat (sim_counter st0)) * Suc (unat (m_vaddr_end s) div 2) + (unat (m_vaddr_end s) div 2 - k))"
proof -
  let ?C = "unat (sim_counter st0)" and ?M = "unat (sim_max st0)" and ?K = "unat (m_vaddr_end s) div 2" and ?j = "unat (sim_decoder st2)"
  define d where "d = entry_at s1 (sim_decoder st2)"
  have j: "unat (m_vaddr_begin s) \<le> 2 * ?j" "2 * ?j \<le> unat (m_vaddr_end s)" and o: "k < ?j \<or> ?C < ?M"
    and st2: "sim_counter st2 = sim_counter st0" "sim_max st2 = sim_max st0"
    using e by (auto simp: enters_def overflowed_def word_le_nat_alt)
  have ic: "dd_icount d \<le> Suc (dd_idxend d) \<and> ?j + dd_idxend d \<le> ?K \<and> (d = invalid_entry \<or> 1 \<le> dd_icount d)"
  proof (cases rule: entry_cases [OF g(1,2) j])
    case 1
    then show ?thesis using j(2) by (simp add: d_def invalid_entry_def)
  next
    case 2
    then show ?thesis using icount_bounds [OF g(1,2) 2(1)] block_end [OF g(1,2) 2(1)] unfolding d_def by auto
  qed
  have C: "?C \<le> L + ?j" using o L by linarith
  moreover have "?K < 2 ^ 62" using g(3) by simp
  ultimately have "?C + dd_icount d < 2 ^ 64" using ic L(2) by simp
  then have C1: "unat (sim_counter (begin_block s1 st2)) = ?C + dd_icount d"
    using unat_plus_nat [of "sim_counter st0" "dd_icount d"] by (simp add: begin_block_def d_def st2 Let_def)
  have d1: "entry_at s1 (sim_decoder (begin_block s1 st2)) = d" "sim_decoder (begin_block s1 st2) = sim_decoder st2"
    "sim_max (begin_block s1 st2) = sim_max st0"
    by (simp_all add: begin_block_def d_def Let_def st2)
  show "within_limit L s1 (begin_block s1 st2)"
    unfolding within_limit_def d1(2,3) C1 d_def [symmetric] using C ic L(1) by auto
  have e1: "m_vaddr_end s1 = m_vaddr_end s" using gen_bounds [OF g(1,2)] by simp
  show "budget s1 (begin_block s1 st2) < Suc ((?M - ?C) * Suc ?K + (?K - k))"
  proof (cases "dd_bytecode d = RV32I_BC_INVALID")
    case False
    then have i1: "1 \<le> dd_icount d" using ic by (auto simp: invalid_entry_def)
    have "(?M - (?C + dd_icount d)) * Suc ?K + (?K - ?j) < (?M - ?C) * Suc ?K + (?K - k)"
      using o i1 ic k by (intro lex_less) auto
    then show ?thesis using False unfolding budget_def d1 C1 e1 by (simp del: mult_Suc_right)
  qed (simp add: budget_def d1(2) d_def)
qed

lemma dispatch_progress:
  assumes g: "gen u x s = Some s1" "even (unat (m_vaddr_end s))" "unat (m_vaddr_end s) < 2 ^ 63" and st: "in_sync s1 st"
    and h: "counters_monotone E" and L: "within_limit L s1 st" "L < 2 ^ 63" and r: "dispatch FB E s1 st = Running st1"
  shows "within_limit L s1 st1 \<and> budget s1 st1 < budget s1 st"
proof -
  let ?C = "unat (sim_counter st)" and ?M = "unat (sim_max st)" and ?K = "unat (m_vaddr_end s) div 2" and ?k = "unat (sim_decoder st)"
  have e1: "m_vaddr_end s1 = m_vaddr_end s" using gen_bounds [OF g(1,2)] by simp
  have k: "?k \<le> ?K" using st e1 by (auto simp: in_sync_def)
  from dispatch_steps [OF g st r] have inv: "dd_bytecode (entry_at s1 (sim_decoder st)) \<noteq> RV32I_BC_INVALID" by blast
  then have b: "budget s1 st = Suc ((?M - ?C) * Suc ?K + (?K - ?k))" by (simp add: budget_def e1)
  consider c n where "steps_on s s1 x n (st\<lparr>sim_cpu := c\<rparr>) st1"
    | st0 st2 where "st1 = begin_block s1 st2" "enters s ?k st0 st2" "dd_idxend (entry_at s1 (sim_decoder st)) = 0"
        "sim_counter st0 = sim_counter st \<and> sim_max st0 = sim_max st \<or> (\<exists>c. host_call E st c \<and> st0 = retrieve_counters c st \<and> \<not> overflowed st0)"
    using dispatch_steps [OF g st r] by blast
  then show ?thesis
  proof cases
    case 1
    note k1 = next_entry_index [OF 1]
    have "within_limit L s1 st1" using L(1) k1 by (auto simp: within_limit_def)
    moreover have "budget s1 st1 < budget s1 st"
    proof -
      have "?K - unat (sim_decoder st1) < ?K - ?k" using k1(1,5,6) by auto
      then have "(?M - ?C) * Suc ?K + (?K - unat (sim_decoder st1)) < (?M - ?C) * Suc ?K + (?K - ?k)" by (intro lex_less) simp
      moreover have "budget s1 st1 \<le> Suc ((?M - ?C) * Suc ?K + (?K - unat (sim_decoder st1)))" using k1(3,4) by (simp add: budget_def e1)
      ultimately show ?thesis unfolding b by linarith
    qed
    ultimately show ?thesis by simp
  next
    case 2
    have c: "?C \<le> unat (sim_counter st0)" "unat (sim_max st0) \<le> ?M" and o: "sim_counter st0 = sim_counter st \<or> \<not> overflowed st0"
      using 2(4) h by (auto simp: counters_monotone_def retrieve_counters_def word_le_nat_alt)
    have M: "unat (sim_max st0) \<le> L" using c(2) L(1) by (simp add: within_limit_def)
    have C: "unat (sim_counter st0) \<le> L + ?k + 1"
      using o L(1) M 2(3) by (auto simp: within_limit_def overflowed_def word_le_nat_alt)
    note p = begin_block_progress [OF g 2(2) k M L(2)]
    have "(unat (sim_max st0) - unat (sim_counter st0)) * Suc ?K \<le> (?M - ?C) * Suc ?K"
      using c by (intro mult_le_mono1) linarith
    then show ?thesis using p C 2(1) b by auto
  qed
qed

lemma run_returns:
  assumes g: "gen u x s = Some s1" "even (unat (m_vaddr_end s))" "unat (m_vaddr_end s) < 2 ^ 63" and h: "counters_monotone E"
  shows "in_sync s1 st \<Longrightarrow> within_limit L s1 st \<Longrightarrow> L < 2 ^ 63 \<Longrightarrow> budget s1 st < n \<Longrightarrow> run_dispatch n FB E s1 st \<noteq> Running st'"
proof (induction n arbitrary: st)
  case (Suc n)
  show ?case
  proof (cases "dispatch FB E s1 st")
    case (Running st1)
    have "in_sync s1 st1" by (rule dispatch_sync [OF g Suc.prems(1) Running])
    moreover have "within_limit L s1 st1" "budget s1 st1 < budget s1 st"
      using dispatch_progress [OF g Suc.prems(1) h Suc.prems(2,3) Running] by auto
    ultimately show ?thesis using Suc Running by simp
  qed simp_all
qed simp

lemma follow_lands:
  assumes g: "gen u x s = Some s1" "even (unat (m_vaddr_end s))" "unat (m_vaddr_end s) < 2 ^ 63" and st: "in_sync s1 st"
    and a: "a = 2 * unat (sim_decoder st)" "a \<in> set (sweep x (unat (m_vaddr_end s)) (unat (m_vaddr_begin s)))"
    and e: "dd_bytecode (seg_decoder s1 (a div 2)) \<noteq> RV32I_BC_INVALID" "dd_bytecode (seg_decoder s1 (a div 2)) \<noteq> RV32I_BC_FUNCBLOCK"
    and fl: "valid_flow s (of_nat a) (read_instruction x a (unat (m_vaddr_end s))) fl" and p: "even (unat (sim_pc st))"
    and r: "follow s1 fl st = Running st1"
  shows "guest st1 = at_pc (flow_target (of_nat a) (sim_pc st) fl) (sim_cpu st) \<and> even (unat (sim_pc st1))"
  using follow_steps [OF g st a e fl r]
proof (elim disjE exE conjE)
  fix n assume n: "steps_on s s1 x n st st1" "flow_target (of_nat a) (sim_pc st) fl = of_nat (2 * unat (sim_decoder st1))" "sim_pc st1 = sim_pc st"
  have "sim_cpu st1 = sim_cpu st" using n(1) by (auto simp: steps_on_def Let_def)
  then show ?thesis using n p by (simp add: guest_def)
next
  fix st2 assume st1: "st1 = begin_block s1 st2" and en: "enters s (unat (sim_decoder st)) st st2"
    and t: "sim_pc st2 = flow_target (of_nat a) (sim_pc st) fl" "even (unat (sim_pc st)) \<longrightarrow> even (unat (sim_pc st2))"
  have k: "unat (m_vaddr_begin s) \<le> 2 * unat (sim_decoder st2)" "2 * unat (sim_decoder st2) \<le> unat (m_vaddr_end s)"
    "unat (sim_pc st2) div 2 = unat (sim_decoder st2)" and c: "sim_cpu st2 = sim_cpu st"
    using en by (simp_all add: enters_def)
  have "even (unat (sim_pc st2))" using t(2) p by simp
  moreover from this k(3) have "2 * unat (sim_decoder st2) = unat (sim_pc st2)" by auto
  moreover have "sim_decoder st1 = sim_decoder st2" "sim_cpu st1 = sim_cpu st2" by (simp_all add: st1 begin_block_def Let_def)
  ultimately show ?thesis using begin_block_sync(2) [OF g(1,2) k] t(1) c st1 unfolding guest_def by simp
qed

lemma dispatch_refines:
  assumes g: "gen u x s = Some s1" "even (unat (m_vaddr_end s))" "unat (m_vaddr_end s) < 2 ^ 63" and st: "in_sync s1 st"
    and c: "comparable E s1 x st" and a: "a = 2 * unat (sim_decoder st)" and f: "fetch (of_nat a) = read_instruction x a (unat (m_vaddr_end s))"
  shows "\<exists>r. precise_step E s1 fetch (guest st) = Some r \<and> forget_counters (observed (of_nat a) (dispatch FB E s1 st)) = forget_counters r"
    and "dispatch FB E s1 st = Running st1 \<Longrightarrow> even (unat (sim_pc st1))"
proof -
  let ?i = "read_instruction x a (unat (m_vaddr_end s))" and ?d = "entry_at s1 (sim_decoder st)" and ?c = "sim_cpu st"
  have bounds: "m_vaddr_begin s1 = m_vaddr_begin s" "m_vaddr_end s1 = m_vaddr_end s" using gen_bounds [OF g(1,2)] by auto
  have cmp: "dd_bytecode ?d \<noteq> RV32I_BC_INVALID" "dd_bytecode ?d \<noteq> RV32I_BC_FUNCBLOCK" "\<not> host_instr (env_custom_count E) ?i"
    "\<not> rem_diverges ?i ?c" "\<not> clobbers_zero ?i" "\<not> odd_target (of_nat a) ?i ?c" "reg ?c 0 = 0" "even (unat (sim_pc st))"
    using c bounds a by (simp_all add: comparable_def Let_def)
  have i: "unat (m_vaddr_begin s) \<le> a" "a \<le> unat (m_vaddr_end s)" using st bounds a by (auto simp: in_sync_def)
  have sw: "a \<in> set (sweep x (unat (m_vaddr_end s)) (unat (m_vaddr_begin s)))"
    and law: "entry_law u s x (unat (m_vaddr_end s)) (seg_decoder s1) a" and d: "?d = seg_decoder s1 (a div 2)"
    using i unfolding a by (cases rule: entry_cases [OF g(1,2) i [unfolded a]]; use cmp(1) in \<open>simp add: invalid_entry_def\<close>)+
  have lt: "a < unat (m_vaddr_end s)" "a + 2 * dd_idxend ?d < unat (m_vaddr_end s)" using sweep_range [OF sw] block_end [OF g(1,2) sw] d by auto
  have ua: "unat (of_nat a :: 64 word) = a" using lt(1) g(3) by (simp add: unat_of_nat take_bit_nat_eq_self)
  have rw: "threaded_rewrite (u a) s (computed_index_for ?i) (of_nat a) ?i = Some (dd_bytecode ?d, dd_instr ?d)"
    and ends: "ends_block ?i \<longrightarrow> dd_idxend ?d = 0"
    using law cmp(1,2) d by (auto elim: entry_law_cases)
  have pc: "sim_pc st = of_nat a + block_bytes ?d"
  proof -
    have u: "unat (sim_pc st) = a + 2 * dd_idxend ?d" using st cmp(8) a by (auto simp: in_sync_def)
    have "sim_pc st = of_nat (unat (sim_pc st))" by simp
    then have "sim_pc st = of_nat (a + 2 * dd_idxend ?d)" unfolding u .
    then show ?thesis by (simp add: block_bytes_def mult.commute)
  qed
  have ref: "run_bytecode FB E (of_nat a) (dd_idxend ?d) (dd_bytecode ?d, dd_instr ?d) ?c = Some (reference_step E (of_nat a) ?i ?c)"
    using run_bytecode_exact [OF rw _ cmp(3-7) ends] cmp(1) by simp
  then obtain h where h: "bytecode_impl FB (dd_bytecode ?d) = Some h" by (auto simp: run_bytecode_def split: option.splits)
  let ?d1 = "\<lparr>dd_bytecode = dd_bytecode ?d, dd_idxend = dd_idxend ?d, dd_icount = 0, dd_instr = dd_instr ?d\<rparr>"
  have "h E (sim_pc st) ?d1 ?c = h E (sim_pc st) ?d ?c" by (rule handler_entry [OF h]) simp_all
  then have set: "settle (of_nat a) (sim_pc st) (h E (sim_pc st) ?d ?c) = reference_step E (of_nat a) ?i ?c"
    using ref h pc by (simp add: run_bytecode_def block_bytes_def Let_def)
  have sys: "dd_bytecode ?d \<notin> {RV32I_BC_SYSTEM, RV32I_BC_SYSCALL, RV32I_BC_STOP}"
    using system_bytecodes [OF rw] cmp(3) by (auto simp: host_instr_def)
  have within: "is_within s1 (of_nat a) 2"
  proof -
    have "a + 2 \<le> unat (m_vaddr_end s)" using lt(1) g(2) a by presburger
    then show ?thesis using i g(3) bounds by (simp add: is_within_def ua word_le_nat_alt)
  qed
  have precise: "\<exists>r. precise_step E s1 fetch (guest st) = Some r \<and> forget_counters r = forget_counters (reference_step E (of_nat a) ?i ?c)"
    using within f a by (auto simp: precise_step_def guest_def reference_step_def forget_counters_def increment_pc_def Let_def
      split: prod.split sum.split)
  have "forget_counters (observed (of_nat a) (dispatch FB E s1 st)) = forget_counters (reference_step E (of_nat a) ?i ?c) \<and>
    (\<forall>st1. dispatch FB E s1 st = Running st1 \<longrightarrow> even (unat (sim_pc st1)))"
  proof (cases "h E (sim_pc st) ?d ?c")
    case (Pair res c1)
    show ?thesis
    proof (cases res)
      case (Inl e)
      then have "dispatch FB E s1 st = Raised e c1" using Pair h sys by (simp add: dispatch_def Let_def)
      then show ?thesis using set Pair Inl by (simp add: settle_def flip: set)
    next
      case (Inr fl)
      let ?st = "st\<lparr>sim_cpu := c1\<rparr>"
      have dis: "dispatch FB E s1 st = follow s1 fl ?st" using Pair Inr h sys by (simp add: dispatch_def Let_def)
      have fin: "reference_step E (of_nat a) ?i ?c = (Inr (), at_pc (flow_target (of_nat a) (sim_pc st) fl) c1)"
        using set Pair Inr by (simp add: settle_def)
      have v: "valid_flow s (of_nat a) ?i fl"
        by (rule bytecode_flow_valid [OF rw, where h = h and d = ?d and E = E and FB = FB and c = ?c and pc = "sim_pc st"])
          (simp_all add: h Pair Inr)
      show ?thesis
      proof (cases "\<exists>st1. follow s1 fl ?st = Running st1")
        case False
        then show ?thesis using follow_leaves [of s1 fl ?st "of_nat a" "of_nat a"] dis fin by simp
      next
        case True
        then obtain st1 where r: "follow s1 fl ?st = Running st1" by blast
        have "guest st1 = at_pc (flow_target (of_nat a) (sim_pc st) fl) c1 \<and> even (unat (sim_pc st1))"
          using follow_lands [OF g, of ?st a fl st1] st a sw cmp(1,2,8) d v r by simp
        then show ?thesis using dis r fin by simp
      qed
    qed
  qed
  then show "\<exists>r. precise_step E s1 fetch (guest st) = Some r \<and> forget_counters (observed (of_nat a) (dispatch FB E s1 st)) = forget_counters r"
    and "dispatch FB E s1 st = Running st1 \<Longrightarrow> even (unat (sim_pc st1))"
    using precise by auto
qed

lemma run_keeps:
  assumes g: "gen u x s = Some s1" "even (unat (m_vaddr_end s))" "unat (m_vaddr_end s) < 2 ^ 63"
  shows "in_sync s1 st \<Longrightarrow> run_dispatch n FB E s1 st = Running st1 \<Longrightarrow> in_sync s1 st1"
    and "in_sync s1 st \<Longrightarrow> counters_monotone E \<Longrightarrow> within_limit L s1 st \<Longrightarrow> L < 2 ^ 63 \<Longrightarrow> run_dispatch n FB E s1 st = Running st1 \<Longrightarrow> within_limit L s1 st1"
proof (induction n arbitrary: st)
  case (Suc n)
  {
    case 1
    from 1(2) obtain st2 where d: "dispatch FB E s1 st = Running st2" and r: "run_dispatch n FB E s1 st2 = Running st1" by (auto split: outcome.splits)
    from Suc.IH(1) [OF dispatch_sync [OF g 1(1) d] r] show ?case .
  next
    case 2
    from 2(5) obtain st2 where d: "dispatch FB E s1 st = Running st2" and r: "run_dispatch n FB E s1 st2 = Running st1" by (auto split: outcome.splits)
    have "within_limit L s1 st2" using dispatch_progress [OF g 2(1,2,3,4) d] by blast
    from Suc.IH(2) [OF dispatch_sync [OF g 2(1) d] 2(2) this 2(4) r] show ?case .
  }
qed simp_all

lemma simulate_start:
  assumes g: "gen u x s = Some s1" "even (unat (m_vaddr_end s))" "unat (m_vaddr_end s) < 2 ^ 63"
    and p: "m_vaddr_begin s1 \<le> pc" "pc < m_vaddr_end s1"
  obtains st where "simulate n FB E s1 pc inscounter maxcounter c = run_dispatch n FB E s1 st" "in_sync s1 st"
    "\<And>L. unat maxcounter \<le> L \<Longrightarrow> L < 2 ^ 63 \<Longrightarrow> unat inscounter \<le> L \<Longrightarrow> within_limit L s1 st"
    "budget s1 st \<le> Suc (unat maxcounter * Suc (unat (m_vaddr_end s) div 2) + unat (m_vaddr_end s) div 2)"
proof -
  let ?st = "\<lparr>sim_pc = pc, sim_decoder = drop_bit 1 pc, sim_counter = inscounter, sim_max = maxcounter, sim_cpu = c\<rparr>"
  have bounds: "m_vaddr_begin s1 = m_vaddr_begin s" "m_vaddr_end s1 = m_vaddr_end s" "even (unat (m_vaddr_begin s))"
    using gen_bounds [OF g(1,2)] by auto
  have dec: "unat (drop_bit 1 pc) = unat pc div 2" by (simp add: drop_bit_Suc unat_div)
  have le: "unat (m_vaddr_begin s) \<le> unat pc" "unat pc < unat (m_vaddr_end s)" using p bounds by (simp_all add: word_le_nat_alt word_less_nat_alt)
  have k: "unat (m_vaddr_begin s) \<le> 2 * unat (sim_decoder ?st)" "2 * unat (sim_decoder ?st) \<le> unat (m_vaddr_end s)"
    "unat (sim_pc ?st) div 2 = unat (sim_decoder ?st)"
    using le bounds(3) dec by (simp_all, presburger)
  have sim: "simulate n FB E s1 pc inscounter maxcounter c = run_dispatch n FB E s1 (begin_block s1 ?st)"
    using p by (simp add: simulate_def continue_segment_def Let_def)
  have limit: "within_limit L s1 (begin_block s1 ?st)" if L: "unat maxcounter \<le> L" "L < 2 ^ 63" "unat inscounter \<le> L" for L
  proof -
    define d where "d = entry_at s1 (drop_bit 1 pc)"
    have ic: "dd_icount d \<le> Suc (dd_idxend d) \<and> dd_idxend d \<le> unat (m_vaddr_end s) div 2"
    proof (cases rule: entry_cases [OF g(1,2) k(1,2)])
      case 2
      then show ?thesis using icount_bounds [OF g(1,2) 2(1)] block_end [OF g(1,2) 2(1)] unfolding d_def by auto
    qed (simp add: d_def invalid_entry_def)
    have "unat (m_vaddr_end s) div 2 < 2 ^ 62" using g(3) by simp
    then have "unat inscounter + dd_icount d < 2 ^ 64" using ic L by simp
    then have "unat (inscounter + of_nat (dd_icount d)) = unat inscounter + dd_icount d" by (rule unat_plus_nat)
    then show ?thesis using L ic unfolding d_def by (simp add: within_limit_def begin_block_def Let_def)
  qed
  have "(unat maxcounter - C) * K \<le> unat maxcounter * K" for C K by (intro mult_le_mono1) simp
  then have "budget s1 (begin_block s1 ?st) \<le> Suc (unat maxcounter * Suc (unat (m_vaddr_end s) div 2) + unat (m_vaddr_end s) div 2)"
    unfolding budget_def bounds(2) by (simp del: mult_Suc_right add: begin_block_def Let_def add_mono)
  with sim begin_block_sync(1) [OF g(1,2) k] limit that show ?thesis by blast
qed

lemma simulate_keeps_sync:
  assumes g: "gen u x s = Some s1" "even (unat (m_vaddr_end s))" "unat (m_vaddr_end s) < 2 ^ 63"
    and r: "simulate n FB E s1 pc inscounter maxcounter c = Running st1"
  shows "in_sync s1 st1"
proof -
  have p: "m_vaddr_begin s1 \<le> pc" "pc < m_vaddr_end s1" using r by (auto simp: simulate_def Let_def split: if_splits)
  obtain st where "simulate n FB E s1 pc inscounter maxcounter c = run_dispatch n FB E s1 st" "in_sync s1 st"
    using simulate_start [OF g p] by blast
  then show ?thesis using run_keeps(1) [OF g] r by metis
qed

lemma sync_block_end:
  assumes g: "gen u x s = Some s1" "even (unat (m_vaddr_end s))" and st: "in_sync s1 st"
  shows "unat (sim_decoder st) + dd_idxend (entry_at s1 (sim_decoder st)) \<le> unat (m_vaddr_end s) div 2"
proof -
  have i: "unat (m_vaddr_begin s) \<le> 2 * unat (sim_decoder st)" "2 * unat (sim_decoder st) \<le> unat (m_vaddr_end s)"
    using st gen_bounds [OF g] by (auto simp: in_sync_def)
  show ?thesis
  proof (cases rule: entry_cases [OF g i])
    case 2
    then show ?thesis using block_end [OF g 2(1)] by auto
  qed (use i in \<open>simp add: invalid_entry_def\<close>)
qed

lemma simulate_keeps_limit:
  assumes g: "gen u x s = Some s1" "even (unat (m_vaddr_end s))" "unat (m_vaddr_end s) < 2 ^ 63"
    and h: "counters_monotone E" "unat inscounter \<le> unat maxcounter" "unat maxcounter < 2 ^ 63"
    and r: "simulate n FB E s1 pc inscounter maxcounter c = Running st1"
  shows "within_limit (unat maxcounter) s1 st1"
proof -
  have p: "m_vaddr_begin s1 \<le> pc" "pc < m_vaddr_end s1" using r by (auto simp: simulate_def Let_def split: if_splits)
  obtain st where s: "simulate n FB E s1 pc inscounter maxcounter c = run_dispatch n FB E s1 st" "in_sync s1 st"
    "within_limit (unat maxcounter) s1 st"
    using simulate_start [OF g p] h(2,3) by (metis order_refl)
  show ?thesis using run_keeps(2) [OF g s(2) h(1) s(3) h(3)] r s(1) by metis
qed

lemma simulate_terminates:
  assumes g: "gen u x s = Some s1" "even (unat (m_vaddr_end s))" "unat (m_vaddr_end s) < 2 ^ 63"
    and h: "counters_monotone E" "unat inscounter \<le> unat maxcounter" "unat maxcounter < 2 ^ 63"
    and n: "Suc (unat maxcounter * Suc (unat (m_vaddr_end s) div 2) + unat (m_vaddr_end s) div 2) < n"
  shows "simulate n FB E s1 pc inscounter maxcounter c \<noteq> Running st1"
proof (cases "m_vaddr_begin s1 \<le> pc \<and> pc < m_vaddr_end s1")
  case True
  then obtain st where s: "simulate n FB E s1 pc inscounter maxcounter c = run_dispatch n FB E s1 st" "in_sync s1 st"
    "within_limit (unat maxcounter) s1 st"
    "budget s1 st \<le> Suc (unat maxcounter * Suc (unat (m_vaddr_end s) div 2) + unat (m_vaddr_end s) div 2)"
    using simulate_start [OF g] h(2,3) by (metis order_refl)
  then show ?thesis using run_returns [OF g h(1) s(2,3) h(3)] n by simp
qed (auto simp: simulate_def Let_def)

lemma limit_returns:
  assumes g: "gen u x s = Some s1" "even (unat (m_vaddr_end s))" "unat (m_vaddr_end s) < 2 ^ 63"
    and h: "counters_monotone E" "in_sync s1 st" "overflowed st" "unat (sim_counter st) < 2 ^ 63"
    and n: "Suc (unat (m_vaddr_end s) div 2 - unat (sim_decoder st)) < n"
  shows "run_dispatch n FB E s1 st \<noteq> Running st1"
proof -
  have m: "unat (sim_max st) \<le> unat (sim_counter st)" using h(3) by (simp add: overflowed_def word_le_nat_alt)
  then have w: "within_limit (unat (sim_counter st)) s1 st" by (simp add: within_limit_def)
  have "budget s1 st \<le> Suc (unat (m_vaddr_end s) div 2 - unat (sim_decoder st))"
    using m gen_bounds [OF g(1,2)] by (simp add: budget_def)
  then show ?thesis using run_returns [OF g h(1,2) w h(4)] n by simp
qed

end

end
