(* ===== verification/Dispatch_Properties.thy ===== *)
theory Dispatch_Properties
  imports Dispatch_Sync
begin

text \<open>
  Properties of the decoder cache and the dispatcher: generation of the cache, the decoder pointer, refinement of the precise simulator,
  termination, and a defect at the cut of a long block.
\<close>

unbundle bit_operations_syntax

section \<open>A program for the witnesses\<close>

text \<open>One instruction, a jump to itself, at \<open>0x10000\<close>.\<close>

definition demo_code :: "nat \<Rightarrow> 8 word" where
  "demo_code a = (if a = 0x10000 then 0x6F else 0)"

definition loop_segment :: Segment where
  "loop_segment = \<lparr>m_vaddr_begin = 0x10000, m_vaddr_end = 0x10004, seg_decoder = (\<lambda>_. invalid_entry)\<rparr>"

definition loop_state :: "nat Sim" where
  "loop_state = \<lparr>sim_pc = 0x10000, sim_decoder = 0x8000, sim_counter = 1, sim_max = 1000, sim_cpu = demo_cpu\<rparr>"

lemma demo_read:
  "half_at demo_code 65536 = 0x6F" "half_at demo_code 65538 = 0" "read_instruction demo_code 65536 65540 = 0x6F"
  "read_instruction demo_code 65538 65540 = 0" "length_at demo_code 65536 = 4" "length_at demo_code 65538 = 2"
  by (simp_all add: half_at_def read_instruction_def length_at_def demo_code_def)

lemma loop_bounds [simp]:
  "m_vaddr_begin loop_segment = 0x10000" "m_vaddr_end loop_segment = 0x10004"
  by (simp_all add: loop_segment_def)

lemma loop_decode:
  "decode_entry (\<lambda>_. 0) loop_segment 65536 0x6F = Some \<lparr>dd_bytecode = RV32I_BC_FAST_JAL, dd_idxend = 0, dd_icount = 0, dd_instr = 0\<rparr>"
proof -
  have c: "computed_index_for 0x6F = RV32I_BC_JAL"
    by (simp add: computed_index_for_def computed_long_def instr_length_def fields opcode_defs)
  have "jump_offset 0x6F = 0" by (simp add: jump_offset_def fields)
  then have "rewrite_jal loop_segment 65536 0x6F = (RV32I_BC_FAST_JAL, 0)"
    by (simp add: rewrite_jal_def is_within_def fields sext_def)
  then show ?thesis by (simp add: decode_entry_def c rewrite_table)
qed

lemma loop_generated:
  obtains s1 where "generate_decoder_cache (\<lambda>_. 0) demo_code loop_segment = Some s1" "m_vaddr_begin s1 = 0x10000" "m_vaddr_end s1 = 0x10004"
    "entry_at s1 0x8000 = \<lparr>dd_bytecode = RV32I_BC_FAST_JAL, dd_idxend = 0, dd_icount = 1, dd_instr = 0\<rparr>"
proof -
  have ends: "ends_block 0x6F" by (simp add: ends_block_def instr_length_def fields opcode_defs)
  have len: "instr_length 0x6F = 4" by (simp add: instr_length_def fields)
  let ?D = "(\<lambda>_. invalid_entry)(32768 := \<lparr>dd_bytecode = RV32I_BC_FAST_JAL, dd_idxend = 0, dd_icount = 0, dd_instr = 0\<rparr>, 32769 := invalid_entry)"
  have g: "generate_loop (\<lambda>_. 0) loop_segment demo_code 65540 65536 True (\<lambda>_. invalid_entry) = Some ?D"
    by (subst generate_loop.simps, subst generate_loop.simps, subst generate_loop.simps) (simp add: demo_read loop_decode len)
  have b: "block_loop demo_code 65540 65536 65536 D = Some ([(32768, 2)], 65540, D)" for D
    by (subst block_loop.simps) (simp add: demo_read ends)
  have r: "realize_fastsim demo_code 65536 65540 D = Some (fill_loop [(32768, 2)] 0 D)" for D
  proof -
    have e: "realize_loop demo_code 65540 65540 D = Some D" for D by (subst realize_loop.simps) simp
    have "realize_loop demo_code 65540 65536 D = Some (fill_loop [(32768, 2)] 0 D)"
      by (subst realize_loop.simps) (simp add: b fill_entries_def e)
    then show ?thesis by (simp add: realize_fastsim_def)
  qed
  have "\<exists>s1. generate_decoder_cache (\<lambda>_. 0) demo_code loop_segment = Some s1 \<and> m_vaddr_begin s1 = 0x10000 \<and> m_vaddr_end s1 = 0x10004 \<and>
    entry_at s1 0x8000 = \<lparr>dd_bytecode = RV32I_BC_FAST_JAL, dd_idxend = 0, dd_icount = 1, dd_instr = 0\<rparr>"
    by (simp add: generate_decoder_cache_def g r entry_at_def)
  then show ?thesis using that by blast
qed

lemma loop_sync:
  assumes "m_vaddr_begin s1 = 0x10000" "m_vaddr_end s1 = 0x10004"
    "entry_at s1 0x8000 = \<lparr>dd_bytecode = RV32I_BC_FAST_JAL, dd_idxend = 0, dd_icount = 1, dd_instr = 0\<rparr>"
  shows "in_sync s1 loop_state"
  using assms by (simp add: in_sync_def loop_state_def)

lemma loop_simulate:
  assumes "m_vaddr_begin s1 = 0x10000" "m_vaddr_end s1 = 0x10004"
    "entry_at s1 0x8000 = \<lparr>dd_bytecode = RV32I_BC_FAST_JAL, dd_idxend = 0, dd_icount = 1, dd_instr = 0\<rparr>"
  shows "\<exists>st. simulate 1 FB E s1 0x10000 0 1000 c = Running st"
  using assms
  by (simp add: simulate_def continue_segment_def begin_block_def dispatch_def impl_table rv32i_fast_jal_def go_def follow_def next_block_def
      overflowed_def sext_def block_bytes_def Let_def word_le_nat_alt)

section \<open>Hosts that keep the counters\<close>

definition keeps_counters :: "'w effect \<Rightarrow> bool" where
  "keeps_counters f \<longleftrightarrow> (\<forall>c. cpu_counter c \<le> cpu_counter (snd (f c)) \<and> cpu_max_counter (snd (f c)) \<le> cpu_max_counter c)"

lemma counters_basic [simp]:
  "cpu_counter (set_reg r v c) = cpu_counter c" "cpu_max_counter (set_reg r v c) = cpu_max_counter c"
  "cpu_counter (csr_read i v c) = cpu_counter c" "cpu_max_counter (csr_read i v c) = cpu_max_counter c"
  "snd (trigger_exception t d c) = c" "snd (retire c) = c" "cpu_counter (stop c) = cpu_counter c" "cpu_max_counter (stop c) = 0"
  by (simp_all add: set_reg_def csr_read_def trigger_exception_def retire_def stop_def)

lemma counters_csr:
  "csr_float i f g c = Some c1 \<Longrightarrow> cpu_counter c1 = cpu_counter c \<and> cpu_max_counter c1 = cpu_max_counter c"
  by (auto simp: csr_float_def set_fflags_def set_frm_def Let_def split: if_splits)

lemma csr_keeps:
  assumes "cpu_counter c \<le> cpu_counter (snd r) \<and> cpu_max_counter (snd r) \<le> cpu_max_counter c"
  shows "cpu_counter c \<le> cpu_counter (snd (case csr_float i f g c of Some c1 \<Rightarrow> retire c1 | None \<Rightarrow> r)) \<and>
    cpu_max_counter (snd (case csr_float i f g c of Some c1 \<Rightarrow> retire c1 | None \<Rightarrow> r)) \<le> cpu_max_counter c"
  using assms by (auto dest: counters_csr split: option.split)

lemma if_keeps:
  assumes "cpu_counter c \<le> cpu_counter (snd r) \<and> cpu_max_counter (snd r) \<le> cpu_max_counter c"
    and "cpu_counter c \<le> cpu_counter (snd q) \<and> cpu_max_counter (snd q) \<le> cpu_max_counter c"
  shows "cpu_counter c \<le> cpu_counter (snd (if b then r else q)) \<and> cpu_max_counter (snd (if b then r else q)) \<le> cpu_max_counter c"
  using assms by simp

lemma counters_monotoneI:
  assumes s: "\<And>n. keeps_counters (env_syscalls E n)" "\<And>n. keeps_counters (env_unhandled_syscall E n)"
    and r: "\<And>n q r. keeps_counters (env_unhandled_csr E n q r)"
  shows "counters_monotone E"
proof -
  have call: "keeps_counters (system_call E n)" for n using s by (simp add: keeps_counters_def system_call_def)
  have rs: "keeps_counters (csrrs E i)" for i
    unfolding keeps_counters_def csrrs_def Let_def
    by (intro allI csr_keeps if_keeps; use r in \<open>simp add: keeps_counters_def\<close>)
  have im: "keeps_counters (csr_immediate f g E i)" for f g i
    unfolding keeps_counters_def csr_immediate_def by (intro allI csr_keeps; use r in \<open>simp add: keeps_counters_def\<close>)
  have sys: "keeps_counters (SYSTEM E i)" for i
    unfolding keeps_counters_def SYSTEM_def ebreak_def Let_def
    by (intro allI csr_keeps if_keeps; use call rs im in \<open>simp add: keeps_counters_def\<close>)
  show ?thesis
    unfolding counters_monotone_def
  proof (intro allI impI)
    fix st c assume "host_call E st c"
    then obtain f where "keeps_counters f" "f (expose st) = (Inr (), c)" using call sys by (auto simp: host_call_def)
    then have "cpu_counter (expose st) \<le> cpu_counter c" "cpu_max_counter c \<le> cpu_max_counter (expose st)"
      unfolding keeps_counters_def by (metis snd_conv)+
    then show "sim_counter st \<le> cpu_counter c \<and> cpu_max_counter c \<le> sim_max st" by (simp add: expose_def)
  qed
qed

lemma demo_host: "counters_monotone demo_env"
  by (rule counters_monotoneI) (simp_all add: keeps_counters_def demo_env_def)

section \<open>Generation\<close>

text \<open>
  (C38) Generating the decoder cache of a segment with an even end succeeds exactly when the segment is not empty and starts at an even address: no
  instruction makes the decoder throw, and no sequence of instructions is too long for a block.
\<close>

theorem decoder_cache_total:
  assumes "even (unat (m_vaddr_end s))" "unat (m_vaddr_end s) + 4 \<le> 2 ^ 64"
  shows "(\<exists>s1. generate_decoder_cache u x s = Some s1) \<longleftrightarrow> even (unat (m_vaddr_begin s)) \<and> m_vaddr_begin s < m_vaddr_end s"
  using generate_decoder_cache_defined [of s u x] decoder.gen_bounds [of u x s] assms by (auto simp: word_less_nat_alt)

theorem decoder_cache_total_witness:
  "even (unat (m_vaddr_begin loop_segment)) \<and> m_vaddr_begin loop_segment < m_vaddr_end loop_segment"
  using decoder_cache_total [of loop_segment "\<lambda>_. 0" demo_code] loop_generated by simp

text \<open>
  (C37) Every entry of the generated cache: the entry of an instruction of the linear sweep ends its block (as an invalid instruction, as a
  cut of a long block, or as an instruction that ends blocks) with one instruction left, or it holds the rewritten instruction and its distance to the
  end of the block and count of instructions continue those of the next instruction; every other entry, the one behind the segment
  included, is invalid.
\<close>

theorem decoder_cache_entries:
  assumes "generate_decoder_cache u x s = Some s1" "even (unat (m_vaddr_end s))"
    and "even a" "unat (m_vaddr_begin s) \<le> a" "a \<le> unat (m_vaddr_end s)"
  shows "if a \<in> set (sweep x (unat (m_vaddr_end s)) (unat (m_vaddr_begin s)))
    then entry_law u s x (unat (m_vaddr_end s)) (seg_decoder s1) a else seg_decoder s1 (a div 2) = invalid_entry"
  using decoder.gen_entry [OF assms(1,2)] decoder.gen_gap [OF assms] by simp

theorem decoder_cache_entries_witness:
  "\<exists>s1. generate_decoder_cache (\<lambda>_. 0) demo_code loop_segment = Some s1 \<and> seg_decoder s1 (0x10004 div 2) = invalid_entry"
proof -
  obtain s1 where s1: "generate_decoder_cache (\<lambda>_. 0) demo_code loop_segment = Some s1" using loop_generated by blast
  have "0x10004 \<notin> set (sweep demo_code 0x10004 0x10000)" using sweep_range [of "0x10004" demo_code "0x10004" "0x10000"] by auto
  with decoder_cache_entries [OF s1, of "0x10004"] have "seg_decoder s1 (0x10004 div 2) = invalid_entry" by simp
  with s1 show ?thesis by blast
qed

section \<open>The dispatcher\<close>

text \<open>
  (C4) The decoder pointer of the dispatcher never leaves the decoder cache: however many steps it runs, whatever the program is and whatever system calls
  do to the program counter, its index is that of an entry between the first of the segment and the one behind the last, and the program counter
  is the address of the end of the entry's block.
\<close>

theorem dispatch_index_in_bounds:
  assumes "generate_decoder_cache u x s = Some s1" "even (unat (m_vaddr_end s))" "unat (m_vaddr_end s) < 2 ^ 63"
    and "simulate n FB E s1 pc inscounter maxcounter c = Running st"
  shows "in_sync s1 st"
  using assms by (rule decoder.simulate_keeps_sync)

theorem dispatch_index_in_bounds_witness:
  "\<exists>s1 st. generate_decoder_cache (\<lambda>_. 0) demo_code loop_segment = Some s1 \<and>
    simulate 1 (\<lambda>_ _. retire) demo_env s1 0x10000 0 1000 demo_cpu = Running st \<and> in_sync s1 st"
proof -
  obtain s1 where s1: "generate_decoder_cache (\<lambda>_. 0) demo_code loop_segment = Some s1" "m_vaddr_begin s1 = 0x10000" "m_vaddr_end s1 = 0x10004"
    "entry_at s1 0x8000 = \<lparr>dd_bytecode = RV32I_BC_FAST_JAL, dd_idxend = 0, dd_icount = 1, dd_instr = 0\<rparr>" by (rule loop_generated)
  obtain st where r: "simulate 1 (\<lambda>_ _. retire) demo_env s1 0x10000 0 1000 demo_cpu = Running st"
    using loop_simulate [OF s1(2-4)] by blast
  have "in_sync s1 st" by (rule dispatch_index_in_bounds [OF s1(1) _ _ r]) simp_all
  with s1 r show ?thesis by blast
qed









section \<open>A defect at the cut of a block\<close>

text \<open>
  \<open>auipc a0, 0\<close> where a long block is cut: the entry runs the reference handler without storing the program counter first, so the
  register gets whatever the machine's program counter was last, while the precise simulator computes the address of the instruction.
\<close>

theorem funcblock_auipc_stale_pc:
  assumes "dd_bytecode (entry_at s (sim_decoder st)) = RV32I_BC_FUNCBLOCK" "dd_instr (entry_at s (sim_decoder st)) = 0x517"
    and "sim_counter st < sim_max st"
  shows "(\<exists>st1. dispatch FB E s st = Running st1 \<and> reg (sim_cpu st1) 10 = cpu_pc (sim_cpu st)) \<and>
    reg (snd (reference_step E a 0x517 (sim_cpu st))) 10 = a"
proof -
  have e: "execute E 0x517 c = retire (set_reg 10 (cpu_pc c) c)" for c
    by (simp add: execute_def decode_def decode_long_def AUIPC_def upper_imm_def fields opcode_defs sext_def)
  have "instr_length 0x517 = 4" by (simp add: instr_length_def fields)
  then show ?thesis
    using assms
    by (auto simp: dispatch_def impl_table execute_function_block_def e retire_def then_go_def follow_def next_block_def overflowed_def
        begin_block_def reference_step_def increment_pc_def Let_def reg_def set_reg_def at_pc_def)
qed

theorem funcblock_auipc_stale_pc_witness:
  "reg (snd (reference_step demo_env 0x20000 0x517 demo_cpu)) 10 = 0x20000 \<and> cpu_pc demo_cpu \<noteq> 0x20000"
  using funcblock_auipc_stale_pc [of "demo_segment\<lparr>seg_decoder := (\<lambda>_. \<lparr>dd_bytecode = RV32I_BC_FUNCBLOCK, dd_idxend = 0, dd_icount = 1, dd_instr = 0x517\<rparr>)\<rparr>"
    loop_state "\<lambda>_ _. retire" demo_env "0x20000"]
  by (simp add: entry_at_def loop_state_def demo_cpu_def)

end
