(* ===== verification/Guest_Copy.thy ===== *)
theory Guest_Copy
  imports Memory_Safety
begin

text \<open>
  Copies and comparisons inside of guest memory (\<open>memory_helpers_paging.hpp\<close> under
  \<open>src/src/libriscv/lib/libriscv\<close>, and the backward loops of \<open>native_libc.cpp\<close>), seen
  as functions on the bytes of the guest: a copy behaves like \<open>moved\<close>, a fill sets every byte, and a
  comparison returns zero exactly for equal bytes.
\<close>

section \<open>Operations\<close>

text \<open>One round of the copy loops: a load of \<open>n\<close> bytes and a store of what it returned.\<close>

definition copy_unit :: "'w PageHandlers \<Rightarrow> nat \<Rightarrow> nat \<Rightarrow> nat \<Rightarrow> 'w VM \<Rightarrow> (unit, 'w VM) thrown" where
  "copy_unit H n dst src vm =
    (case mem_read H n src vm of
       (Inl e, vm1) \<Rightarrow> (Inl e, vm1)
     | (Inr v, vm1) \<Rightarrow> mem_write H n dst v vm1)"

fun copy_units :: "'w PageHandlers \<Rightarrow> nat \<Rightarrow> nat \<Rightarrow> nat \<Rightarrow> nat \<Rightarrow> 'w VM \<Rightarrow> (unit, 'w VM) thrown" where
  "copy_units H n 0 dst src vm = (Inr (), vm)"
| "copy_units H n (Suc k) dst src vm =
    (case copy_unit H n dst src vm of
       (Inl e, vm1) \<Rightarrow> (Inl e, vm1)
     | (Inr _, vm1) \<Rightarrow> copy_units H n k (add64 dst n) (add64 src n) vm1)"

text \<open>
  The four loops of the guest-to-guest \<open>Memory::memcpy\<close>, which is called with both machines the
  same: bytes up to an aligned source, blocks of four registers, registers, and remaining bytes.  Each
  returns where it stopped.
\<close>

function copy_to_aligned :: "'w PageHandlers \<Rightarrow> nat \<Rightarrow> nat \<Rightarrow> nat \<Rightarrow> 'w VM \<Rightarrow> (nat \<times> nat \<times> nat, 'w VM) thrown" where
  "copy_to_aligned H dst src len vm =
    (if src mod 8 \<noteq> 0 \<and> 0 < len then
       case copy_unit H 1 dst src vm of
         (Inl e, vm1) \<Rightarrow> (Inl e, vm1)
       | (Inr _, vm1) \<Rightarrow> copy_to_aligned H (add64 dst 1) (add64 src 1) (len - 1) vm1
     else (Inr (dst, src, len), vm))"
  by pat_completeness auto
termination
  by (relation "measure (\<lambda>(H, dst, src, len, vm). len)") auto

lemma round_shorter: "n * k \<le> len \<Longrightarrow> 0 < n \<Longrightarrow> 0 < k \<Longrightarrow> len - n * k < (len :: nat)"
  by (metis diff_less le_zero_eq mult_is_0 neq0_conv)

function copy_while :: "'w PageHandlers \<Rightarrow> nat \<Rightarrow> nat \<Rightarrow> nat \<Rightarrow> nat \<Rightarrow> nat \<Rightarrow> 'w VM \<Rightarrow> (nat \<times> nat \<times> nat, 'w VM) thrown" where
  "copy_while H n k dst src len vm =
    (if n * k \<le> len \<and> 0 < n * k then
       case copy_units H n k dst src vm of
         (Inl e, vm1) \<Rightarrow> (Inl e, vm1)
       | (Inr _, vm1) \<Rightarrow> copy_while H n k (add64 dst (n * k)) (add64 src (n * k)) (len - n * k) vm1
     else (Inr (dst, src, len), vm))"
  by pat_completeness auto
termination
  by (relation "measure (\<lambda>(H, n, k, dst, src, len, vm). len)") (auto intro: round_shorter)

definition bind_copy :: "(nat \<times> nat \<times> nat, 'w VM) thrown \<Rightarrow>
    (nat \<Rightarrow> nat \<Rightarrow> nat \<Rightarrow> 'w VM \<Rightarrow> ('a, 'w VM) thrown) \<Rightarrow> ('a, 'w VM) thrown" where
  "bind_copy r f = (case r of (Inl e, vm) \<Rightarrow> (Inl e, vm) | (Inr (dst, src, len), vm) \<Rightarrow> f dst src len vm)"

definition copy_within :: "'w PageHandlers \<Rightarrow> nat \<Rightarrow> nat \<Rightarrow> nat \<Rightarrow> 'w VM \<Rightarrow> (unit, 'w VM) thrown" where
  "copy_within H dst src len vm =
    bind_copy
      (if dst mod 8 = src mod 8 then
         bind_copy (copy_to_aligned H dst src len vm) (\<lambda>dst src len vm.
         bind_copy (copy_while H 8 4 dst src len vm) (\<lambda>dst src len vm.
         copy_while H 8 1 dst src len vm))
       else (Inr (dst, src, len), vm))
      (\<lambda>dst src len vm.
         bind_copy (copy_while H 1 1 dst src len vm) (\<lambda>_ _ _ vm. (Inr (), vm)))"

declare copy_to_aligned.simps [simp del] copy_while.simps [simp del]

text \<open>The two loops of \<open>memmove\<close> that copy backwards: registers, or single bytes.\<close>

function copy_back :: "'w PageHandlers \<Rightarrow> nat \<Rightarrow> nat \<Rightarrow> nat \<Rightarrow> nat \<Rightarrow> 'w VM \<Rightarrow> (unit, 'w VM) thrown" where
  "copy_back H n dst src i vm =
    (if i = 0 \<or> n = 0 then (Inr (), vm)
     else
       case copy_unit H n (sub64 (add64 dst i) n) (sub64 (add64 src i) n) vm of
         (Inl e, vm1) \<Rightarrow> (Inl e, vm1)
       | (Inr _, vm1) \<Rightarrow> copy_back H n dst src (i - n) vm1)"
  by pat_completeness auto
termination
  by (relation "measure (\<lambda>(H, n, dst, src, i, vm). i)") auto

declare copy_back.simps [simp del]


text \<open>
  \<open>Memory::memcmp\<close>.  Inside of one page each it calls the host's \<open>memcmp\<close>, of
  which the standard fixes only the sign: \<open>host_memcmp\<close> is an argument.  Otherwise it compares byte by byte.
\<close>

function memcmp_loop :: "'w PageHandlers \<Rightarrow> nat \<Rightarrow> nat \<Rightarrow> nat \<Rightarrow> 'w VM \<Rightarrow> (int, 'w VM) thrown" where
  "memcmp_loop H p1 p2 len vm =
    (if len = 0 then (Inr 0, vm)
     else case get_readable_pageno H (page_number p1) vm of
       (Inl e, vm1) \<Rightarrow> (Inl e, vm1)
     | (Inr pg1, vm1) \<Rightarrow>
         (case get_readable_pageno H (page_number p2) vm1 of
            (Inl e, vm2) \<Rightarrow> (Inl e, vm2)
          | (Inr pg2, vm2) \<Rightarrow>
              let v1 = vm_data vm2 (pg_data pg1) (p1 mod PageSize);
                  v2 = vm_data vm2 (pg_data pg2) (p2 mod PageSize)
              in if v1 \<noteq> v2 then (Inr (uint v1 - uint v2), vm2)
                 else memcmp_loop H (add64 p1 1) (add64 p2 1) (len - 1) vm2))"
  by pat_completeness auto
termination
  by (relation "measure (\<lambda>(H, p1, p2, len, vm). len)") auto

definition mem_memcmp :: "(8 word list \<Rightarrow> 8 word list \<Rightarrow> int) \<Rightarrow> 'w PageHandlers \<Rightarrow> nat \<Rightarrow> nat \<Rightarrow> nat \<Rightarrow> 'w VM \<Rightarrow> (int, 'w VM) thrown" where
  "mem_memcmp host_memcmp H p1 p2 len vm =
    (if add64 p1 len < p1 then protection_fault p1 vm
     else if add64 p2 len < p2 then protection_fault p2 vm
     else if page_number p1 = sub64 (add64 p1 len) 1 div PageSize \<and> page_number p2 = sub64 (add64 p2 len) 1 div PageSize then
       case get_readable_pageno H (page_number p1) vm of
         (Inl e, vm1) \<Rightarrow> (Inl e, vm1)
       | (Inr pg1, vm1) \<Rightarrow>
           (case get_readable_pageno H (page_number p2) vm1 of
              (Inl e, vm2) \<Rightarrow> (Inl e, vm2)
            | (Inr pg2, vm2) \<Rightarrow>
                (Inr (host_memcmp (map (vm_data vm2 (pg_data pg1)) [p1 mod PageSize ..< p1 mod PageSize + len])
                   (map (vm_data vm2 (pg_data pg2)) [p2 mod PageSize ..< p2 mod PageSize + len])), vm2))
     else memcmp_loop H p1 p2 len vm)"

declare memcmp_loop.simps [simp del]

text \<open>
  A gathered range of guest memory: buffers in host memory, each a list of pieces of page buffers that are
  adjacent there.  Where the host has placed a page buffer, \<open>host\<close>, is an argument.
\<close>

type_synonym vBuffer = "(nat \<times> nat \<times> nat) list"

fun vbuffer_end :: "(nat \<Rightarrow> nat) \<Rightarrow> vBuffer \<Rightarrow> nat" where
  "vbuffer_end host [] = 0"
| "vbuffer_end host [(d, off, n)] = host d + off + n"
| "vbuffer_end host (_ # q # qs) = vbuffer_end host (q # qs)"

definition vbuffer_len :: "vBuffer \<Rightarrow> nat" where
  "vbuffer_len b = sum_list (map (\<lambda>(d, off, n). n) b)"

function gather_buffers_from_range :: "'w PageHandlers \<Rightarrow> (nat \<Rightarrow> nat) \<Rightarrow> nat \<Rightarrow> nat \<Rightarrow> nat \<Rightarrow> vBuffer list \<Rightarrow> 'w VM \<Rightarrow>
    (vBuffer list, 'w VM) thrown" where
  "gather_buffers_from_range H host cnt addr len bufs vm =
    (if len \<noteq> 0 \<and> length bufs < cnt then
       let offset = addr mod PageSize;
           n = min (PageSize - offset) len
       in case get_readable_pageno H (page_number addr) vm of
            (Inl e, vm1) \<Rightarrow> (Inl e, vm1)
          | (Inr pg, vm1) \<Rightarrow>
              gather_buffers_from_range H host cnt (add64 addr n) (len - n)
                (if bufs \<noteq> [] \<and> host (pg_data pg) + offset = vbuffer_end host (last bufs)
                 then butlast bufs @ [last bufs @ [(pg_data pg, offset, n)]]
                 else bufs @ [[(pg_data pg, offset, n)]]) vm1
     else if len \<noteq> 0 then (Inl (MachineException OUT_OF_MEMORY len), vm)
     else (Inr bufs, vm))"
  by pat_completeness auto
termination
  by (relation "measure (\<lambda>(H, host, cnt, addr, len, bufs, vm). len)") (auto simp: PageSize_def)

text \<open>\<open>Memory::memcpy\<close> from such a buffer: the bytes are read when their round copies them.\<close>

definition vbuffer_cells :: "vBuffer \<Rightarrow> (nat \<times> nat) list" where
  "vbuffer_cells b = concat (map (\<lambda>(d, off, n). map (Pair d) [off ..< off + n]) b)"

function memcpy_live :: "'w PageHandlers \<Rightarrow> nat \<Rightarrow> (nat \<times> nat) list \<Rightarrow> 'w VM \<Rightarrow> (unit, 'w VM) thrown" where
  "memcpy_live H dst src vm =
    (if src = [] then (Inr (), vm)
     else
       let offset = dst mod PageSize;
           n = min (PageSize - offset) (length src)
       in case create_writable_pageno H (dst div PageSize) (n \<noteq> PageSize) vm of
            (Inl e, vm1) \<Rightarrow> (Inl e, vm1)
          | (Inr pg, vm1) \<Rightarrow>
              memcpy_live H (add64 dst n) (drop n src)
                (data_upd (pg_data pg) (copy_bytes offset (map (\<lambda>(d, i). vm_data vm1 d i) (take n src))) vm1))"
  by pat_completeness auto
termination
  by (relation "measure (\<lambda>(H, dst, src, vm). length src)") (auto simp: PageSize_def)

fun copy_buffers :: "'w PageHandlers \<Rightarrow> nat \<Rightarrow> vBuffer list \<Rightarrow> 'w VM \<Rightarrow> (unit, 'w VM) thrown" where
  "copy_buffers H dst [] vm = (Inr (), vm)"
| "copy_buffers H dst (b # bs) vm =
    (case memcpy_live H dst (vbuffer_cells b) vm of
       (Inl e, vm1) \<Rightarrow> (Inl e, vm1)
     | (Inr _, vm1) \<Rightarrow> copy_buffers H (add64 dst (vbuffer_len b)) bs vm1)"

declare gather_buffers_from_range.simps [simp del] memcpy_live.simps [simp del]

section \<open>Copies as functions on bytes\<close>

definition moved :: "nat \<Rightarrow> nat \<Rightarrow> nat \<Rightarrow> (nat \<Rightarrow> 'a) \<Rightarrow> nat \<Rightarrow> 'a" where
  "moved dst src n f = (\<lambda>b. if dst \<le> b \<and> b < dst + n then f (src + (b - dst)) else f b)"

lemma moved_0 [simp]: "moved dst src 0 f = f"
  by (auto simp: moved_def fun_eq_iff)

lemma moved_forwards:
  "dst \<le> src \<or> src + (k + m) \<le> dst \<Longrightarrow> moved (dst + k) (src + k) m (moved dst src k f) = moved dst src (k + m) f"
  by (auto simp: moved_def fun_eq_iff)

lemma moved_backwards:
  "src \<le> dst \<Longrightarrow> moved dst src k (moved (dst + k) (src + k) m f) = moved dst src (k + m) f"
  by (auto simp: moved_def fun_eq_iff)

lemma store_load_le:
  "store_le d off n (load_le d' off' n) = (\<lambda>i. if off \<le> i \<and> i < off + n then d' (off' + (i - off)) else d i)"
proof (induction n arbitrary: d off off')
  case 0
  then show ?case by (auto simp: fun_eq_iff)
next
  case (Suc n)
  have q: "(unat (d' off') + 256 * load_le d' (off' + 1) n) div 256 = load_le d' (off' + 1) n"
    using unsigned_less [of "d' off'", where 'a = nat] by simp
  have "(of_nat (unat (d' off') + 256 * load_le d' (off' + 1) n) :: 8 word) = d' off'"
  proof (rule unsigned_word_eqI)
    show "unat (of_nat (unat (d' off') + 256 * load_le d' (off' + 1) n) :: 8 word) = unat (d' off')"
      unfolding unat_of_nat using unsigned_less [of "d' off'", where 'a = nat] by simp
  qed
  with q show ?case
    by (auto simp: Suc fun_eq_iff intro!: arg_cong [where f = d'])
qed

lemma aligned_access:
  assumes "n dvd 4096" and "a mod n = 0"
  shows "access_offset n a = a mod PageSize" and "0 < n \<Longrightarrow> a mod PageSize + n \<le> PageSize"
proof -
  have d: "n dvd a mod 4096"
    using assms by (simp add: dvd_mod mod_eq_0_iff_dvd)
  then show "access_offset n a = a mod PageSize"
    by (simp add: access_offset_def PageSize_def)
  obtain u v where "a mod 4096 = n * u" "4096 = n * v"
    using d assms(1) by (auto simp: dvd_def)
  moreover have "a mod 4096 < 4096"
    by simp
  ultimately have "n * u < n * v"
    by simp
  then have "n * (u + 1) \<le> n * v"
    by (metis Suc_eq_plus1 Suc_leI mult_less_cancel1 mult_le_mono2)
  then show "0 < n \<Longrightarrow> a mod PageSize + n \<le> PageSize"
    using \<open>a mod 4096 = n * u\<close> \<open>4096 = n * v\<close> by (simp add: PageSize_def)
qed

context paged_memory
begin

lemma copy_unit_bytes:
  assumes g: "good vm" "coherent base vm" and n: "n dvd 4096" "0 < n" "dst mod n = 0" "src mod n = 0"
    and a: "dst < 2 ^ 64" "src < 2 ^ 64" and z: "base (dst div PageSize) = zero_data"
    and r: "copy_unit H n dst src vm = (Inr u, vm')"
  shows "good vm' \<and> coherent base vm' \<and> byte_at base vm' = moved dst src n (byte_at base vm)"
proof -
  obtain v vm1 where rd: "mem_read H n src vm = (Inr v, vm1)" and wr: "mem_write H n dst v vm1 = (Inr u, vm')"
    using r by (auto simp: copy_unit_def split: prod.splits sum.splits)
  note R = mem_read_view [OF g a(2) rd]
  have z': "find_page (page_number dst) vm1 \<noteq> None \<or> base (page_number dst) = zero_data"
    using z by (simp add: page_number_def)
  note W = mem_write_view [OF R(2,3) a(1) z' wr]
  note D = aligned_access [OF n(1,3)] and S = aligned_access [OF n(1,4)]
  have pv: "page_view base vm' = (page_view base vm)(dst div PageSize :=
      (\<lambda>i. if dst mod PageSize \<le> i \<and> i < dst mod PageSize + n then page_view base vm (src div PageSize) (src mod PageSize + (i - dst mod PageSize))
           else page_view base vm (dst div PageSize) i))"
    using W(1) R(1,4) D(1) S(1) by (simp add: store_load_le page_number_def)
  have "byte_at base vm' b = moved dst src n (byte_at base vm) b" for b
  proof (cases "dst \<le> b \<and> b < dst + n")
    case True
    then obtain k where b: "b = dst + k" and k: "k < n"
      by (metis add_less_cancel_left le_Suc_ex)
    then show ?thesis
      using page_split [OF D(2) [OF n(2)], of b] page_split [OF S(2) [OF n(2)], of "src + k"]
      by (simp add: byte_at_def pv moved_def)
  next
    case False
    have "\<not> (dst mod PageSize \<le> b mod PageSize \<and> b mod PageSize < dst mod PageSize + n)" if "b div PageSize = dst div PageSize"
      using page_split_inv(1,2) [OF D(2) [OF n(2)] that] False by blast
    then show ?thesis
      using False by (auto simp: byte_at_def pv moved_def)
  qed
  then show ?thesis
    using W(2,3) by blast
qed


lemma copy_units_bytes:
  assumes "good vm" "coherent base vm" and "n dvd 4096" "0 < n" "dst mod n = 0" "src mod n = 0"
    and "dst + n * k < 2 ^ 64" "src + n * k < 2 ^ 64" and "dst \<le> src \<or> src + n * k \<le> dst"
    and "\<And>a. dst \<le> a \<Longrightarrow> a < dst + n * k \<Longrightarrow> base (a div PageSize) = zero_data"
    and "copy_units H n k dst src vm = (Inr u, vm')"
  shows "good vm' \<and> coherent base vm' \<and> byte_at base vm' = moved dst src (n * k) (byte_at base vm)"
  using assms
proof (induction k arbitrary: dst src vm)
  case 0
  then show ?case by simp
next
  case (Suc k)
  obtain u1 vm1 where c: "copy_unit H n dst src vm = (Inr u1, vm1)"
    and rest: "copy_units H n k (add64 dst n) (add64 src n) vm1 = (Inr u, vm')"
    using Suc.prems(11) by (auto split: prod.splits sum.splits)
  have sz: "n * Suc k = n + n * k"
    by simp
  have z: "base (dst div PageSize) = zero_data"
    using Suc.prems(4) Suc.prems(10) [of dst] by simp
  have lt: "dst < 2 ^ 64" "src < 2 ^ 64" and add: "add64 dst n = dst + n" "add64 src n = src + n"
    using Suc.prems(7,8) unfolding sz by (simp_all add: add64_def)
  note U = copy_unit_bytes [OF Suc.prems(1-6) lt z c]
  have "good vm' \<and> coherent base vm' \<and> byte_at base vm' = moved (dst + n) (src + n) (n * k) (byte_at base vm1)"
  proof (rule Suc.IH [OF _ _ Suc.prems(3,4)])
    show "copy_units H n k (dst + n) (src + n) vm1 = (Inr u, vm')"
      using rest by (simp add: add)
    show "base (a div PageSize) = zero_data" if "dst + n \<le> a" "a < dst + n + n * k" for a
      using Suc.prems(10) [of a] that by simp
  qed (use U Suc.prems(5-9) in \<open>auto simp: sz\<close>)
  then show ?case
    using U moved_forwards [of dst src n "n * k" "byte_at base vm"] Suc.prems(9) by (simp add: sz)
qed

lemma copy_while_bytes:
  assumes "good vm" "coherent base vm" and "n dvd 4096" "0 < n" "0 < k" and "n * k \<le> len \<longrightarrow> dst mod n = 0 \<and> src mod n = 0"
    and "dst + len < 2 ^ 64" "src + len < 2 ^ 64" and "dst \<le> src \<or> src + len \<le> dst"
    and "\<And>a. dst \<le> a \<Longrightarrow> a < dst + len \<Longrightarrow> base (a div PageSize) = zero_data"
    and "copy_while H n k dst src len vm = (Inr r, vm')"
  shows "good vm' \<and> coherent base vm' \<and>
    (\<exists>m. m \<le> len \<and> len - m < n * k \<and> m mod n = 0 \<and> r = (dst + m, src + m, len - m) \<and>
      byte_at base vm' = moved dst src m (byte_at base vm))"
  using assms
proof (induction len arbitrary: dst src vm rule: less_induct)
  case (less len)
  show ?case
  proof (cases "n * k \<le> len")
    case False
    then show ?thesis
      using less.prems by (intro conjI exI [of _ 0]) (auto simp: copy_while.simps [of H n k])
  next
    case True
    let ?s = "n * k"
    have s: "0 < ?s"
      using less.prems(4,5) by simp
    obtain u vm1 where c: "copy_units H n k dst src vm = (Inr u, vm1)"
      and rest: "copy_while H n k (add64 dst ?s) (add64 src ?s) (len - ?s) vm1 = (Inr r, vm')"
      using less.prems(11) True s by (subst (asm) copy_while.simps) (auto split: prod.splits sum.splits)
    have al: "dst mod n = 0" "src mod n = 0"
      using less.prems(6) True by simp_all
    have lt: "dst + ?s < 2 ^ 64" "src + ?s < 2 ^ 64" and add: "add64 dst ?s = dst + ?s" "add64 src ?s = src + ?s"
      using less.prems(7,8) True by (simp_all add: add64_def)
    have "good vm1 \<and> coherent base vm1 \<and> byte_at base vm1 = moved dst src ?s (byte_at base vm)"
      by (rule copy_units_bytes [OF less.prems(1-4) al lt _ _ c]) (use less.prems(9,10) True in auto)
    then have U: "good vm1" "coherent base vm1" "byte_at base vm1 = moved dst src ?s (byte_at base vm)"
      by simp_all
    have "good vm' \<and> coherent base vm' \<and>
      (\<exists>m. m \<le> len - ?s \<and> len - ?s - m < n * k \<and> m mod n = 0 \<and> r = (dst + ?s + m, src + ?s + m, len - ?s - m) \<and>
        byte_at base vm' = moved (dst + ?s) (src + ?s) m (byte_at base vm1))"
    proof (rule less.IH [OF _ U(1,2) less.prems(3-5)])
      show "base (a div PageSize) = zero_data" if "dst + ?s \<le> a" "a < dst + ?s + (len - ?s)" for a
        using less.prems(10) [of a] that by simp
    qed (use less.prems(7-9) True s al rest add round_shorter [OF True less.prems(4,5)] in auto)
    then obtain m where m: "good vm'" "coherent base vm'" "m \<le> len - ?s" "len - ?s - m < n * k" "m mod n = 0"
      "r = (dst + ?s + m, src + ?s + m, len - ?s - m)" "byte_at base vm' = moved (dst + ?s) (src + ?s) m (byte_at base vm1)"
      by (elim exE conjE) (rule that)
    have "moved (dst + ?s) (src + ?s) m (byte_at base vm1) = moved dst src (?s + m) (byte_at base vm)"
      unfolding U(3) by (rule moved_forwards) (use less.prems(9) m(3) True in auto)
    then show ?thesis
      using m True by (intro conjI exI [of _ "?s + m"]) (auto simp: add.assoc)
  qed
qed


lemma copy_to_aligned_bytes:
  assumes "good vm" "coherent base vm" and "dst + len < 2 ^ 64" "src + len < 2 ^ 64" and "dst \<le> src \<or> src + len \<le> dst"
    and "\<And>a. dst \<le> a \<Longrightarrow> a < dst + len \<Longrightarrow> base (a div PageSize) = zero_data"
    and "copy_to_aligned H dst src len vm = (Inr r, vm')"
  shows "good vm' \<and> coherent base vm' \<and>
    (\<exists>m. m \<le> len \<and> ((src + m) mod 8 = 0 \<or> m = len) \<and> r = (dst + m, src + m, len - m) \<and>
      byte_at base vm' = moved dst src m (byte_at base vm))"
  using assms
proof (induction len arbitrary: dst src vm)
  case 0
  then show ?case by (simp add: copy_to_aligned.simps [of H])
next
  case (Suc len)
  show ?case
  proof (cases "src mod 8 = 0")
    case True
    then show ?thesis
      using Suc.prems by (intro conjI exI [of _ 0]) (auto simp: copy_to_aligned.simps [of H])
  next
    case False
    obtain u vm1 where c: "copy_unit H 1 dst src vm = (Inr u, vm1)"
      and rest: "copy_to_aligned H (add64 dst 1) (add64 src 1) len vm1 = (Inr r, vm')"
      using Suc.prems(7) False by (subst (asm) copy_to_aligned.simps) (auto split: prod.splits sum.splits)
    have lt: "dst < 2 ^ 64" "src < 2 ^ 64" and add: "add64 dst 1 = dst + 1" "add64 src 1 = src + 1"
      using Suc.prems(3,4) by (simp_all add: add64_def)
    have U: "good vm1" "coherent base vm1" "byte_at base vm1 = moved dst src 1 (byte_at base vm)"
      using copy_unit_bytes [OF Suc.prems(1,2) _ _ _ _ lt _ c] Suc.prems(6) [of dst] by auto
    have "good vm' \<and> coherent base vm' \<and>
      (\<exists>m. m \<le> len \<and> ((src + 1 + m) mod 8 = 0 \<or> m = len) \<and> r = (dst + 1 + m, src + 1 + m, len - m) \<and>
        byte_at base vm' = moved (dst + 1) (src + 1) m (byte_at base vm1))"
    proof (rule Suc.IH [OF U(1,2)])
      show "base (a div PageSize) = zero_data" if "dst + 1 \<le> a" "a < dst + 1 + len" for a
        using Suc.prems(6) [of a] that by simp
    qed (use Suc.prems(3-5) rest add in auto)
    then obtain m where m: "good vm'" "coherent base vm'" "m \<le> len" "(src + 1 + m) mod 8 = 0 \<or> m = len"
      "r = (dst + 1 + m, src + 1 + m, len - m)" "byte_at base vm' = moved (dst + 1) (src + 1) m (byte_at base vm1)"
      by (elim exE conjE) (rule that)
    have "moved (dst + 1) (src + 1) m (byte_at base vm1) = moved dst src (1 + m) (byte_at base vm)"
      unfolding U(3) by (rule moved_forwards) (use Suc.prems(5) m(3) in auto)
    then show ?thesis
      using m by (intro conjI exI [of _ "1 + m"]) auto
  qed
qed

text \<open>
  A copy inside of guest memory, whatever the alignment: unless the destination starts inside of the source,
  it stores the bytes the source had before.
\<close>

lemma copy_within_bytes:
  assumes g: "good vm" "coherent base vm" and lt: "dst + len < 2 ^ 64" "src + len < 2 ^ 64"
    and fwd: "dst \<le> src \<or> src + len \<le> dst" and z: "\<And>a. dst \<le> a \<Longrightarrow> a < dst + len \<Longrightarrow> base (a div PageSize) = zero_data"
    and r: "copy_within H dst src len vm = (Inr u, vm')"
  shows "good vm' \<and> coherent base vm' \<and> byte_at base vm' = moved dst src len (byte_at base vm)"
proof -
  have step: "\<exists>m'. m \<le> m' \<and> m' \<le> len \<and> len - m' < n * k \<and> (m' - m) mod n = 0 \<and> r = (dst + m', src + m', len - m') \<and>
      good vm2 \<and> coherent base vm2 \<and> byte_at base vm2 = moved dst src m' (byte_at base vm)"
    if "good vm1" "coherent base vm1" "byte_at base vm1 = moved dst src m (byte_at base vm)" "m \<le> len"
      "n dvd 4096" "0 < n" "0 < k" "n * k \<le> len - m \<longrightarrow> (dst + m) mod n = 0 \<and> (src + m) mod n = 0"
      "copy_while H n k (dst + m) (src + m) (len - m) vm1 = (Inr r, vm2)" for m n k vm1 vm2 r
  proof -
    have "good vm2 \<and> coherent base vm2 \<and>
      (\<exists>j. j \<le> len - m \<and> len - m - j < n * k \<and> j mod n = 0 \<and> r = (dst + m + j, src + m + j, len - m - j) \<and>
        byte_at base vm2 = moved (dst + m) (src + m) j (byte_at base vm1))"
      by (rule copy_while_bytes [OF that(1,2,5-8) _ _ _ _ that(9)]) (use lt fwd z that(4) in auto)
    then obtain j where j: "good vm2" "coherent base vm2" "j \<le> len - m" "len - m - j < n * k" "j mod n = 0"
      "r = (dst + m + j, src + m + j, len - m - j)" "byte_at base vm2 = moved (dst + m) (src + m) j (byte_at base vm1)"
      by (elim exE conjE) (rule that)
    have "byte_at base vm2 = moved dst src (m + j) (byte_at base vm)"
      unfolding j(7) that(3) by (rule moved_forwards) (use fwd j(3) that(4) in auto)
    then show ?thesis
      using j that(4) by (intro exI [of _ "m + j"]) (auto simp: add.assoc)
  qed
  obtain m vm1 where m: "m \<le> len" "good vm1" "coherent base vm1" "byte_at base vm1 = moved dst src m (byte_at base vm)"
    and tail: "bind_copy (copy_while H 1 1 (dst + m) (src + m) (len - m) vm1) (\<lambda>_ _ _ vm. (Inr (), vm)) = (Inr u, vm')"
  proof (cases "dst mod 8 = src mod 8")
    case False
    then show ?thesis
      using that [of 0 vm] g r by (simp add: copy_within_def bind_copy_def)
  next
    case True
    obtain a vma b vmb c vmc where abc: "copy_to_aligned H dst src len vm = (Inr a, vma)"
      "copy_while H 8 4 (fst a) (fst (snd a)) (snd (snd a)) vma = (Inr b, vmb)"
      "copy_while H 8 1 (fst b) (fst (snd b)) (snd (snd b)) vmb = (Inr c, vmc)"
      and t: "bind_copy (copy_while H 1 1 (fst c) (fst (snd c)) (snd (snd c)) vmc) (\<lambda>_ _ _ vm. (Inr (), vm)) = (Inr u, vm')"
      using r True unfolding copy_within_def bind_copy_def by (auto split: prod.splits sum.splits)
    obtain p where p: "p \<le> len" "(src + p) mod 8 = 0 \<or> p = len" "a = (dst + p, src + p, len - p)"
      "good vma" "coherent base vma" "byte_at base vma = moved dst src p (byte_at base vm)"
    proof -
      have "good vma \<and> coherent base vma \<and> (\<exists>m. m \<le> len \<and> ((src + m) mod 8 = 0 \<or> m = len) \<and>
          a = (dst + m, src + m, len - m) \<and> byte_at base vma = moved dst src m (byte_at base vm))"
        by (rule copy_to_aligned_bytes [OF g lt fwd _ abc(1)]) (rule z)
      then show ?thesis
        using that by (elim exE conjE) simp
    qed
    have al: "(dst + i) mod 8 = (src + i) mod 8" for i
      using True by (metis mod_add_cong)
    have pa: "8 * k \<le> len - p \<longrightarrow> (dst + p) mod 8 = 0 \<and> (src + p) mod 8 = 0" if "0 < k" for k
      using p(2) that by (auto simp: al)
    obtain q where q: "p \<le> q" "q \<le> len" "(q - p) mod 8 = 0" "b = (dst + q, src + q, len - q)"
      "good vmb" "coherent base vmb" "byte_at base vmb = moved dst src q (byte_at base vm)"
      using step [OF p(4-6,1), of 8 4 b vmb] abc(2) p(3) pa [of 4] by auto
    have "(src + q) mod 8 = 0" if "8 * 1 \<le> len - q"
    proof -
      have "(src + p) mod 8 = 0" and qp: "src + q = src + p + (q - p)"
        using p(2) q(1,2) that by auto
      then show ?thesis
        unfolding qp using q(3) by (simp add: mod_eq_0_iff_dvd)
    qed
    then have "8 * 1 \<le> len - q \<longrightarrow> (dst + q) mod 8 = 0 \<and> (src + q) mod 8 = 0"
      using al [of q] by simp
    then obtain s where "q \<le> s" "s \<le> len" "c = (dst + s, src + s, len - s)"
      "good vmc" "coherent base vmc" "byte_at base vmc = moved dst src s (byte_at base vm)"
      using step [OF q(5-7,2), of 8 1 c vmc] abc(3) q(4) by auto
    then show ?thesis
      using that [of s vmc] t by simp
  qed
  obtain d where "copy_while H 1 1 (dst + m) (src + m) (len - m) vm1 = (Inr d, vm')"
    using tail by (auto simp: bind_copy_def split: prod.splits sum.splits)
  from step [OF m(2-4,1) _ _ _ _ this] show ?thesis
    by auto
qed

end

context paged_memory
begin

lemma copy_back_bytes:
  assumes "good vm" "coherent base vm" and "n dvd 4096" "0 < n" "dst mod n = 0" "src mod n = 0" "i mod n = 0"
    and "dst + i < 2 ^ 64" and "src \<le> dst"
    and "\<And>a. dst \<le> a \<Longrightarrow> a < dst + i \<Longrightarrow> base (a div PageSize) = zero_data"
    and "copy_back H n dst src i vm = (Inr u, vm')"
  shows "good vm' \<and> coherent base vm' \<and> byte_at base vm' = moved dst src i (byte_at base vm)"
  using assms
proof (induction i arbitrary: vm rule: less_induct)
  case (less i)
  show ?case
  proof (cases "i = 0")
    case True
    then show ?thesis
      using less.prems by (simp add: copy_back.simps [of H])
  next
    case False
    have n: "n \<le> i"
      using less.prems(7) False by (meson dvd_imp_le mod_eq_0_iff_dvd neq0_conv)
    have ad: "sub64 (add64 dst i) n = dst + (i - n)" "sub64 (add64 src i) n = src + (i - n)"
      using less.prems(8,9) n by (simp_all add: add64_def sub64_exact)
    obtain u1 vm1 where c: "copy_unit H n (dst + (i - n)) (src + (i - n)) vm = (Inr u1, vm1)"
      and rest: "copy_back H n dst src (i - n) vm1 = (Inr u, vm')"
      using less.prems(11) False less.prems(4) by (subst (asm) copy_back.simps) (auto simp: ad split: prod.splits sum.splits)
    have m: "(i - n) mod n = 0" "(dst + (i - n)) mod n = 0" "(src + (i - n)) mod n = 0"
      using less.prems(5-7) n by (simp_all add: mod_eq_0_iff_dvd)
    have lt: "dst + (i - n) < 2 ^ 64" "src + (i - n) < 2 ^ 64" and z: "base ((dst + (i - n)) div PageSize) = zero_data"
      using less.prems(4,8,9) less.prems(10) [of "dst + (i - n)"] n by simp_all
    note U = copy_unit_bytes [OF less.prems(1-4) m(2,3) lt z c]
    have "good vm' \<and> coherent base vm' \<and> byte_at base vm' = moved dst src (i - n) (byte_at base vm1)"
      by (rule less.IH [OF _ _ _ less.prems(3-6) m(1) _ less.prems(9) _ rest])
        (use U less.prems(4,8,10) n in auto)
    then show ?thesis
      using U moved_backwards [OF less.prems(9), of "i - n" n "byte_at base vm"] n by simp
  qed
qed

lemma memset_bytes:
  assumes "good vm" and "coherent base vm" and "dst + len \<le> 2 ^ 64"
    and "\<And>a. dst \<le> a \<Longrightarrow> a < dst + len \<Longrightarrow> base (a div PageSize) = zero_data"
    and "mem_memset H dst v len vm = (Inr u, vm')"
  shows "good vm' \<and> coherent base vm' \<and>
    byte_at base vm' = (\<lambda>b. if dst \<le> b \<and> b < dst + len then v else byte_at base vm b)"
  using assms
proof (induction len arbitrary: dst vm rule: less_induct)
  case (less len)
  show ?case
  proof (cases "len = 0")
    case True
    then show ?thesis
      using less.prems by (auto simp: fun_eq_iff mem_memset.simps [of H dst v 0])
  next
    case False
    define n where "n = min (PageSize - dst mod PageSize) len"
    have "dst mod PageSize < PageSize"
      by (simp add: PageSize_def)
    then have n: "dst mod PageSize + n \<le> PageSize" "n \<le> len" "0 < n"
      using False by (auto simp: n_def)
    obtain pg vm1 where c: "create_writable_pageno H (dst div PageSize) (n \<noteq> PageSize) vm = (Inr pg, vm1)"
      and rest: "mem_memset H (add64 dst n) v (len - n) (data_upd (pg_data pg) (fill_bytes (dst mod PageSize) n v) vm1) = (Inr u, vm')"
      using less.prems(5) False by (subst (asm) mem_memset.simps) (auto simp: Let_def n_def split: prod.splits sum.splits)
    let ?vm2 = "data_upd (pg_data pg) (fill_bytes (dst mod PageSize) n v) vm1"
    have z: "base (dst div PageSize) = zero_data"
      using less.prems(4) [of dst] False by simp
    have "good ?vm2" "coherent base ?vm2" "byte_at base ?vm2 = (\<lambda>b. if dst \<le> b \<and> b < dst + n then v else byte_at base vm b)"
      using store_round [OF less.prems(1,2) z n(1) c, of "fill_bytes (dst mod PageSize) n v" "\<lambda>_. v"] by (auto simp: fill_bytes_def)
    note R = this
    show ?thesis
    proof (cases "n = len")
      case True
      then have "vm' = ?vm2"
        using rest by (subst (asm) mem_memset.simps) simp
      then show ?thesis
        using R True by simp
    next
      case False
      then have lt: "n < len" and add: "add64 dst n = dst + n"
        using n(2) less.prems(3) by (simp_all add: add64_def)
      have "good vm' \<and> coherent base vm' \<and>
        byte_at base vm' = (\<lambda>b. if dst + n \<le> b \<and> b < dst + n + (len - n) then v else byte_at base ?vm2 b)"
        by (rule less.IH [OF _ R(1,2)]) (use less.prems(3,4) rest lt n(3) add in auto)
      then show ?thesis
        using lt unfolding R(3) by (auto simp: fun_eq_iff)
    qed
  qed
qed

end

section \<open>A master VM never fails to copy\<close>

lemma accessible_caches [simp]:
  "accessible (vm\<lparr>vm_mem := (vm_mem vm)\<lparr>m_rd_cache := c\<rparr>\<rparr>) = accessible vm"
  "accessible (vm\<lparr>vm_mem := (vm_mem vm)\<lparr>m_wr_cache := c\<rparr>\<rparr>) = accessible vm"
  by (auto simp: accessible_def fun_eq_iff find_page_def)

lemma master_read_ok:
  assumes "\<forall>q. accessible vm q"
  shows "\<exists>v vm1. mem_read (master_handlers sb se) n a vm = (Inr v, vm1) \<and> (\<forall>q. accessible vm1 q)"
proof -
  obtain pg where g: "get_pageno (master_handlers sb se) (page_number a) vm = (Inr pg, vm)" "pa_read (pg_attr pg)"
    using spec [OF assms, of "page_number a"]
    by (auto simp: get_pageno_def accessible_def master_handlers_def default_page_read_def cow_page_def default_attr_def split: option.splits)
  then show ?thesis
    using assms by (auto simp: mem_read_def cached_readable_page_def get_readable_pageno_def Let_def split: prod.splits)
qed

lemma master_write_ok:
  assumes "\<forall>q. accessible vm q"
  shows "\<exists>vm1. mem_write (master_handlers sb se) n a v vm = (Inr (), vm1) \<and> (\<forall>q. accessible vm1 q)"
  using assms master_create_ok [of vm "page_number a" sb se True]
  by (auto simp: mem_write_def cached_writable_page_def Let_def split: prod.splits)

lemma master_copy_unit_ok:
  assumes "\<forall>q. accessible vm q"
  shows "\<exists>vm1. copy_unit (master_handlers sb se) n dst src vm = (Inr (), vm1) \<and> (\<forall>q. accessible vm1 q)"
proof -
  obtain v vm1 where r: "mem_read (master_handlers sb se) n src vm = (Inr v, vm1)" "\<forall>q. accessible vm1 q"
    using master_read_ok [OF assms] by blast
  then show ?thesis
    using master_write_ok [OF r(2)] by (simp add: copy_unit_def)
qed

lemma master_copy_units_ok:
  assumes "\<forall>q. accessible vm q"
  shows "\<exists>vm1. copy_units (master_handlers sb se) n k dst src vm = (Inr (), vm1) \<and> (\<forall>q. accessible vm1 q)"
  using assms
proof (induction k arbitrary: dst src vm)
  case (Suc k)
  obtain vm1 where "copy_unit (master_handlers sb se) n dst src vm = (Inr (), vm1)" "\<forall>q. accessible vm1 q"
    using master_copy_unit_ok [OF Suc.prems] by blast
  then show ?case
    using Suc.IH [of vm1 "add64 dst n" "add64 src n"] by simp
qed simp

lemma master_copy_while_ok:
  assumes "\<forall>q. accessible vm q"
  shows "\<exists>r vm1. copy_while (master_handlers sb se) n k dst src len vm = (Inr r, vm1) \<and> (\<forall>q. accessible vm1 q)"
  using assms
proof (induction len arbitrary: dst src vm rule: less_induct)
  case (less len)
  obtain vm1 where c: "copy_units (master_handlers sb se) n k dst src vm = (Inr (), vm1)" "\<forall>q. accessible vm1 q"
    using master_copy_units_ok [OF less.prems] by blast
  then show ?case
    using less.IH [of "len - n * k" vm1 "add64 dst (n * k)" "add64 src (n * k)"] less.prems round_shorter [of n k len]
    by (subst copy_while.simps) auto
qed

lemma master_copy_to_aligned_ok:
  assumes "\<forall>q. accessible vm q"
  shows "\<exists>r vm1. copy_to_aligned (master_handlers sb se) dst src len vm = (Inr r, vm1) \<and> (\<forall>q. accessible vm1 q)"
  using assms
proof (induction len arbitrary: dst src vm)
  case 0
  then show ?case by (simp add: copy_to_aligned.simps)
next
  case (Suc len)
  obtain vm1 where c: "copy_unit (master_handlers sb se) 1 dst src vm = (Inr (), vm1)" "\<forall>q. accessible vm1 q"
    using master_copy_unit_ok [OF Suc.prems] by blast
  then show ?case
    using Suc.IH [of vm1 "add64 dst 1" "add64 src 1"] Suc.prems by (subst copy_to_aligned.simps) auto
qed

lemma bind_copy_ok:
  assumes "\<exists>r vm1. c = (Inr r, vm1) \<and> P vm1" and "\<And>d s l vm1. P vm1 \<Longrightarrow> \<exists>y vm2. f d s l vm1 = (Inr y, vm2) \<and> P vm2"
  shows "\<exists>y vm2. bind_copy c f = (Inr y, vm2) \<and> P vm2"
  using assms by (fastforce simp: bind_copy_def)

lemma master_copy_within_ok:
  assumes "\<forall>q. accessible vm q"
  shows "\<exists>u vm1. copy_within (master_handlers sb se) dst src len vm = (Inr u, vm1) \<and> (\<forall>q. accessible vm1 q)"
proof -
  let ?H = "master_handlers sb se" and ?P = "\<lambda>vm. \<forall>q. accessible vm q"
  have start: "\<exists>r vm1. (if dst mod 8 = src mod 8 then
         bind_copy (copy_to_aligned ?H dst src len vm) (\<lambda>dst src len vm.
         bind_copy (copy_while ?H 8 4 dst src len vm) (\<lambda>dst src len vm. copy_while ?H 8 1 dst src len vm))
       else (Inr (dst, src, len), vm)) = (Inr r, vm1) \<and> ?P vm1"
  proof (cases "dst mod 8 = src mod 8")
    case True
    show ?thesis
      unfolding if_P [OF True]
      by (rule bind_copy_ok [where P = ?P], rule master_copy_to_aligned_ok [OF assms], rule bind_copy_ok [where P = ?P])
        (rule master_copy_while_ok, assumption)+
  next
    case False
    then show ?thesis
      using assms by simp
  qed
  have tail: "\<exists>y vm2. bind_copy (copy_while ?H 1 1 d s l vm1) (\<lambda>_ _ _ vm. (Inr (), vm)) = (Inr y, vm2) \<and> ?P vm2" if "?P vm1" for d s l vm1
    by (rule bind_copy_ok [where P = ?P], rule master_copy_while_ok [OF that]) simp
  show ?thesis
    unfolding copy_within_def by (rule bind_copy_ok [where P = ?P, OF start tail])
qed

lemma master_copy_back_ok:
  assumes "\<forall>q. accessible vm q"
  shows "\<exists>vm1. copy_back (master_handlers sb se) n dst src i vm = (Inr (), vm1) \<and> (\<forall>q. accessible vm1 q)"
  using assms
proof (induction i arbitrary: vm rule: less_induct)
  case (less i)
  obtain vm1 where "copy_unit (master_handlers sb se) n (sub64 (add64 dst i) n) (sub64 (add64 src i) n) vm = (Inr (), vm1)" "\<forall>q. accessible vm1 q"
    using master_copy_unit_ok [OF less.prems] by blast
  then show ?case
    using less.IH [of "i - n" vm1] less.prems by (subst copy_back.simps) auto
qed

lemma master_memset_ok:
  assumes "\<forall>q. accessible vm q"
  shows "\<exists>vm1. mem_memset (master_handlers sb se) dst v len vm = (Inr (), vm1) \<and> (\<forall>q. accessible vm1 q)"
  using assms
proof (induction len arbitrary: dst vm rule: less_induct)
  case (less len)
  let ?n = "min (PageSize - dst mod PageSize) len"
  obtain pg vm1 where c: "create_writable_pageno (master_handlers sb se) (dst div PageSize) (?n \<noteq> PageSize) vm = (Inr pg, vm1)"
    "\<forall>q. accessible vm1 q"
    using master_create_ok [of vm "dst div PageSize" sb se "?n \<noteq> PageSize"] less.prems by blast
  have "len \<noteq> 0 \<Longrightarrow> len - ?n < len"
    by (simp add: PageSize_def)
  then show ?case
    using less.IH [of "len - ?n" "data_upd (pg_data pg) (fill_bytes (dst mod PageSize) ?n v) vm1" "add64 dst ?n"] c less.prems
    by (subst mem_memset.simps) (auto simp: Let_def)
qed

section \<open>Comparison\<close>

lemma master_readable:
  assumes coh: "coherent (\<lambda>_. zero_data) vm" and r: "get_readable_pageno (master_handlers sb se) p vm = (Inr pg, vm1)"
  shows "vm1 = vm" and "vm_data vm (pg_data pg) = page_view (\<lambda>_. zero_data) vm p"
  using r coherentD(7) [OF coh]
  by (auto simp: get_readable_pageno_def get_pageno_def master_handlers_def default_page_read_def protection_fault_def page_view_def cow_page_def
      split: option.splits if_splits)

lemma one_page:
  assumes "p + len < 2 ^ 64" and "page_number p = sub64 (add64 p len) 1 div PageSize" and "i < len"
  shows "(p + i) div PageSize = p div PageSize" and "(p + i) mod PageSize = p mod PageSize + i"
proof -
  have "sub64 (add64 p len) 1 = p + (len - 1)"
    using assms(1,3) by (simp add: add64_def sub64_exact)
  then have q: "p div 4096 = (p + (len - 1)) div 4096"
    using assms(2) by (simp add: page_number_def PageSize_def)
  have "p mod PageSize + len \<le> PageSize"
    using q assms(3) div_mult_mod_eq [of p 4096] div_mult_mod_eq [of "p + (len - 1)" 4096] mod_less_divisor [of 4096 "p + (len - 1)"]
    unfolding PageSize_def by linarith
  from page_split [OF this, of "p + i"] assms(3)
  show "(p + i) div PageSize = p div PageSize" "(p + i) mod PageSize = p mod PageSize + i"
    by simp_all
qed

lemma memcmp_loop_zero:
  assumes "coherent (\<lambda>_. zero_data) vm" and "p1 + len < 2 ^ 64" "p2 + len < 2 ^ 64"
    and "memcmp_loop (master_handlers sb se) p1 p2 len vm = (Inr r, vm')"
  shows "r = 0 \<longleftrightarrow> (\<forall>i < len. byte_at (\<lambda>_. zero_data) vm (p1 + i) = byte_at (\<lambda>_. zero_data) vm (p2 + i))"
  using assms
proof (induction len arbitrary: p1 p2)
  case 0
  then show ?case by (simp add: memcmp_loop.simps)
next
  case (Suc len)
  let ?b = "byte_at (\<lambda>_. zero_data) vm"
  obtain pg1 vm1 where g1: "get_readable_pageno (master_handlers sb se) (page_number p1) vm = (Inr pg1, vm1)"
    using Suc.prems(4) by (subst (asm) memcmp_loop.simps) (auto split: prod.splits sum.splits)
  note R1 = master_readable [OF Suc.prems(1) g1]
  obtain pg2 vm2 where g2: "get_readable_pageno (master_handlers sb se) (page_number p2) vm = (Inr pg2, vm2)"
    using Suc.prems(4) g1 R1(1) by (subst (asm) memcmp_loop.simps) (auto split: prod.splits sum.splits)
  note R2 = master_readable [OF Suc.prems(1) g2]
  have v: "vm_data vm (pg_data pg1) (p1 mod PageSize) = ?b p1" "vm_data vm (pg_data pg2) (p2 mod PageSize) = ?b p2"
    by (simp_all add: R1(2) R2(2) byte_at_def page_number_def)
  have add: "add64 p1 1 = p1 + 1" "add64 p2 1 = p2 + 1"
    using Suc.prems(2,3) by (simp_all add: add64_def)
  have c: "(if ?b p1 \<noteq> ?b p2 then (Inr (uint (?b p1) - uint (?b p2)), vm)
      else memcmp_loop (master_handlers sb se) (p1 + 1) (p2 + 1) len vm) = (Inr r, vm')"
    using Suc.prems(4) by (subst (asm) memcmp_loop.simps) (auto simp: g1 g2 R1(1) R2(1) v add Let_def simp del: One_nat_def split: if_splits)
  have all: "(\<forall>i < Suc len. ?b (p1 + i) = ?b (p2 + i)) \<longleftrightarrow> ?b p1 = ?b p2 \<and> (\<forall>i < len. ?b (p1 + 1 + i) = ?b (p2 + 1 + i))"
    by (simp add: All_less_Suc2)
  show ?case
    using c Suc.IH [OF Suc.prems(1), of "p1 + 1" "p2 + 1"] Suc.prems(2,3) unfolding all
    by (cases "?b p1 = ?b p2") (auto simp: word_uint_eq_iff)
qed

lemma memcmp_zero_iff:
  assumes hm: "\<And>xs ys. length xs = length ys \<Longrightarrow> host_memcmp xs ys = 0 \<longleftrightarrow> xs = ys"
    and coh: "coherent (\<lambda>_. zero_data) vm" and lt: "p1 + len < 2 ^ 64" "p2 + len < 2 ^ 64"
    and r: "mem_memcmp host_memcmp (master_handlers sb se) p1 p2 len vm = (Inr r, vm')"
  shows "r = 0 \<longleftrightarrow> (\<forall>i < len. byte_at (\<lambda>_. zero_data) vm (p1 + i) = byte_at (\<lambda>_. zero_data) vm (p2 + i))"
proof -
  have nw: "\<not> add64 p1 len < p1" "\<not> add64 p2 len < p2"
    using lt by (simp_all add: add64_def)
  show ?thesis
  proof (cases "page_number p1 = sub64 (add64 p1 len) 1 div PageSize \<and> page_number p2 = sub64 (add64 p2 len) 1 div PageSize")
    case False
    show ?thesis
      using r unfolding mem_memcmp_def if_not_P [OF nw(1)] if_not_P [OF nw(2)] if_not_P [OF False] by (rule memcmp_loop_zero [OF coh lt])
  next
    case True
    obtain pg1 vm1 where g1: "get_readable_pageno (master_handlers sb se) (page_number p1) vm = (Inr pg1, vm1)"
      using r True nw by (auto simp: mem_memcmp_def split: prod.splits sum.splits)
    note R1 = master_readable [OF coh g1]
    obtain pg2 vm2 where g2: "get_readable_pageno (master_handlers sb se) (page_number p2) vm = (Inr pg2, vm2)"
      using r True nw g1 R1(1) by (auto simp: mem_memcmp_def split: prod.splits sum.splits)
    note R2 = master_readable [OF coh g2]
    have b: "page_view (\<lambda>_. zero_data) vm (page_number p) (p mod PageSize + i) = byte_at (\<lambda>_. zero_data) vm (p + i)"
      if "p + len < 2 ^ 64" "page_number p = sub64 (add64 p len) 1 div PageSize" "i < len" for p i
      using one_page [OF that] by (simp add: byte_at_def page_number_def)
    have "map (vm_data vm (pg_data pg1)) [p1 mod PageSize ..< p1 mod PageSize + len] = map (\<lambda>i. byte_at (\<lambda>_. zero_data) vm (p1 + i)) [0 ..< len]"
      "map (vm_data vm (pg_data pg2)) [p2 mod PageSize ..< p2 mod PageSize + len] = map (\<lambda>i. byte_at (\<lambda>_. zero_data) vm (p2 + i)) [0 ..< len]"
      unfolding R1(2) R2(2) using b [OF lt(1)] b [OF lt(2)] True by (auto intro!: nth_equalityI)
    then show ?thesis
      using r True nw g1 g2 R1(1) R2(1) hm by (auto simp: mem_memcmp_def)
  qed
qed

end
