(* ===== verification/Native_Libc.thy ===== *)
theory Native_Libc
  imports Heap_Ops Guest_Copy Cpu
begin

text \<open>
  The native libc (\<open>native_libc.cpp\<close> under \<open>src/src/libriscv/lib/libriscv\<close>): system calls that
  give guests a heap and fast memory and string functions.  Arguments come from the registers
  \<open>a0\<close>, \<open>a1\<close>, \<open>a2\<close>, the result goes to \<open>a0\<close>, and each call adds a penalty to the
  instruction counter.  A call that does not return because of a loop in the chunk list would be \<open>None\<close>.
\<close>

section \<open>The machine\<close>

record 'w Machine =
  mc_cpu :: "'w CPU"
  mc_arena :: "Arena option"

text \<open>What the handlers use from outside of this component.\<close>

record 'w Libc =
  lc_pages :: "'w PageHandlers"
  lc_unknown_free :: "nat \<Rightarrow> ArenaChunk option \<Rightarrow> int"
  lc_unknown_realloc :: "nat \<Rightarrow> nat \<Rightarrow> Arena \<Rightarrow> (nat \<times> nat, Arena) thrown option"
  lc_memcmp :: "8 word list \<Rightarrow> 8 word list \<Rightarrow> int"
  lc_host :: "nat \<Rightarrow> nat"
  lc_backtrace :: "'w Machine \<Rightarrow> 'w Machine"

type_synonym 'w native_call = "'w Machine \<Rightarrow> (unit, 'w Machine) thrown option"

definition MEMCPY_MAX :: nat where "MEMCPY_MAX = 1024 * 1024 * 512"
definition MEMCPY_BUFFERS :: nat where "MEMCPY_BUFFERS = 256"
definition STRLEN_MAX :: nat where "STRLEN_MAX = 64000"
definition COMPLEX_CALL_PENALTY :: "64 word" where "COMPLEX_CALL_PENALTY = 2000"
definition NATIVE_SYSCALLS_BASE :: nat where "NATIVE_SYSCALLS_BASE = 580"

definition sysarg :: "nat \<Rightarrow> 'w Machine \<Rightarrow> 64 word" where
  "sysarg i M = reg (mc_cpu M) (REG_ARG0 + i)"

definition set_result :: "64 word \<Rightarrow> 'w Machine \<Rightarrow> 'w Machine" where
  "set_result v M = M\<lparr>mc_cpu := set_reg REG_ARG0 v (mc_cpu M)\<rparr>"

text \<open>The penalty is a 32-bit parameter.\<close>

definition penalize :: "64 word \<Rightarrow> 'w Machine \<Rightarrow> 'w Machine" where
  "penalize v M = M\<lparr>mc_cpu := (mc_cpu M)\<lparr>cpu_counter := cpu_counter (mc_cpu M) + ucast (ucast v :: 32 word)\<rparr>\<rparr>"

definition mc_vm :: "'w Machine \<Rightarrow> 'w VM" where
  "mc_vm M = cpu_vm (mc_cpu M)"

definition set_vm :: "'w VM \<Rightarrow> 'w Machine \<Rightarrow> 'w Machine" where
  "set_vm vm M = M\<lparr>mc_cpu := (mc_cpu M)\<lparr>cpu_vm := vm\<rparr>\<rparr>"

text \<open>A memory operation inside of a handler, and the rest of the handler, which an exception skips.\<close>

definition on_memory :: "('a, 'w VM) thrown \<Rightarrow> ('a \<Rightarrow> 'w Machine \<Rightarrow> (unit, 'w Machine) thrown) \<Rightarrow> 'w Machine \<Rightarrow> (unit, 'w Machine) thrown" where
  "on_memory r k M = (case r of (Inl e, vm) \<Rightarrow> (Inl e, set_vm vm M) | (Inr x, vm) \<Rightarrow> k x (set_vm vm M))"

definition finished :: "'w Machine \<Rightarrow> (unit, 'w Machine) thrown" where
  "finished M = (Inr (), M)"

definition with_arena :: "(Arena \<Rightarrow> 'w native_call) \<Rightarrow> 'w native_call" where
  "with_arena f M =
    (case mc_arena M of
       None \<Rightarrow> Some (Inl (MachineException SYSTEM_CALL_FAILED 0), M)
     | Some a \<Rightarrow> f a M)"

section \<open>The heap\<close>

definition sys_malloc :: "'w native_call" where
  "sys_malloc = with_arena (\<lambda>a M.
    case arena_malloc (unat (sysarg 0 M)) a of
      None \<Rightarrow> None
    | Some (Inl e, a1) \<Rightarrow> Some (Inl e, M\<lparr>mc_arena := Some a1\<rparr>)
    | Some (Inr data, a1) \<Rightarrow>
        Some (finished (penalize COMPLEX_CALL_PENALTY (set_result (of_nat data) (M\<lparr>mc_arena := Some a1\<rparr>)))))"

definition sys_calloc :: "'w Libc \<Rightarrow> 'w native_call" where
  "sys_calloc L = with_arena (\<lambda>a M.
    let len = sysarg 0 M * sysarg 1 M in
    case arena_malloc (unat len) a of
      None \<Rightarrow> None
    | Some (Inl e, a1) \<Rightarrow> Some (Inl e, M\<lparr>mc_arena := Some a1\<rparr>)
    | Some (Inr data, a1) \<Rightarrow>
        let M1 = M\<lparr>mc_arena := Some a1\<rparr>;
            fin = (\<lambda>M. finished (penalize COMPLEX_CALL_PENALTY (set_result (of_nat data) M)))
        in Some (if data \<noteq> 0
             then on_memory (mem_memset (lc_pages L) data 0 (unat len) (mc_vm M1)) (\<lambda>_ M. fin (penalize len M)) M1
             else fin M1))"

text \<open>Pointers are 32-bit values to the arena.\<close>

definition sys_realloc :: "'w Libc \<Rightarrow> 'w native_call" where
  "sys_realloc L = with_arena (\<lambda>a M.
    let src = sysarg 0 M; newlen = sysarg 1 M in
    case arena_realloc (lc_unknown_realloc L) (unat src mod 2 ^ 32) (unat newlen) a of
      None \<Rightarrow> None
    | Some (Inl e, a1) \<Rightarrow> Some (Inl e, M\<lparr>mc_arena := Some a1\<rparr>)
    | Some (Inr (data, srclen), a1) \<Rightarrow>
        let M1 = M\<lparr>mc_arena := Some a1\<rparr>;
            fin = (\<lambda>M. finished (penalize COMPLEX_CALL_PENALTY (set_result (of_nat data) M)))
        in Some (if data \<noteq> unat src \<and> srclen \<noteq> 0
             then on_memory (copy_within (lc_pages L) data (unat src) (min srclen (unat newlen)) (mc_vm M1))
                    (\<lambda>_ M. fin (penalize (2 * of_nat srclen) M)) M1
             else fin M1))"

definition sys_free :: "'w Libc \<Rightarrow> 'w native_call" where
  "sys_free L M =
    (if sysarg 0 M \<noteq> 0 then
       with_arena (\<lambda>a M.
         let (ret, a1) = arena_free (lc_unknown_free L) (unat (sysarg 0 M) mod 2 ^ 32) a;
             M1 = M\<lparr>mc_arena := Some a1\<rparr>
         in Some (if ret < 0 then (Inl (MachineException SYSTEM_CALL_FAILED (unat (sysarg 0 M))), M1)
                  else finished (penalize COMPLEX_CALL_PENALTY M1))) M
     else Some (finished (penalize COMPLEX_CALL_PENALTY M)))"

definition le_bytes :: "nat \<Rightarrow> nat \<Rightarrow> 8 word list" where
  "le_bytes n v = map (\<lambda>i. of_nat (v div 256 ^ i)) [0 ..< n]"

definition sys_meminfo :: "'w Libc \<Rightarrow> 'w native_call" where
  "sys_meminfo L = with_arena (\<lambda>a M.
    case (bytes_free a, bytes_used a) of
      (Some bf, Some bu) \<Rightarrow>
        let dst = sysarg 0 M;
            fin = (\<lambda>ret M. finished (penalize COMPLEX_CALL_PENALTY (set_result ret M)))
        in Some (if dst \<noteq> 0
             then on_memory (mem_memcpy (lc_pages L) (unat dst) (le_bytes 8 bf @ le_bytes 8 bu @ le_bytes 8 (chunks_used a)) (mc_vm M))
                    (\<lambda>_ M. fin 0 M) M
             else fin (- 1) M)
    | _ \<Rightarrow> None)"

section \<open>Memory and strings\<close>

definition sys_memcpy :: "'w Libc \<Rightarrow> 'w native_call" where
  "sys_memcpy L M =
    Some (on_memory (copy_within (lc_pages L) (unat (sysarg 0 M)) (unat (sysarg 1 M)) (unat (sysarg 2 M)) (mc_vm M))
      (\<lambda>_ M'. finished (penalize (2 * sysarg 2 M) M')) M)"

definition sys_memset :: "'w Libc \<Rightarrow> 'w native_call" where
  "sys_memset L M =
    (let len = unat (sysarg 2 M) in
     if MEMCPY_MAX < len then Some (Inl (MachineException SYSTEM_CALL_FAILED len), M)
     else Some (on_memory (mem_memset (lc_pages L) (unat (sysarg 0 M)) (ucast (sysarg 1 M)) len (mc_vm M))
       (\<lambda>_ M'. finished (penalize (sysarg 2 M) M')) M))"

definition memmove_memory :: "'w Libc \<Rightarrow> nat \<Rightarrow> nat \<Rightarrow> nat \<Rightarrow> 'w VM \<Rightarrow> (unit, 'w VM) thrown" where
  "memmove_memory L dst src len vm =
    (if dst < src then
       case gather_buffers_from_range (lc_pages L) (lc_host L) MEMCPY_BUFFERS src len [] vm of
         (Inl e, vm1) \<Rightarrow> (Inl e, vm1)
       | (Inr bufs, vm1) \<Rightarrow> copy_buffers (lc_pages L) dst bufs vm1
     else if 0 < len then
       if MEMCPY_MAX < len then (Inl (MachineException SYSTEM_CALL_FAILED len), vm)
       else if dst mod 8 = 0 \<and> src mod 8 = 0 \<and> len mod 8 = 0 then copy_back (lc_pages L) 8 dst src len vm
       else copy_back (lc_pages L) 1 dst src len vm
     else (Inr (), vm))"

definition sys_memmove :: "'w Libc \<Rightarrow> 'w native_call" where
  "sys_memmove L M =
    Some (on_memory (memmove_memory L (unat (sysarg 0 M)) (unat (sysarg 1 M)) (unat (sysarg 2 M)) (mc_vm M))
      (\<lambda>_ M'. finished (penalize (2 * sysarg 2 M) M')) M)"

definition sys_memcmp :: "'w Libc \<Rightarrow> 'w native_call" where
  "sys_memcmp L M =
    (let len = unat (sysarg 2 M) in
     if MEMCPY_MAX < len then Some (Inl (MachineException SYSTEM_CALL_FAILED len), M)
     else let M1 = penalize (2 * sysarg 2 M) M in
       Some (on_memory (mem_memcmp (lc_memcmp L) (lc_pages L) (unat (sysarg 0 M)) (unat (sysarg 1 M)) len (mc_vm M1))
         (\<lambda>r M'. finished (set_result (of_int r) M')) M1))"

definition sys_strlen :: "'w Libc \<Rightarrow> 'w native_call" where
  "sys_strlen L M =
    Some (on_memory (mem_strlen (lc_pages L) (unat (sysarg 0 M)) STRLEN_MAX (mc_vm M))
      (\<lambda>len M'. finished (set_result (of_nat len) (penalize (2 * of_nat len) M'))) M)"

function strncmp_loop :: "'w PageHandlers \<Rightarrow> nat \<Rightarrow> nat \<Rightarrow> nat \<Rightarrow> nat \<Rightarrow> 'w VM \<Rightarrow> (int \<times> nat, 'w VM) thrown" where
  "strncmp_loop H a1 a2 maxlen len vm =
    (if len < maxlen then
       case mem_read H 1 a1 vm of
         (Inl e, vm1) \<Rightarrow> (Inl e, vm1)
       | (Inr v1, vm1) \<Rightarrow>
           (case mem_read H 1 a2 vm1 of
              (Inl e, vm2) \<Rightarrow> (Inl e, vm2)
            | (Inr v2, vm2) \<Rightarrow>
                if v1 \<noteq> v2 \<or> v1 = 0 then (Inr (int v1 - int v2, len), vm2)
                else strncmp_loop H (add64 a1 1) (add64 a2 1) maxlen (len + 1) vm2)
     else (Inr (0, len), vm))"
  by pat_completeness auto
termination
  by (relation "measure (\<lambda>(H, a1, a2, maxlen, len, vm). maxlen - len)") auto

definition sys_strncmp :: "'w Libc \<Rightarrow> 'w native_call" where
  "sys_strncmp L M =
    (let maxlen = min (unat (ucast (sysarg 2 M) :: 32 word)) STRLEN_MAX in
     Some (on_memory (strncmp_loop (lc_pages L) (unat (sysarg 0 M)) (unat (sysarg 1 M)) maxlen 0 (mc_vm M))
       (\<lambda>(r, len) M'. finished (set_result (of_int r) (penalize (2 + 2 * of_nat len) M'))) M))"

section \<open>The table of native calls\<close>

text \<open>
  The handlers by system call number: the heap at \<open>NATIVE_SYSCALLS_BASE\<close>, memory and strings five after it.
  Numbers that this component does not install are left to \<open>other\<close>.
\<close>

definition native_syscall :: "'w Libc \<Rightarrow> (nat \<Rightarrow> 'w native_call) \<Rightarrow> nat \<Rightarrow> 'w native_call" where
  "native_syscall L other sysn =
    (if sysn = NATIVE_SYSCALLS_BASE then sys_malloc
     else if sysn = NATIVE_SYSCALLS_BASE + 1 then sys_calloc L
     else if sysn = NATIVE_SYSCALLS_BASE + 2 then sys_realloc L
     else if sysn = NATIVE_SYSCALLS_BASE + 3 then sys_free L
     else if sysn = NATIVE_SYSCALLS_BASE + 4 then sys_meminfo L
     else if sysn = NATIVE_SYSCALLS_BASE + 5 then sys_memcpy L
     else if sysn = NATIVE_SYSCALLS_BASE + 6 then sys_memset L
     else if sysn = NATIVE_SYSCALLS_BASE + 7 then sys_memmove L
     else if sysn = NATIVE_SYSCALLS_BASE + 8 then sys_memcmp L
     else if sysn = NATIVE_SYSCALLS_BASE + 10 then sys_strlen L
     else if sysn = NATIVE_SYSCALLS_BASE + 11 then sys_strncmp L
     else if sysn = NATIVE_SYSCALLS_BASE + 18 then (\<lambda>M. Some (finished (set_result (- 1) M)))
     else if sysn = NATIVE_SYSCALLS_BASE + 19 then
       (\<lambda>M. Some (finished (penalize (100 * COMPLEX_CALL_PENALTY) (set_result 0 (lc_backtrace L M)))))
     else other sysn)"
section \<open>Basic facts\<close>

lemma machine_sel [simp]:
  "mc_arena (set_result v M) = mc_arena M" "mc_arena (penalize v M) = mc_arena M" "mc_arena (set_vm vm M) = mc_arena M"
  "mc_vm (set_result v M) = mc_vm M" "mc_vm (penalize v M) = mc_vm M" "mc_vm (set_vm vm M) = vm" "mc_vm (M\<lparr>mc_arena := x\<rparr>) = mc_vm M"
  "sysarg i (penalize v M) = sysarg i M" "sysarg i (set_vm vm M) = sysarg i M" "sysarg i (M\<lparr>mc_arena := x\<rparr>) = sysarg i M"
  "sysarg 0 (set_result v M) = v"
  by (simp_all add: set_result_def penalize_def set_vm_def mc_vm_def sysarg_def set_reg_def reg_def)

lemma finished_iff [simp]: "finished M = (r, M') \<longleftrightarrow> r = Inr () \<and> M' = M"
  by (auto simp: finished_def)

abbreviation no_base :: "nat \<Rightarrow> PageData" where
  "no_base \<equiv> \<lambda>_. zero_data"

text \<open>A master VM with a heap: the invariants its native calls rely on and keep.\<close>

definition ready :: "nat \<Rightarrow> nat \<Rightarrow> 'w Machine \<Rightarrow> Arena \<Rightarrow> bool" where
  "ready base lim M a \<longleftrightarrow> mc_arena M = Some a \<and> arena_inv base lim a \<and> coherent no_base (mc_vm M) \<and> (\<forall>q. accessible (mc_vm M) q)"

definition bytes :: "'w Machine \<Rightarrow> nat \<Rightarrow> 8 word" where
  "bytes M = byte_at no_base (mc_vm M)"

lemma bytes_sel [simp]:
  "bytes (set_result v M) = bytes M" "bytes (penalize v M) = bytes M" "bytes (M\<lparr>mc_arena := x\<rparr>) = bytes M"
  by (simp_all add: bytes_def)

lemma ready_sel [simp]:
  "ready base lim (set_result v M) a = ready base lim M a" "ready base lim (penalize v M) a = ready base lim M a"
  by (simp_all add: ready_def)

lemma copy_within_ready:
  assumes rd: "ready base lim M a" and lt: "dst + len < 2 ^ 64" "src + len < 2 ^ 64" "dst \<le> src \<or> src + len \<le> dst"
  obtains vm where "copy_within (master_handlers sb se) dst src len (mc_vm M) = (Inr (), vm)"
    "ready base lim (set_vm vm M) a" "bytes (set_vm vm M) = moved dst src len (bytes M)"
proof -
  obtain vm where c: "copy_within (master_handlers sb se) dst src len (mc_vm M) = (Inr (), vm)" "\<forall>q. accessible vm q"
    using master_copy_within_ok [of "mc_vm M" sb se dst src len] rd by (auto simp: ready_def)
  then show ?thesis
    using that [OF c(1)] master_memory.copy_within_bytes [OF TrueI _ lt refl c(1)] rd by (simp add: ready_def bytes_def)
qed

lemma memset_ready:
  assumes rd: "ready base lim M a" and lt: "dst + len \<le> 2 ^ 64"
  obtains vm where "mem_memset (master_handlers sb se) dst v len (mc_vm M) = (Inr (), vm)"
    "ready base lim (set_vm vm M) a" "bytes (set_vm vm M) = (\<lambda>b. if dst \<le> b \<and> b < dst + len then v else bytes M b)"
proof -
  obtain vm where c: "mem_memset (master_handlers sb se) dst v len (mc_vm M) = (Inr (), vm)" "\<forall>q. accessible vm q"
    using master_memset_ok [of "mc_vm M" sb se dst v len] rd by (auto simp: ready_def)
  then show ?thesis
    using that [OF c(1)] master_memory.memset_bytes [OF TrueI _ lt refl c(1)] rd by (simp add: ready_def bytes_def cong: if_cong)
qed
lemma copy_back_ready:
  assumes rd: "ready base lim M a" and n: "n dvd 4096" "0 < n" "dst mod n = 0" "src mod n = 0" "len mod n = 0"
    and lt: "dst + len < 2 ^ 64" "src \<le> dst"
  obtains vm where "copy_back (master_handlers sb se) n dst src len (mc_vm M) = (Inr (), vm)"
    "ready base lim (set_vm vm M) a" "bytes (set_vm vm M) = moved dst src len (bytes M)"
proof -
  obtain vm where c: "copy_back (master_handlers sb se) n dst src len (mc_vm M) = (Inr (), vm)" "\<forall>q. accessible vm q"
    using master_copy_back_ok [of "mc_vm M" sb se n dst src len] rd by (auto simp: ready_def)
  then show ?thesis
    using that [OF c(1)] master_memory.copy_back_bytes [OF TrueI _ n lt refl c(1)] rd by (simp add: ready_def bytes_def)
qed
section \<open>Properties\<close>


text \<open>A machine with one heap block, for the witnesses.\<close>

definition demo_machine :: "64 word \<Rightarrow> 64 word \<Rightarrow> nat Machine" where
  "demo_machine x y =
    \<lparr> mc_cpu = \<lparr> cpu_regs = (\<lambda>r. if r = 10 then x else if r = 11 then y else 0), cpu_pc = 0, cpu_fcsr = 0, cpu_fl = (\<lambda>_. 0),
        cpu_reservation = 0, cpu_counter = 0, cpu_max_counter = 0, cpu_vm = demo_host \<rparr>,
      mc_arena = Some one_alloc \<rparr>"

definition demo_libc :: "nat Libc" where
  "demo_libc = \<lparr> lc_pages = master_handlers 0 0, lc_unknown_free = default_unknown_free, lc_unknown_realloc = default_unknown_realloc,
     lc_memcmp = (\<lambda>xs ys. if xs = ys then 0 else 1), lc_host = (\<lambda>d. 4096 * d), lc_backtrace = id \<rparr>"

lemma demo_machine_ready:
  "ready 4096 65536 (demo_machine x y) one_alloc" "sysarg 0 (demo_machine x y) = x" "sysarg 1 (demo_machine x y) = y"
  "lc_pages demo_libc = master_handlers 0 0"
  using one_alloc_live(1) demo_coherent demo_accessible
  by (simp_all add: ready_def demo_machine_def demo_libc_def mc_vm_def sysarg_def reg_def REG_ARG0_def)



text \<open>
  The product of the arguments of \<open>calloc\<close> wraps around: asked for \<open>2 ^ 61\<close> elements of 8
  bytes, which no heap can hold, a call that returns a pointer returns a block of 16 bytes.
\<close>

theorem calloc_call_overflow:
  assumes rd: "ready base lim M a" and H: "lc_pages L = master_handlers sb se" and args: "sysarg 0 M = 0x2000000000000000" "sysarg 1 M = 8"
    and fits: "arena_malloc 0 a = Some (Inr q, a')" "q \<noteq> 0"
  shows "\<exists>M'. sys_calloc L M = Some (Inr (), M') \<and> sysarg 0 M' = of_nat q \<and> mc_arena M' = Some a' \<and> live a' q = Some 16 \<and>
    unat (sysarg 0 M) * unat (sysarg 1 M) = 2 ^ 64"
proof -
  have inv: "arena_inv base lim a" and ar: "mc_arena M = Some a"
    using rd by (simp_all add: ready_def)
  have lv: "live a' q = Some 16"
  proof (cases rule: arena_malloc_cases [OF inv, of 0])
    case (3 p a2)
    then show ?thesis
      using fits(1) by (auto simp: fixup_size_def word_align_def add64_def align_down_def)
  qed (use fits in simp_all)
  have z: "sysarg 0 M * sysarg (Suc 0) M = 0"
    using args by simp
  show ?thesis
    using fits lv args by (simp add: sys_calloc_def with_arena_def ar Let_def z on_memory_def mem_memset.simps [of _ _ _ 0] finished_def)
qed

lemma empty_alloc: "\<exists>a'. arena_malloc 0 (Arena_ctor 4096 65536) = Some (Inr 4096, a')"
proof -
  have "find_free 16 (Arena_ctor 4096 65536) = Some 0"
    unfolding find_free_def by (subst find_free_from.simps) (simp add: Arena_ctor_def slab_def NO_CHUNK_def sub32_def)
  then show ?thesis
    by (simp add: arena_malloc_def fixup_size_def word_align_def add64_def align_down_def NO_CHUNK_def
        split_and_claim_def split_next_def new_chunk_def claim_chunk_def slab_upd_def slab_def Arena_ctor_def sub32_def)
qed

theorem calloc_call_overflow_witness:
  "\<exists>M' a'. sys_calloc demo_libc ((demo_machine 0x2000000000000000 8)\<lparr>mc_arena := Some (Arena_ctor 4096 65536)\<rparr>) = Some (Inr (), M') \<and>
     live a' 4096 = Some 16"
proof -
  obtain a' where a': "arena_malloc 0 (Arena_ctor 4096 65536) = Some (Inr 4096, a')"
    using empty_alloc by blast
  have rd: "ready 4096 65536 ((demo_machine x y)\<lparr>mc_arena := Some (Arena_ctor 4096 65536)\<rparr>) (Arena_ctor 4096 65536)" for x y
    using demo_machine_ready(1) [of x y] Arena_ctor_inv(1) [of 4096 65536] by (simp add: ready_def)
  show ?thesis
    using calloc_call_overflow [OF rd demo_machine_ready(4) _ _ a'] demo_machine_ready(2,3) by fastforce
qed


text \<open>
  The table ends with the backtrace call at the number of the breakpoint: \<open>ebreak\<close> returns 0 in \<open>a0\<close> and costs
  200,000 instructions.
\<close>

lemma ebreak_is_backtrace:
  "native_syscall L other (unat SYSCALL_EBREAK) M =
    Some (Inr (), penalize (100 * COMPLEX_CALL_PENALTY) (set_result 0 (lc_backtrace L M)))"
  by (simp add: native_syscall_def NATIVE_SYSCALLS_BASE_def SYSCALL_EBREAK_def finished_def)

text \<open>The pointer of \<open>free\<close> is cut to 32 bits: a stray upper half does not keep a block from being freed.\<close>

lemma free_call_ignores_upper_half:
  assumes "ready base lim M a" and "live a p = Some n" and "sysarg 0 M = of_nat p + 0x100000000"
  shows "\<exists>M' a'. sys_free L M = Some (Inr (), M') \<and> mc_arena M' = Some a' \<and> live a' p = None"
proof -
  have inv: "arena_inv base lim a" and ar: "mc_arena M = Some a"
    using assms(1) by (simp_all add: ready_def)
  note reg = inv_live_region [OF inv assms(2)]
  have u: "unat (sysarg 0 M) = p + 2 ^ 32"
    using reg(2,3,6) unfolding assms(3) by (simp add: unat_word_ariths unat_of_nat)
  then have "sysarg 0 M \<noteq> 0" "unat (sysarg 0 M) mod 4294967296 = p"
    using reg(2,3,6) by (auto simp: unat_eq_0)
  then show ?thesis
    using arena_free_live(2) [OF inv assms(2)] internal_free_live(2) [OF inv begin_find_used_live(2) [OF inv assms(2)]]
    by (auto simp: sys_free_def with_arena_def ar Let_def finished_def)
qed

end
