(* ===== verification/Guest_Buffer.thy ===== *)
theory Guest_Buffer
  imports Native_Libc
begin

text \<open>
  Buffers (\<open>util/buffer.hpp\<close> and \<open>Memory::membuffer\<close> in \<open>memory_helpers_paging.hpp\<close>, both under
  \<open>src/src/libriscv/lib/libriscv\<close>): views of guest memory that the system call handlers of the
  module get as arguments, joined from page buffers where these are adjacent in host memory.
\<close>

section \<open>Buffers\<close>

text \<open>
  A buffer holds ranges of host memory, as address and length: the main range \<open>m_data\<close>, and the
  ranges that could not be joined with it.
\<close>

record Buffer =
  m_data :: "nat \<times> nat"
  m_overflow :: "(nat \<times> nat) list"
  m_len :: nat

definition empty_buffer :: Buffer where
  "empty_buffer = \<lparr> m_data = (0, 0), m_overflow = [], m_len = 0 \<rparr>"

definition is_sequential :: "Buffer \<Rightarrow> bool" where
  "is_sequential b \<longleftrightarrow> m_overflow b = []"

definition append_page :: "nat \<Rightarrow> nat \<Rightarrow> Buffer \<Rightarrow> Buffer" where
  "append_page ptr len b =
    (if snd (m_data b) = 0 then b\<lparr>m_data := (ptr, len), m_len := len\<rparr>
     else if fst (m_data b) + snd (m_data b) = ptr then
       b\<lparr>m_len := m_len b + len, m_data := (fst (m_data b), m_len b + len)\<rparr>
     else if m_overflow b \<noteq> [] \<and> fst (last (m_overflow b)) + snd (last (m_overflow b)) = ptr then
       b\<lparr>m_overflow := butlast (m_overflow b) @ [(fst (last (m_overflow b)), snd (last (m_overflow b)) + len)], m_len := m_len b + len\<rparr>
     else b\<lparr>m_len := m_len b + len, m_overflow := m_overflow b @ [(ptr, len)]\<rparr>)"

text \<open>The contents of host memory, \<open>hmem\<close>, are an argument of the operations that read a buffer.\<close>

definition host_bytes :: "(nat \<Rightarrow> 8 word) \<Rightarrow> nat \<times> nat \<Rightarrow> 8 word list" where
  "host_bytes hmem r = map hmem [fst r ..< fst r + snd r]"

definition buffer_to_string :: "(nat \<Rightarrow> 8 word) \<Rightarrow> Buffer \<Rightarrow> 8 word list" where
  "buffer_to_string hmem b =
    (if is_sequential b then host_bytes hmem (m_data b)
     else host_bytes hmem (m_data b) @ concat (map (host_bytes hmem) (m_overflow b)))"

fun copy_overflow :: "(nat \<Rightarrow> 8 word) \<Rightarrow> nat \<Rightarrow> nat \<Rightarrow> (nat \<times> nat) list \<Rightarrow> 8 word list" where
  "copy_overflow hmem maxlen len [] = []"
| "copy_overflow hmem maxlen len (r # rs) =
    (if maxlen < len + snd r then [] else host_bytes hmem r @ copy_overflow hmem maxlen (len + snd r) rs)"

text \<open>\<open>copy_to\<close> returns the bytes it writes to the destination.\<close>

definition buffer_copy_to :: "(nat \<Rightarrow> 8 word) \<Rightarrow> nat \<Rightarrow> Buffer \<Rightarrow> 8 word list" where
  "buffer_copy_to hmem maxlen b =
    (if maxlen < snd (m_data b) then []
     else host_bytes hmem (m_data b) @ copy_overflow hmem maxlen (snd (m_data b)) (m_overflow b))"

section \<open>Buffers of guest memory\<close>

text \<open>Where the host has placed a page buffer, \<open>host\<close>, is an argument.\<close>

function membuffer_loop :: "'w PageHandlers \<Rightarrow> (nat \<Rightarrow> nat) \<Rightarrow> nat \<Rightarrow> nat \<Rightarrow> Buffer \<Rightarrow> 'w VM \<Rightarrow> (Buffer, 'w VM) thrown" where
  "membuffer_loop H host pageno datalen b vm =
    (if m_len b < datalen then
       let max_bytes = min PageSize (datalen - m_len b); pageno' = add64 pageno 1
       in case get_readable_pageno H pageno' vm of
            (Inl e, vm1) \<Rightarrow> (Inl e, vm1)
          | (Inr pg, vm1) \<Rightarrow> membuffer_loop H host pageno' datalen (append_page (host (pg_data pg)) max_bytes b) vm1
     else (Inr b, vm))"
  by pat_completeness auto
termination
  by (relation "measures [\<lambda>(H, host, pageno, datalen, b, vm). if snd (m_data b) = 0 then 1 else 0,
      \<lambda>(H, host, pageno, datalen, b, vm). datalen - m_len b]")
    (auto simp: append_page_def PageSize_def)

definition membuffer :: "'w PageHandlers \<Rightarrow> (nat \<Rightarrow> nat) \<Rightarrow> nat \<Rightarrow> nat \<Rightarrow> nat \<Rightarrow> 'w VM \<Rightarrow> (Buffer, 'w VM) thrown" where
  "membuffer H host addr datalen maxlen vm =
    (if maxlen < datalen then protection_fault addr vm
     else case get_readable_pageno H (page_number addr) vm of
         (Inl e, vm1) \<Rightarrow> (Inl e, vm1)
       | (Inr pg, vm1) \<Rightarrow>
           let offset = addr mod PageSize in
           membuffer_loop H host (page_number addr) datalen
             (append_page (host (pg_data pg) + offset) (min (PageSize - offset) datalen) empty_buffer) vm1)"

declare membuffer_loop.simps [simp del]

section \<open>The contents of a buffer\<close>

lemma buffer_to_string_eq: "buffer_to_string hmem b = host_bytes hmem (m_data b) @ concat (map (host_bytes hmem) (m_overflow b))"
  by (simp add: buffer_to_string_def is_sequential_def)

lemma length_host_bytes [simp]: "length (host_bytes hmem r) = snd r"
  by (simp add: host_bytes_def)

lemma copy_overflow_all:
  "len + sum_list (map snd rs) \<le> maxlen \<Longrightarrow> copy_overflow hmem maxlen len rs = concat (map (host_bytes hmem) rs)"
  by (induction rs arbitrary: len) auto

lemma copy_to_is_to_string:
  assumes "length (buffer_to_string hmem b) \<le> maxlen"
  shows "buffer_copy_to hmem maxlen b = buffer_to_string hmem b"
  using assms copy_overflow_all [of "snd (m_data b)" "m_overflow b" maxlen hmem]
  by (simp add: buffer_copy_to_def buffer_to_string_eq length_concat comp_def)

text \<open>Every range ends where a page buffer ends.\<close>

definition page_ends :: "(nat \<Rightarrow> nat) \<Rightarrow> Buffer \<Rightarrow> bool" where
  "page_ends host b \<longleftrightarrow> (\<forall>r \<in> set (m_data b # m_overflow b). \<exists>d. fst r + snd r = host d + PageSize)"

lemma append_page_apart:
  assumes "page_ends host b" and "snd (m_data b) \<noteq> 0" and apart: "\<And>d d'. host d' \<noteq> host d + PageSize"
  shows "append_page (host d) n b = b\<lparr>m_len := m_len b + n, m_overflow := m_overflow b @ [(host d, n)]\<rparr>"
proof -
  have "fst r + snd r \<noteq> host d" if "r \<in> set (m_data b # m_overflow b)" for r
  proof -
    obtain e where "fst r + snd r = host e + PageSize"
      using assms(1) \<open>r \<in> set (m_data b # m_overflow b)\<close> unfolding page_ends_def by blast
    with apart [of d e] show ?thesis
      by metis
  qed
  then have "fst (m_data b) + snd (m_data b) \<noteq> host d"
    "m_overflow b \<noteq> [] \<Longrightarrow> fst (last (m_overflow b)) + snd (last (m_overflow b)) \<noteq> host d"
    by simp_all
  then show ?thesis
    using assms(2) unfolding append_page_def by auto
qed

lemma bytes_of_page:
  assumes "a mod PageSize + n \<le> PageSize" and "\<And>i. i < PageSize \<Longrightarrow> hmem (p + i) = page_view base vm (a div PageSize) i"
  shows "host_bytes hmem (p + a mod PageSize, n) = map (byte_at base vm) [a ..< a + n]"
proof (rule nth_equalityI)
  show "host_bytes hmem (p + a mod PageSize, n) ! i = map (byte_at base vm) [a ..< a + n] ! i"
    if "i < length (host_bytes hmem (p + a mod PageSize, n))" for i
  proof -
    have i: "i < n"
      using that by simp
    have "(a + i) div PageSize = a div PageSize" "(a + i) mod PageSize = a mod PageSize + i"
      using page_split [OF assms(1), of "a + i"] i by simp_all
    moreover have "hmem (p + (a mod PageSize + i)) = page_view base vm (a div PageSize) (a mod PageSize + i)"
      by (rule assms(2)) (use assms(1) i in simp)
    ultimately show ?thesis
      using i by (simp add: host_bytes_def byte_at_def add.assoc)
  qed
qed simp

lemma membuffer_loop_contents:
  assumes coh: "coherent no_base vm" and holds: "\<And>d i. i < PageSize \<Longrightarrow> hmem (host d + i) = vm_data vm d i"
    and apart: "\<And>d d'. host d' \<noteq> host d + PageSize" and lt: "addr + datalen < 2 ^ 64"
  assumes "membuffer_loop (master_handlers sb se) host pageno datalen b vm = (Inr b', vm')"
    and "snd (m_data b) \<noteq> 0" and "m_len b < datalen \<longrightarrow> page_ends host b \<and> addr + m_len b = (pageno + 1) * PageSize"
    and "buffer_to_string hmem b = map (byte_at no_base vm) [addr ..< addr + m_len b]" and "m_len b \<le> datalen"
  shows "vm' = vm \<and> m_len b' = datalen \<and> buffer_to_string hmem b' = map (byte_at no_base vm) [addr ..< addr + datalen]"
  using assms(5-9)
proof (induction "datalen - m_len b" arbitrary: pageno b rule: less_induct)
  case less
  show ?case
  proof (cases "m_len b < datalen")
    case False
    then show ?thesis
      using less.prems by (subst (asm) membuffer_loop.simps) simp
  next
    case True
    let ?n = "min PageSize (datalen - m_len b)"
    have pe: "page_ends host b" and at: "addr + m_len b = (pageno + 1) * PageSize"
      using less.prems(3) True by blast+
    have "(pageno + 1) * PageSize < 2 ^ 64"
      using lt True at by simp
    then have p1: "add64 pageno 1 = pageno + 1"
      by (simp add: add64_def PageSize_def)
    obtain pg where g: "get_readable_pageno (master_handlers sb se) (pageno + 1) vm = (Inr pg, vm)"
      and v: "vm_data vm (pg_data pg) = page_view no_base vm (pageno + 1)"
      and rest: "membuffer_loop (master_handlers sb se) host (pageno + 1) datalen (append_page (host (pg_data pg)) ?n b) vm = (Inr b', vm')"
    proof -
      obtain pg vm1 where g: "get_readable_pageno (master_handlers sb se) (pageno + 1) vm = (Inr pg, vm1)"
        and rest: "membuffer_loop (master_handlers sb se) host (pageno + 1) datalen (append_page (host (pg_data pg)) ?n b) vm1 = (Inr b', vm')"
        using less.prems(1) True p1 by (subst (asm) membuffer_loop.simps) (auto simp: Let_def simp del: One_nat_def split: prod.splits sum.splits)
      then show ?thesis
        using that master_readable [OF coh g] by simp
    qed
    let ?b = "b\<lparr>m_len := m_len b + ?n, m_overflow := m_overflow b @ [(host (pg_data pg), ?n)]\<rparr>"
    have ap: "append_page (host (pg_data pg)) ?n b = ?b"
      by (rule append_page_apart [OF pe less.prems(2) apart])
    have n: "0 < ?n" "m_len b + ?n \<le> datalen"
      using True by (simp_all add: PageSize_def)
    have am: "(addr + m_len b) mod PageSize = 0" "(addr + m_len b) div PageSize = pageno + 1"
      unfolding at by (simp_all add: PageSize_def)
    have "host_bytes hmem (host (pg_data pg) + (addr + m_len b) mod PageSize, ?n) = map (byte_at no_base vm) [addr + m_len b ..< addr + m_len b + ?n]"
      by (rule bytes_of_page) (simp_all add: am holds v)
    then have str: "buffer_to_string hmem ?b = map (byte_at no_base vm) [addr ..< addr + m_len ?b]"
      using less.prems(4) upt_add_eq_append [of addr "addr + m_len b" ?n] by (simp add: buffer_to_string_eq am(1) add.assoc)
    have "vm' = vm \<and> m_len b' = datalen \<and> buffer_to_string hmem b' = map (byte_at no_base vm) [addr ..< addr + datalen]"
    proof (rule less.hyps [of ?b "pageno + 1"])
      show "m_len ?b < datalen \<longrightarrow> page_ends host ?b \<and> addr + m_len ?b = (pageno + 1 + 1) * PageSize"
        using pe at by (auto simp: page_ends_def)
      show "buffer_to_string hmem ?b = map (byte_at no_base vm) [addr ..< addr + m_len ?b]"
        by (rule str)
    qed (use n rest ap less.prems(2) True in simp_all)
    then show ?thesis .
  qed
qed


text \<open>Host memory for the witness: page buffers on every other page.\<close>

definition demo_hmem :: "nat \<Rightarrow> 8 word" where
  "demo_hmem x = vm_data demo_host (x div 8192) (x mod 8192)"


text \<open>
  Where the host has placed the third page of a range right behind the first, the buffer is wrong: its main range is
  extended by the total length, the second page included, so it reads beyond the pages, and the string is a page longer than
  the range.
\<close>

theorem append_page_miscounts:
  assumes "0 < n1" and "ptr2 \<noteq> ptr1 + n1"
  shows "let b = append_page (ptr1 + n1) n3 (append_page ptr2 n2 (append_page ptr1 n1 empty_buffer)) in
    m_len b = n1 + n2 + n3 \<and> m_data b = (ptr1, n1 + n2 + n3) \<and> m_overflow b = [(ptr2, n2)] \<and>
    length (buffer_to_string hmem b) = m_len b + n2"
  using assms by (simp add: append_page_def empty_buffer_def buffer_to_string_eq Let_def)

theorem append_page_miscounts_witness:
  "length (buffer_to_string demo_hmem (append_page 8192 100 (append_page 20480 4096 (append_page 4096 4096 empty_buffer)))) = 12388"
  using append_page_miscounts [of 4096 20480 4096 100 4096 demo_hmem] by (simp add: Let_def)

end
