(* ===== verification/Script_Cache.thy ===== *)
theory Script_Cache
  imports Prelude "HOL-Library.Word"
begin

text \<open>
  The cache of host objects that a guest names by index (\<open>src/src/script_cache.hpp\<close>): compiled regular
  expressions and backends.  Pointers to host objects are values of a type \<open>'a\<close>, the null pointer is \<open>None\<close>.
\<close>

text \<open>
  What a system call handler of the module can end with, apart from returning: an exception of the emulator, one of the
  two exceptions of the standard library, a failed assertion, or undefined behaviour on
  the host (an access outside of a host buffer, or through a null pointer).
\<close>

datatype api_error = Machine_error machine_exception | Runtime_error | Out_of_range | Assertion_failed | Host_overflow | Null_pointer

section \<open>Operations\<close>

record 'a Entry =
  item :: "'a option"
  hash :: "32 word"
  non_owned :: bool

record 'a Cache =
  m_size :: nat
  m_max_entries :: nat
  entries :: "'a Entry list"

definition CACHE_MAX :: nat where "CACHE_MAX = 16"

definition empty_entry :: "'a Entry" where
  "empty_entry = \<lparr> item = None, hash = 0, non_owned = False \<rparr>"

definition Cache_ctor :: "nat \<Rightarrow> 'a Cache" where
  "Cache_ctor mx = \<lparr> m_size = 0, m_max_entries = min mx CACHE_MAX, entries = replicate CACHE_MAX empty_entry \<rparr>"

definition cache_get :: "nat \<Rightarrow> 'a Cache \<Rightarrow> api_error + 'a option" where
  "cache_get idx c = (if idx < length (entries c) then Inr (item (entries c ! idx)) else Inl Out_of_range)"

definition cache_lookup :: "32 word \<Rightarrow> 'a Cache \<Rightarrow> int" where
  "cache_lookup h c = (case filter (\<lambda>i. hash (entries c ! i) = h) [0 ..< m_size c] of [] \<Rightarrow> - 1 | i # _ \<Rightarrow> int i)"

definition cache_manage :: "'a option \<Rightarrow> 32 word \<Rightarrow> 'a Cache \<Rightarrow> (api_error + nat) \<times> 'a Cache" where
  "cache_manage ptr h c =
    (if m_size c < m_max_entries c then
       if m_size c < length (entries c)
       then (Inr (m_size c), c\<lparr>entries := (entries c)[m_size c := \<lparr> item = ptr, hash = h, non_owned = False \<rparr>], m_size := m_size c + 1\<rparr>)
       else (Inl Out_of_range, c)
     else (Inl Out_of_range, c))"

definition cache_free :: "nat \<Rightarrow> 'a Cache \<Rightarrow> (api_error + unit) \<times> 'a Cache" where
  "cache_free idx c =
    (if idx < length (entries c) then (Inr (), c\<lparr>entries := (entries c)[idx := empty_entry]\<rparr>) else (Inl Out_of_range, c))"

fun loan_entries :: "'a Entry list \<Rightarrow> 'a Cache \<Rightarrow> (api_error + unit) \<times> 'a Cache" where
  "loan_entries [] c = (Inr (), c)"
| "loan_entries (e # es) c =
    (if item e = None then loan_entries es c
     else if m_max_entries c \<le> m_size c \<or> length (entries c) \<le> m_size c then (Inl Out_of_range, c)
     else loan_entries es (c\<lparr>entries := (entries c)[m_size c := \<lparr> item = item e, hash = hash e, non_owned = True \<rparr>],
            m_size := m_size c + 1\<rparr>))"

definition loan_from :: "'a Cache \<Rightarrow> 'a Cache \<Rightarrow> (api_error + unit) \<times> 'a Cache" where
  "loan_from source c = loan_entries (take (m_size source) (entries source)) c"

definition owned_items :: "'a Cache \<Rightarrow> 'a list" where
  "owned_items c = List.map_filter (\<lambda>e. if non_owned e then None else item e) (take (m_size c) (entries c))"

section \<open>Facts\<close>

definition cache_ok :: "'a Cache \<Rightarrow> bool" where
  "cache_ok c \<longleftrightarrow> m_size c \<le> m_max_entries c \<and> m_max_entries c \<le> CACHE_MAX \<and> length (entries c) = CACHE_MAX"

lemma Cache_ctor_ok: "cache_ok (Cache_ctor mx)"
  by (simp add: cache_ok_def Cache_ctor_def)

lemma cache_manage_ok: "cache_ok c \<Longrightarrow> cache_ok (snd (cache_manage p h c))"
  by (auto simp: cache_ok_def cache_manage_def)

lemma cache_free_ok: "cache_ok c \<Longrightarrow> cache_ok (snd (cache_free idx c))"
  by (auto simp: cache_ok_def cache_free_def)

lemma loan_entries_ok: "cache_ok c \<Longrightarrow> cache_ok (snd (loan_entries es c))"
  by (induction es c rule: loan_entries.induct) (auto simp: cache_ok_def)

lemma cache_lookup_cases:
  obtains "cache_lookup h c = - 1" and "\<And>i. i < m_size c \<Longrightarrow> hash (entries c ! i) \<noteq> h"
    | i where "cache_lookup h c = int i" and "i < m_size c" and "hash (entries c ! i) = h" and "\<And>j. j < i \<Longrightarrow> hash (entries c ! j) \<noteq> h"
proof (cases "filter (\<lambda>i. hash (entries c ! i) = h) [0 ..< m_size c]")
  case Nil
  then show ?thesis
    using that(1) by (auto simp: cache_lookup_def filter_empty_conv)
next
  case (Cons i rest)
  obtain us vs where split: "[0 ..< m_size c] = us @ i # vs" and us: "\<forall>u \<in> set us. hash (entries c ! u) \<noteq> h" and i: "hash (entries c ! i) = h"
    using Cons by (auto simp: filter_eq_Cons_iff)
  have n: "m_size c = length us + Suc (length vs)"
    using arg_cong [OF split, of length] by simp
  have at: "k = (us @ i # vs) ! k" if "k < m_size c" for k
    using that by (simp flip: split)
  have "i = length us"
    using at [of "length us"] n by simp
  moreover have "j \<in> set us" if "j < length us" for j
    using at [of j] n that by (metis nth_append nth_mem trans_less_add1)
  ultimately show ?thesis
    using that(2) [of i] Cons us i n by (auto simp: cache_lookup_def)
qed

text \<open>What is put into the cache is found by its hash, at the index of the first entry with it, and got by its index.\<close>

lemma cache_manage_get:
  assumes "cache_ok c" and "cache_manage p h c = (Inr idx, c')"
  shows "cache_get idx c' = Inr p" and "j \<noteq> idx \<Longrightarrow> cache_get j c' = cache_get j c" and "idx < m_size c'"
  using assms by (auto simp: cache_manage_def cache_get_def cache_ok_def split: if_splits)

lemma cache_manage_lookup:
  assumes ok: "cache_ok c" and new: "cache_lookup h c = - 1" and m: "cache_manage p h c = (Inr idx, c')"
  shows "cache_lookup h c' = int idx"
proof -
  have c': "idx = m_size c" "m_size c' = m_size c + 1" "hash (entries c' ! idx) = h"
    "\<And>i. i < m_size c \<Longrightarrow> hash (entries c' ! i) = hash (entries c ! i)"
    using ok m by (auto simp: cache_manage_def cache_ok_def split: if_splits)
  have none: "hash (entries c ! i) \<noteq> h" if "i < m_size c" for i
    using new that by (cases rule: cache_lookup_cases [of h c]) auto
  show ?thesis
  proof (cases rule: cache_lookup_cases [of h c'])
    case 1
    then show ?thesis
      using c'(1-3) by fastforce
  next
    case (2 i)
    then have "i = idx"
      using none c' by (metis less_Suc_eq Suc_eq_plus1)
    then show ?thesis
      using 2(1) by simp
  qed
qed

end
