(* ===== verification/Crc32.thy ===== *)
theory Crc32
  imports Prelude "HOL-Library.Word"
begin

text \<open>
  Checksums (\<open>util/crc32.hpp\<close> and \<open>util/crc32c.cpp\<close> under \<open>src/src/libriscv/lib/libriscv\<close>): CRC-32 by table,
  with which the module finds compiled patterns again, and CRC-32C, with which it finds tenants by
  name, by table or by the instruction of the host. All ways to compute CRC-32C are shown to
  agree. Of the wide routine, the part for 240 bytes and more is not modelled: there the model returns None.
\<close>

unbundle bit_operations_syntax

section \<open>Tables\<close>

fun crc_rounds :: "32 word \<Rightarrow> nat \<Rightarrow> 32 word \<Rightarrow> 32 word" where
  "crc_rounds poly 0 crc = crc"
| "crc_rounds poly (Suc i) crc = crc_rounds poly i (drop_bit 1 crc XOR (poly AND - (crc AND 1)))"

definition gen_crc32_table :: "32 word \<Rightarrow> 32 word \<Rightarrow> 32 word" where
  "gen_crc32_table poly byte = crc_rounds poly 8 byte"

definition crc32_from :: "32 word \<Rightarrow> 32 word \<Rightarrow> 8 word list \<Rightarrow> 32 word" where
  "crc32_from poly crc bs = fold (\<lambda>b crc. gen_crc32_table poly ((crc XOR ucast b) AND 0xFF) XOR drop_bit 8 crc) bs crc"

definition crc32 :: "8 word list \<Rightarrow> 32 word" where
  "crc32 bs = NOT (crc32_from 0xEDB88320 0xFFFFFFFF bs)"

section \<open>Instructions\<close>

text \<open>
  The CRC32 instruction of the host adds the operand to the checksum and divides by the Castagnoli polynomial, one bit at a time.
  Its operand of 16, 32 or 64 bits is loaded from consecutive bytes, the lowest first.
\<close>

definition CRC32C :: "32 word" where "CRC32C = 0x82F63B78"

definition mm_crc32_u8 :: "32 word \<Rightarrow> 8 word \<Rightarrow> 32 word" where
  "mm_crc32_u8 crc v = crc_rounds CRC32C 8 (crc XOR ucast v)"

definition mm_crc32_u16 :: "32 word \<Rightarrow> 16 word \<Rightarrow> 32 word" where
  "mm_crc32_u16 crc v = crc_rounds CRC32C 16 (crc XOR ucast v)"

definition mm_crc32_u32 :: "32 word \<Rightarrow> 32 word \<Rightarrow> 32 word" where
  "mm_crc32_u32 crc v = crc_rounds CRC32C 32 (crc XOR v)"

definition mm_crc32_u64 :: "32 word \<Rightarrow> 64 word \<Rightarrow> 32 word" where
  "mm_crc32_u64 crc v = mm_crc32_u32 (mm_crc32_u32 crc (ucast v)) (ucast (drop_bit 32 v))"

definition load_word :: "8 word list \<Rightarrow> 'a::len word" where
  "load_word bs = foldr (\<lambda>b w. ucast b XOR push_bit 8 w) bs 0"

section \<open>Checksums by instruction\<close>

fun until_aligned :: "nat \<Rightarrow> nat \<Rightarrow> 32 word \<Rightarrow> 8 word list \<Rightarrow> 32 word \<times> nat \<times> 8 word list" where
  "until_aligned align addr crc [] = (crc, addr, [])"
| "until_aligned align addr crc (b # bs) =
    (if addr mod align \<noteq> 0 then until_aligned align (addr + 1) (mm_crc32_u8 crc b) bs else (crc, addr, b # bs))"

function crc_16_bytes :: "32 word \<Rightarrow> 8 word list \<Rightarrow> 32 word \<times> 8 word list" where
  "crc_16_bytes crc bs =
    (if 16 \<le> length bs then
       crc_16_bytes
         (mm_crc32_u32 (mm_crc32_u32 (mm_crc32_u32 (mm_crc32_u32 crc (load_word (take 4 bs))) (load_word (take 4 (drop 4 bs))))
            (load_word (take 4 (drop 8 bs)))) (load_word (take 4 (drop 12 bs)))) (drop 16 bs)
     else (crc, bs))"
  by pat_completeness auto
termination by (relation "measure (length \<circ> snd)") auto

function crc_4_bytes :: "32 word \<Rightarrow> 8 word list \<Rightarrow> 32 word \<times> 8 word list" where
  "crc_4_bytes crc bs =
    (if 4 \<le> length bs then crc_4_bytes (mm_crc32_u32 crc (load_word (take 4 bs))) (drop 4 bs) else (crc, bs))"
  by pat_completeness auto
termination by (relation "measure (length \<circ> snd)") auto

function crc_8_bytes :: "32 word \<Rightarrow> 8 word list \<Rightarrow> 32 word \<times> 8 word list" where
  "crc_8_bytes crc bs =
    (if 8 \<le> length bs then crc_8_bytes (mm_crc32_u64 crc (load_word (take 8 bs))) (drop 8 bs) else (crc, bs))"
  by pat_completeness auto
termination by (relation "measure (length \<circ> snd)") auto

declare crc_16_bytes.simps [simp del] crc_4_bytes.simps [simp del] crc_8_bytes.simps [simp del]

definition crc32c_sse42 :: "nat \<Rightarrow> 32 word \<Rightarrow> 8 word list \<Rightarrow> 32 word" where
  "crc32c_sse42 buffer h0 bs0 =
    (let (h1, _, bs1) = until_aligned 4 buffer h0 bs0;
         (h2, bs2) = crc_16_bytes h1 bs1;
         (h3, bs3) = crc_4_bytes h2 bs2;
         len = length bs3;
         (h4, bs4) = (if len AND 2 \<noteq> 0 then (mm_crc32_u16 h3 (load_word (take 2 bs3)), drop 2 bs3) else (h3, bs3))
     in if len AND 1 \<noteq> 0 then mm_crc32_u8 h4 (hd bs4) else h4)"

text \<open>Up to the length from which the wide routine folds three streams with carry-less multiplications.\<close>

definition crc32c_clmul_long :: "nat \<Rightarrow> 32 word \<Rightarrow> 8 word list \<Rightarrow> 32 word option" where
  "crc32c_clmul_long buf crc bs0 =
    (let (h1, a1, bs1) = until_aligned 8 buf (NOT crc) bs0;
         (h2, bs2) = (if a1 AND 8 \<noteq> 0 \<and> 8 \<le> length bs1 then (mm_crc32_u64 h1 (load_word (take 8 bs1)), drop 8 bs1) else (h1, bs1))
     in if 240 \<le> length bs2 then None
        else let (h3, bs3) = crc_8_bytes h2 bs2 in Some (NOT (fold (\<lambda>b crc. mm_crc32_u8 crc b) bs3 h3)))"

definition crc32c :: "bool \<Rightarrow> bool \<Rightarrow> nat \<Rightarrow> 8 word list \<Rightarrow> 32 word option" where
  "crc32c avx512vl sse42 buf bs =
    (if avx512vl then crc32c_clmul_long buf 0 bs
     else if sse42 then Some (NOT (crc32c_sse42 buf 0xFFFFFFFF bs))
     else Some (NOT (crc32_from CRC32C 0xFFFFFFFF bs)))"

section \<open>The division is linear\<close>

lemma crc_mask: "(p :: 32 word) AND - (x AND 1) = (if bit x 0 then p else 0)"
  by (simp add: and_one_eq mod_2_eq_odd bit_0)

lemma crc_rounds_xor: "crc_rounds p n (x XOR y) = crc_rounds p n x XOR crc_rounds p n y"
proof (induction n arbitrary: x y)
  case (Suc n)
  have "drop_bit 1 (x XOR y) XOR (p AND - ((x XOR y) AND 1)) =
      (drop_bit 1 x XOR (p AND - (x AND 1))) XOR (drop_bit 1 y XOR (p AND - (y AND 1)))"
    unfolding crc_mask by (intro bit_word_eqI) (auto simp: bit_simps)
  then show ?case
    using Suc by simp
qed simp

text \<open>Rounds shift out low bits that are all zero without a division.\<close>

lemma crc_rounds_shift:
  assumes "\<And>i. bit z i \<Longrightarrow> i + n < 32"
  shows "crc_rounds p n (push_bit n z) = z"
  using assms
proof (induction n)
  case (Suc n)
  have "drop_bit 1 (push_bit (Suc n) z) XOR (p AND - (push_bit (Suc n) z AND 1)) = push_bit n z"
  proof (rule bit_word_eqI)
    fix i
    assume "i < LENGTH(32)"
    show "bit (drop_bit 1 (push_bit (Suc n) z) XOR (p AND - (push_bit (Suc n) z AND 1))) i = bit (push_bit n z) i"
      unfolding crc_mask using Suc.prems [of "i - n"] \<open>i < LENGTH(32)\<close>
      by (auto simp del: push_bit_Suc simp: bit_xor_iff bit_drop_bit_eq bit_push_bit_iff)
  qed
  then show ?case
    using Suc.IH Suc.prems by (simp add: Suc_lessD del: push_bit_Suc)
qed simp

lemma byte_mask: "(0xFF :: 32 word) = mask 8"
  by (simp add: mask_eq_exp_minus_1)

lemma crc_rounds_split: "crc_rounds p 8 x = crc_rounds p 8 (x AND 0xFF) XOR drop_bit 8 x"
proof -
  have "x = (x AND 0xFF) XOR push_bit 8 (drop_bit 8 x)"
    unfolding byte_mask by (intro bit_word_eqI) (auto simp: bit_simps)
  moreover have "crc_rounds p 8 (push_bit 8 (drop_bit 8 x)) = drop_bit 8 x"
    by (intro crc_rounds_shift) (auto simp: bit_simps dest: bit_imp_le_length)
  ultimately show ?thesis
    by (metis crc_rounds_xor)
qed

lemma crc_rounds_add: "crc_rounds p (m + n) x = crc_rounds p n (crc_rounds p m x)"
  by (induction m arbitrary: x) simp_all

lemma crc_rounds_next:
  assumes "\<And>i. bit w i \<Longrightarrow> i + 8 < 32"
  shows "crc_rounds p (8 + n) (crc XOR (b XOR push_bit 8 w)) = crc_rounds p n (crc_rounds p 8 (crc XOR b) XOR w)"
  unfolding crc_rounds_add using crc_rounds_shift [OF assms] crc_rounds_xor [of p 8 "crc XOR b" "push_bit 8 w"]
  by (simp add: xor.assoc)

lemma table_step:
  "gen_crc32_table p ((crc XOR ucast (b :: 8 word)) AND 0xFF) XOR drop_bit 8 crc = crc_rounds p 8 (crc XOR ucast b)"
proof -
  have "drop_bit 8 (ucast b :: 32 word) = 0"
    by (intro bit_word_eqI) (auto simp: bit_simps dest: bit_imp_le_length)
  then show ?thesis
    using crc_rounds_split [of p "crc XOR ucast b"] by (simp add: gen_crc32_table_def drop_bit_xor)
qed

lemma crc32_from_bytes: "crc32_from CRC32C crc bs = fold (\<lambda>b crc. mm_crc32_u8 crc b) bs crc"
  by (simp add: crc32_from_def table_step mm_crc32_u8_def)

lemma crc32_from_append: "crc32_from p crc (xs @ ys) = crc32_from p (crc32_from p crc xs) ys"
  by (simp add: crc32_from_def)

section \<open>Loads\<close>

lemma bit_load_word:
  "bit (load_word bs :: 'a::len word) i \<longleftrightarrow> i < LENGTH('a) \<and> i div 8 < length bs \<and> bit (bs ! (i div 8)) (i mod 8)"
proof (induction bs arbitrary: i)
  case (Cons b bs)
  have rec: "(load_word (b # bs) :: 'a word) = ucast b XOR push_bit 8 (load_word bs)"
    by (simp add: load_word_def)
  show ?case
  proof (cases "i < 8")
    case True
    then show ?thesis
      unfolding rec by (auto simp: bit_simps)
  next
    case False
    then have "i div 8 = Suc ((i - 8) div 8)" "(i - 8) mod 8 = i mod 8"
      by (simp_all add: le_div_geq le_mod_geq)
    moreover have "\<not> bit b i"
      using False bit_imp_le_length [of b i] by auto
    ultimately show ?thesis
      unfolding rec using False Cons [of "i - 8"] by (auto simp: bit_simps)
  qed
qed (simp add: load_word_def)

lemma bytes_step:
  assumes "length bs \<le> 3"
  shows "crc_rounds CRC32C (8 + n) (crc XOR load_word (b # bs)) = crc_rounds CRC32C n (mm_crc32_u8 crc b XOR load_word bs)"
proof -
  have "i + 8 < 32" if "bit (load_word bs :: 32 word) i" for i
    using that assms by (auto simp: bit_load_word)
  then show ?thesis
    using crc_rounds_next [of "load_word bs"] by (simp add: load_word_def mm_crc32_u8_def)
qed

lemma load_word_Nil [simp]: "load_word [] = 0"
  by (simp add: load_word_def)

lemma u16_bytes: "mm_crc32_u16 crc (load_word [a, b]) = mm_crc32_u8 (mm_crc32_u8 crc a) b"
proof -
  have "(ucast (load_word [a, b] :: 16 word) :: 32 word) = load_word [a, b]"
    by (intro bit_word_eqI) (auto simp: bit_simps bit_load_word)
  then show ?thesis
    using bytes_step [of "[b]" 8 crc a] bytes_step [of "[]" 0 "mm_crc32_u8 crc a" b] by (simp add: mm_crc32_u16_def)
qed

lemma u32_bytes:
  assumes "length bs = 4"
  shows "mm_crc32_u32 crc (load_word bs) = crc32_from CRC32C crc bs"
proof -
  obtain a b c d where bs: "bs = [a, b, c, d]"
    using assms by (auto simp: numeral_eq_Suc length_Suc_conv)
  have "crc_rounds CRC32C (8 + (8 + (8 + (8 + 0)))) (crc XOR load_word bs) = crc32_from CRC32C crc bs"
    unfolding bs by (subst bytes_step, simp)+ (simp add: crc32_from_bytes)
  then show ?thesis
    by (simp add: mm_crc32_u32_def)
qed

lemma u64_bytes:
  assumes "length bs = 8"
  shows "mm_crc32_u64 crc (load_word bs) = crc32_from CRC32C crc bs"
proof -
  have "(ucast (load_word bs :: 64 word) :: 32 word) = load_word (take 4 bs)"
    using assms by (intro bit_word_eqI) (auto simp: bit_simps bit_load_word)
  moreover have "(ucast (drop_bit 32 (load_word bs :: 64 word)) :: 32 word) = load_word (drop 4 bs)"
  proof (intro bit_word_eqI)
    fix n :: nat
    have "(32 + n) mod 8 = n mod 8" "(32 + n) div 8 = 4 + n div 8"
      by presburger+
    then show "bit (ucast (drop_bit 32 (load_word bs :: 64 word)) :: 32 word) n = bit (load_word (drop 4 bs) :: 32 word) n"
      using assms by (auto simp: bit_simps bit_load_word)
  qed
  ultimately show ?thesis
    using assms u32_bytes [of "take 4 bs"] u32_bytes [of "drop 4 bs"] crc32_from_append [of CRC32C crc "take 4 bs" "drop 4 bs"]
    by (simp add: mm_crc32_u64_def)
qed

section \<open>Properties\<close>

lemma until_aligned_bytes:
  "until_aligned n addr crc bs = (crc', addr', bs') \<Longrightarrow> crc32_from CRC32C crc bs = crc32_from CRC32C crc' bs'"
  by (induction bs arbitrary: addr crc) (auto simp: crc32_from_bytes split: if_splits)

lemma crc_4_bytes_bytes:
  "crc_4_bytes crc bs = (crc', bs') \<Longrightarrow> crc32_from CRC32C crc bs = crc32_from CRC32C crc' bs' \<and> length bs' < 4"
proof (induction crc bs rule: crc_4_bytes.induct)
  case (1 crc bs)
  show ?case
  proof (cases "4 \<le> length bs")
    case True
    then have "crc32_from CRC32C crc bs = crc32_from CRC32C (mm_crc32_u32 crc (load_word (take 4 bs))) (drop 4 bs)"
      using u32_bytes [of "take 4 bs" crc] crc32_from_append [of CRC32C crc "take 4 bs" "drop 4 bs"] by simp
    then show ?thesis
      using 1 True crc_4_bytes.simps [of crc bs] by simp
  next
    case False
    then show ?thesis
      using 1(2) crc_4_bytes.simps [of crc bs] by simp
  qed
qed

lemma crc_8_bytes_bytes:
  "crc_8_bytes crc bs = (crc', bs') \<Longrightarrow> crc32_from CRC32C crc bs = crc32_from CRC32C crc' bs'"
proof (induction crc bs rule: crc_8_bytes.induct)
  case (1 crc bs)
  show ?case
  proof (cases "8 \<le> length bs")
    case True
    then have "crc32_from CRC32C crc bs = crc32_from CRC32C (mm_crc32_u64 crc (load_word (take 8 bs))) (drop 8 bs)"
      using u64_bytes [of "take 8 bs" crc] crc32_from_append [of CRC32C crc "take 8 bs" "drop 8 bs"] by simp
    then show ?thesis
      using 1 True crc_8_bytes.simps [of crc bs] by simp
  next
    case False
    then show ?thesis
      using 1(2) crc_8_bytes.simps [of crc bs] by simp
  qed
qed

lemma crc_16_bytes_bytes: "crc_16_bytes crc bs = (crc', bs') \<Longrightarrow> crc32_from CRC32C crc bs = crc32_from CRC32C crc' bs'"
proof (induction crc bs rule: crc_16_bytes.induct)
  case (1 crc bs)
  let ?u = "\<lambda>crc i. mm_crc32_u32 crc (load_word (take 4 (drop i bs)))"
  have at: "crc32_from CRC32C crc (drop i bs) = crc32_from CRC32C (?u crc i) (drop (i + 4) bs)" if "i + 4 \<le> length bs" for crc i
    using that u32_bytes [of "take 4 (drop i bs)" crc] crc32_from_append [of CRC32C crc "take 4 (drop i bs)" "drop 4 (drop i bs)"]
    unfolding append_take_drop_id by (simp add: add.commute)
  show ?case
  proof (cases "16 \<le> length bs")
    case True
    then have "crc32_from CRC32C crc bs = crc32_from CRC32C (?u (?u (?u (?u crc 0) 4) 8) 12) (drop 16 bs)"
      using at [of 0] at [of 4] at [of 8] at [of 12] by simp
    then show ?thesis
      using 1 True crc_16_bytes.simps [of crc bs] by simp
  next
    case False
    then show ?thesis
      using 1(2) crc_16_bytes.simps [of crc bs] by simp
  qed
qed

lemma crc32c_sse42_bytes: "crc32c_sse42 buf crc bs = crc32_from CRC32C crc bs"
proof -
  obtain h1 a1 b1 where 1: "until_aligned 4 buf crc bs = (h1, a1, b1)"
    by (rule prod_cases3)
  obtain h2 b2 where 2: "crc_16_bytes h1 b1 = (h2, b2)"
    by fastforce
  obtain h3 b3 where 3: "crc_4_bytes h2 b2 = (h3, b3)"
    by fastforce
  have same: "crc32_from CRC32C crc bs = crc32_from CRC32C h3 b3" "length b3 < 4"
    using until_aligned_bytes [OF 1] crc_16_bytes_bytes [OF 2] crc_4_bytes_bytes [OF 3] by simp_all
  then consider "b3 = []" | x where "b3 = [x]" | x y where "b3 = [x, y]" | x y z where "b3 = [x, y, z]"
    by (cases b3; cases "tl b3"; cases "tl (tl b3)"; cases "tl (tl (tl b3))") auto
  moreover have "Suc (Suc 0) AND 2 = 2" "Suc (Suc (Suc 0)) AND 2 = 2" "Suc (Suc (Suc 0)) AND Suc 0 = 1" "Suc 0 AND 2 = 0"
    by (simp_all flip: numeral_2_eq_2 numeral_3_eq_3)
  ultimately show ?thesis
    unfolding same(1) by cases (simp_all add: crc32c_sse42_def 1 2 3 crc32_from_bytes u16_bytes)
qed

lemma crc32c_clmul_bytes:
  assumes "crc32c_clmul_long buf crc bs = Some h"
  shows "h = NOT (crc32_from CRC32C (NOT crc) bs)"
proof -
  obtain h1 a1 b1 where 1: "until_aligned 8 buf (NOT crc) bs = (h1, a1, b1)"
    by (rule prod_cases3)
  obtain h2 b2 where 2: "(if a1 AND 8 \<noteq> 0 \<and> 8 \<le> length b1 then (mm_crc32_u64 h1 (load_word (take 8 b1)), drop 8 b1) else (h1, b1)) = (h2, b2)"
    by fastforce
  obtain h3 b3 where 3: "crc_8_bytes h2 b2 = (h3, b3)"
    by fastforce
  have "crc32_from CRC32C h1 b1 = crc32_from CRC32C h2 b2"
    using 2 u64_bytes [of "take 8 b1" h1] crc32_from_append [of CRC32C h1 "take 8 b1" "drop 8 b1"] by (auto split: if_splits)
  then have "crc32_from CRC32C (NOT crc) bs = crc32_from CRC32C h3 b3"
    using until_aligned_bytes [OF 1] crc_8_bytes_bytes [OF 3] by simp
  then show ?thesis
    using assms unfolding crc32c_clmul_long_def 1 Let_def prod.case 2 3 by (auto simp: crc32_from_bytes split: if_splits)
qed

lemma until_aligned_length: "until_aligned n addr crc bs = (crc', addr', bs') \<Longrightarrow> length bs' \<le> length bs"
  by (induction bs arbitrary: addr crc) (fastforce split: if_splits)+

lemma crc32c_clmul_returns: "length bs < 240 \<Longrightarrow> \<exists>h. crc32c_clmul_long buf crc bs = Some h"
  using until_aligned_length [of 8 buf "NOT crc" bs] by (auto simp: crc32c_clmul_long_def Let_def split: prod.splits if_splits)

text \<open>
  (C21) Every way to compute the checksum of a tenant's name gives the same value: the table, the instruction on
  aligned words of four bytes with what is left at both ends, and the wide routine on data of less than 240 bytes, which always returns.
\<close>

theorem crc32c_paths_agree:
  assumes "avx512vl \<Longrightarrow> length bs < 240"
  shows "crc32c avx512vl sse42 buf bs = crc32c False False 0 bs"
proof -
  have ones: "(0xFFFFFFFF :: 32 word) = - 1"
    by simp
  show ?thesis
    using assms crc32c_clmul_returns [of bs buf 0] crc32c_clmul_bytes [of buf 0 bs] unfolding crc32c_def ones
    by (auto simp: crc32c_sse42_bytes)
qed

theorem crc32c_paths_agree_witness:
  "crc32c True True 3 (replicate 100 7) = crc32c False False 0 (replicate 100 7)"
  by (rule crc32c_paths_agree) simp

text \<open>The published check values of the two polynomials.\<close>

lemma crc_rounds_numeral:
  "crc_rounds p (numeral k) c = crc_rounds p (pred_numeral k) (drop_bit 1 c XOR (if bit c 0 then p else 0))"
  by (simp add: numeral_eq_Suc crc_mask)

lemma crc32_from_step:
  "gen_crc32_table p ((c XOR ucast b) AND 0xFF) XOR drop_bit 8 c = c' \<Longrightarrow> crc32_from p c (b # bs) = crc32_from p c' bs"
  "crc32_from p c [] = c"
  by (simp_all add: crc32_from_def)

lemma crc_check_values:
  "crc32 [49, 50, 51, 52, 53, 54, 55, 56, 57] = 0xCBF43926" "crc32c False False 0 [49, 50, 51, 52, 53, 54, 55, 56, 57] = Some 0xE3069283"
  by (simp_all add: crc32_def crc32c_def crc32_from_step gen_crc32_table_def crc_rounds_numeral CRC32C_def)

end
