(* ===== verification/Script_Api.thy ===== *)
theory Script_Api
  imports Guest_Buffer Script_Cache Crc32
begin

text \<open>
  The system calls that the module gives to its guests (\<open>src/src/script_functions.cpp\<close>, with
  the script state of \<open>script.hpp\<close> and the HTTP object of \<open>varnish_interface.h\<close>): finding, reading, appending, replacing, copying, removing and iterating over
  header fields, compiled regular expressions, and the decisions and callbacks that a script registers. A call reads its
  arguments from the registers and from guest memory and answers with an error (an exception, a failed assertion, a host
  access outside of an array) or with the next state of the script. A request executes any sequence of these calls
  (\<open>foreach_header_field\<close> apart, which calls back into the guest) with any computation in between
  (\<open>api_run\<close>); the HTTP objects keep their bounds along every such sequence, and
  the header calls stay inside of the arrays but for three cases, which are shown one by one.
\<close>

unbundle bit_operations_syntax

section \<open>State\<close>

type_synonym txt_t = "8 word list"

record Http =
  field_array :: "nat \<Rightarrow> txt_t"
  field_flags :: "nat \<Rightarrow> nat"
  field_count :: nat
  fields_max :: nat
  status :: nat

datatype Where = HDR_REQ | HDR_REQ_TOP | HDR_BEREQ | HDR_BERESP | HDR_RESP

record ('w, 'r) Script =
  sc_machine :: "'w Machine"
  sc_http :: "Where \<Rightarrow> Http option"
  sc_regex :: "'r Cache"
  sc_callbacks :: "64 word list"
  sc_functions :: "txt_t \<rightharpoonup> 64 word"
  sc_want_result :: txt_t
  sc_want_values :: "64 word list"
  sc_is_paused :: bool
  sc_is_storage :: bool
  sc_is_forked :: bool
  sc_sighandler :: "64 word"

text \<open>
  What the handlers call in Varnish and in the host: the numbers of the HTTP objects, the workspace allocator,
  \<open>http_SetH\<close>, printing a number to the workspace, the regular expression engine, where page
  buffers are and what host memory holds, whether assertions are compiled out, and
  what a guest function does that a handler calls.
\<close>

record ('w, 'r) Varnish =
  vn_where :: "32 word \<Rightarrow> Where option"
  vn_pages :: "'w PageHandlers"
  vn_host :: "nat \<Rightarrow> nat"
  vn_hmem :: "'w VM \<Rightarrow> nat \<Rightarrow> 8 word"
  vn_ws_alloc :: "'w \<Rightarrow> nat \<Rightarrow> bool \<times> 'w"
  vn_ws_printf :: "'w \<Rightarrow> nat \<Rightarrow> txt_t option \<times> 'w"
  vn_SetH :: "nat \<Rightarrow> txt_t \<Rightarrow> Http \<Rightarrow> Http"
  vn_compile :: "txt_t \<Rightarrow> 'r option"
  vn_match :: "'r \<Rightarrow> txt_t \<Rightarrow> bool"
  vn_ndebug :: bool
  vn_padding :: txt_t
  vn_unknown_free :: "nat \<Rightarrow> ArenaChunk option \<Rightarrow> int"
  vn_preempt :: "64 word \<Rightarrow> 64 word \<Rightarrow> nat \<Rightarrow> nat \<Rightarrow> ('w, 'r) Script \<Rightarrow> ('w, 'r) Script"

type_synonym ('a, 'w, 'r) answer = "(api_error + 'a) \<times> ('w, 'r) Script"
type_synonym ('w, 'r) apicall = "('w, 'r) Script \<Rightarrow> (unit, 'w, 'r) answer"

definition HDR_FIRST :: nat where "HDR_FIRST = 6"
definition HDR_INVALID :: "32 word" where "HDR_INVALID = 0xFFFFFFFF"

definition bind_api :: "('a, 'w, 'r) answer \<Rightarrow> ('a \<Rightarrow> ('w, 'r) Script \<Rightarrow> ('b, 'w, 'r) answer) \<Rightarrow> ('b, 'w, 'r) answer" where
  "bind_api r k = (case r of (Inl e, s) \<Rightarrow> (Inl e, s) | (Inr x, s) \<Rightarrow> k x s)"

definition arg :: "nat \<Rightarrow> ('w, 'r) Script \<Rightarrow> 64 word" where
  "arg i s = sysarg i (sc_machine s)"

definition arg32 :: "nat \<Rightarrow> ('w, 'r) Script \<Rightarrow> 32 word" where
  "arg32 i s = ucast (arg i s)"

definition returns :: "64 word \<Rightarrow> ('w, 'r) apicall" where
  "returns v s = (Inr (), s\<lparr>sc_machine := set_result v (sc_machine s)\<rparr>)"

text \<open>Results of 32 bits are sign-extended, unsigned ones too.\<close>

definition returns32 :: "32 word \<Rightarrow> ('w, 'r) apicall" where
  "returns32 v = returns (scast v)"

definition in_memory :: "('a, 'w VM) thrown \<Rightarrow> ('w, 'r) Script \<Rightarrow> ('a, 'w, 'r) answer" where
  "in_memory r s =
    ((case fst r of Inl e \<Rightarrow> Inl (Machine_error e) | Inr x \<Rightarrow> Inr x), s\<lparr>sc_machine := set_vm (snd r) (sc_machine s)\<rparr>)"

text \<open>A buffer argument takes two registers, address and length.\<close>

definition arg_buffer :: "('w, 'r) Varnish \<Rightarrow> nat \<Rightarrow> ('w, 'r) Script \<Rightarrow> (Buffer, 'w, 'r) answer" where
  "arg_buffer V i s = in_memory (membuffer (vn_pages V) (vn_host V) (unat (arg i s)) (unat (arg (i + 1) s)) (16 * 2 ^ 20) (mc_vm (sc_machine s))) s"

definition contents :: "('w, 'r) Varnish \<Rightarrow> Buffer \<Rightarrow> ('w, 'r) Script \<Rightarrow> txt_t" where
  "contents V b s = buffer_to_string (vn_hmem V (mc_vm (sc_machine s))) b"

definition WS_Alloc :: "('w, 'r) Varnish \<Rightarrow> nat \<Rightarrow> ('w, 'r) Script \<Rightarrow> (unit, 'w, 'r) answer" where
  "WS_Alloc V n s =
    (let vm = mc_vm (sc_machine s); (ok, ws) = vn_ws_alloc V (vm_ws vm) n
     in (if ok then Inr () else Inl Runtime_error, s\<lparr>sc_machine := set_vm (vm\<lparr>vm_ws := ws\<rparr>) (sc_machine s)\<rparr>))"

definition cstr :: "txt_t \<Rightarrow> txt_t" where
  "cstr bs = takeWhile (\<lambda>b. b \<noteq> 0) bs"

section \<open>HTTP objects\<close>

definition is_valid_index :: "Http \<Rightarrow> nat \<Rightarrow> bool" where
  "is_valid_index hp idx \<longleftrightarrow> idx < field_count hp"

definition get_http :: "('w, 'r) Varnish \<Rightarrow> 32 word \<Rightarrow> ('w, 'r) Script \<Rightarrow> (Where \<times> Http, 'w, 'r) answer" where
  "get_http V wh s =
    (case vn_where V wh of
       None \<Rightarrow> (Inl Runtime_error, s)
     | Some w \<Rightarrow> (case sc_http s w of None \<Rightarrow> (Inl Runtime_error, s) | Some hp \<Rightarrow> (Inr (w, hp), s)))"

definition put_http :: "Where \<Rightarrow> Http \<Rightarrow> ('w, 'r) Script \<Rightarrow> ('w, 'r) Script" where
  "put_http w hp s = s\<lparr>sc_http := (sc_http s)(w \<mapsto> hp)\<rparr>"

definition get_field :: "('w, 'r) Varnish \<Rightarrow> 32 word \<Rightarrow> nat \<Rightarrow> ('w, 'r) Script \<Rightarrow> (Where \<times> Http \<times> txt_t, 'w, 'r) answer" where
  "get_field V wh index s =
    bind_api (get_http V wh s) (\<lambda>(w, hp) s.
      if is_valid_index hp index then (Inr (w, hp, field_array hp index), s) else (Inl Out_of_range, s))"

definition to_lower :: "8 word \<Rightarrow> 8 word" where
  "to_lower c = (if 65 \<le> c \<and> c \<le> 90 then c + 32 else c)"

fun strncasecmp_eq :: "txt_t \<Rightarrow> txt_t \<Rightarrow> nat \<Rightarrow> bool" where
  "strncasecmp_eq xs ys 0 \<longleftrightarrow> True"
| "strncasecmp_eq (x # xs) (y # ys) (Suc l) \<longleftrightarrow> to_lower x = to_lower y \<and> (x = 0 \<or> strncasecmp_eq xs ys l)"
| "strncasecmp_eq _ _ (Suc l) \<longleftrightarrow> False"

definition is_header :: "txt_t \<Rightarrow> txt_t \<Rightarrow> bool" where
  "is_header hdr f \<longleftrightarrow>
    \<not> length f < length hdr + 1 \<and> f ! length hdr = 58 \<and> strncasecmp_eq hdr f (length hdr)"

definition http_findhdr :: "Http \<Rightarrow> txt_t \<Rightarrow> nat" where
  "http_findhdr hp hdr =
    (case filter (\<lambda>u. is_header hdr (field_array hp u)) [HDR_FIRST ..< field_count hp] of [] \<Rightarrow> 0 | u # _ \<Rightarrow> u)"

text \<open>
  The two assertions guard the index; compiled out, an index outside of the fields moves memory outside of
  the arrays.
\<close>

definition http_unsetat :: "bool \<Rightarrow> nat \<Rightarrow> Http \<Rightarrow> api_error + Http" where
  "http_unsetat ndebug idx hp =
    (if \<not> ndebug \<and> (idx < HDR_FIRST \<or> field_count hp \<le> idx) then Inl Assertion_failed
     else if field_count hp \<le> idx then Inl Host_overflow
     else Inr (hp\<lparr>field_array := (\<lambda>i. if idx \<le> i \<and> i + 1 < field_count hp then field_array hp (i + 1) else field_array hp i),
         field_flags := (\<lambda>i. if idx \<le> i \<and> i + 1 < field_count hp then field_flags hp (i + 1) else field_flags hp i),
         field_count := field_count hp - 1\<rparr>))"

definition unset_in :: "('w, 'r) Varnish \<Rightarrow> Where \<Rightarrow> Http \<Rightarrow> nat \<Rightarrow> ('w, 'r) apicall" where
  "unset_in V w hp idx s =
    (case http_unsetat (vn_ndebug V) idx hp of Inl e \<Rightarrow> (Inl e, s) | Inr hp' \<Rightarrow> (Inr (), put_http w hp' s))"

definition field_length :: "txt_t \<Rightarrow> 32 word" where
  "field_length f = of_nat (length f)"
section \<open>Header fields\<close>

definition http_find_name :: "('w, 'r) Varnish \<Rightarrow> ('w, 'r) apicall" where
  "http_find_name V s0 =
    bind_api (arg_buffer V 1 s0) (\<lambda>fieldname s.
    bind_api (get_http V (arg32 0 s0) s) (\<lambda>(w, hp) s.
      let index = http_findhdr hp (contents V fieldname s)
      in if 0 < index then returns32 (of_nat index) s else returns32 HDR_INVALID s))"

definition http_copy_from :: "('w, 'r) Varnish \<Rightarrow> ('w, 'r) apicall" where
  "http_copy_from V s0 =
    (if arg32 1 s0 = HDR_INVALID then returns32 HDR_INVALID s0
     else
       bind_api (get_field V (arg32 0 s0) (unat (arg32 1 s0)) s0) (\<lambda>(_, _, field_from) s.
       bind_api (get_http V (arg32 2 s0) s) (\<lambda>(w, hp) s.
         if fields_max hp \<le> field_count hp then returns32 HDR_INVALID s
         else
           let idx = field_count hp;
               hp' = vn_SetH V idx (cstr field_from) (hp\<lparr>field_count := idx + 1\<rparr>)
           in returns32 (of_nat idx) (put_http w hp' s))))"

definition http_set_status :: "('w, 'r) Varnish \<Rightarrow> ('w, 'r) apicall" where
  "http_set_status V s0 =
    bind_api (get_field V (arg32 0 s0) 3 s0) (\<lambda>(w, hp, _) s.
      if arg32 1 s0 <s 0 then returns (scast (of_nat (status hp) :: 16 word)) s
      else
        let vm = mc_vm (sc_machine s);
            (str, ws) = vn_ws_printf V (vm_ws vm) (unat (arg32 1 s0));
            s1 = s\<lparr>sc_machine := set_vm (vm\<lparr>vm_ws := ws\<rparr>) (sc_machine s)\<rparr>
        in case str of
             None \<Rightarrow> (Inl Runtime_error, s1)
           | Some t \<Rightarrow>
               returns32 (arg32 1 s0)
                 (put_http w (hp\<lparr>status := unat (arg32 1 s0) mod 2 ^ 16, field_array := (field_array hp)(3 := t)\<rparr>) s1))"

fun unset_matching :: "('w, 'r) Varnish \<Rightarrow> 'r \<Rightarrow> nat \<Rightarrow> Http \<Rightarrow> nat \<Rightarrow> (api_error + nat) \<times> Http" where
  "unset_matching V vre 0 hp mcount = (Inr mcount, hp)"
| "unset_matching V vre (Suc i) hp mcount =
    (if i < HDR_FIRST then (Inr mcount, hp)
     else if vn_match V vre (field_array hp i) then
       (case http_unsetat (vn_ndebug V) i hp of
          Inl e \<Rightarrow> (Inl e, hp)
        | Inr hp' \<Rightarrow> unset_matching V vre i hp' (mcount + 1))
     else unset_matching V vre i hp mcount)"

definition http_unset_re :: "('w, 'r) Varnish \<Rightarrow> ('w, 'r) apicall" where
  "http_unset_re V s0 =
    (case cache_get (unat (scast (arg32 1 s0) :: 64 word)) (sc_regex s0) of
       Inl e \<Rightarrow> (Inl e, s0)
     | Inr re \<Rightarrow>
         bind_api (get_http V (arg32 0 s0) s0) (\<lambda>(w, hp) s.
           if field_count hp \<le> HDR_FIRST then returns 0 s
           else case re of
               None \<Rightarrow> (Inl Null_pointer, s)
             | Some vre \<Rightarrow>
                 (case unset_matching V vre (field_count hp) hp 0 of
                    (Inl e, hp') \<Rightarrow> (Inl e, put_http w hp' s)
                  | (Inr mcount, hp') \<Rightarrow> returns (of_nat mcount) (put_http w hp' s))))"

definition header_field_get :: "('w, 'r) apicall" where
  "header_field_get = returns (- 1)"

definition header_field_retrieve :: "('w, 'r) Varnish \<Rightarrow> ('w, 'r) apicall" where
  "header_field_retrieve V s0 =
    bind_api (get_http V (arg32 0 s0) s0) (\<lambda>(w, hp) s.
      if is_valid_index hp (unat (arg32 1 s0)) then
        let field = field_array hp (unat (arg32 1 s0)); len = field_length field in
        if arg 2 s0 = 0 \<and> arg32 3 s0 = 0 then returns (ucast len) s
        else if arg32 3 s0 < len then returns (- 1) s
        else
          bind_api (in_memory (mem_memcpy (vn_pages V) (unat (arg 2 s0)) (take (unat len) field) (mc_vm (sc_machine s))) s)
            (\<lambda>_ s. returns (ucast len) s)
      else returns (- 1) s)"

text \<open>The size of the allocation, \<open>len + 1\<close>, is computed in 32 bits.\<close>

definition header_field_append :: "('w, 'r) Varnish \<Rightarrow> ('w, 'r) apicall" where
  "header_field_append V s0 =
    bind_api (get_http V (arg32 0 s0) s0) (\<lambda>(w, hp) s.
      let len = arg32 2 s0; room = unat (len + 1) in
      bind_api (WS_Alloc V room s) (\<lambda>_ s.
      bind_api (in_memory (mem_memcpy_out (vn_pages V) (unat (arg 1 s0)) (unat len) (mc_vm (sc_machine s))) s) (\<lambda>val s.
        if room \<le> unat len then (Inl Host_overflow, s)
        else if fields_max hp \<le> field_count hp then returns32 HDR_INVALID s
        else
          let idx = field_count hp;
              hp' = hp\<lparr>field_count := idx + 1, field_array := (field_array hp)(idx := val), field_flags := (field_flags hp)(idx := 0)\<rparr>
          in returns32 (of_nat idx) (put_http w hp' s))))"

definition header_field_set :: "('w, 'r) Varnish \<Rightarrow> ('w, 'r) apicall" where
  "header_field_set V s0 =
    bind_api (arg_buffer V 2 s0) (\<lambda>buffer s.
    bind_api (get_http V (arg32 0 s0) s) (\<lambda>(w, hp) s.
      let index = unat (arg32 1 s0) in
      if is_valid_index hp index then
        bind_api (WS_Alloc V ((m_len buffer + 1) mod 2 ^ 32) s) (\<lambda>_ s.
          let val = buffer_copy_to (vn_hmem V (mc_vm (sc_machine s))) (m_len buffer) buffer
          in returns (of_nat (m_len buffer)) (put_http w (vn_SetH V index (cstr val) hp) s))
      else if arg32 1 s0 = HDR_INVALID then returns (- 1) s
      else (Inl Out_of_range, s)))"

definition header_field_copy :: "('w, 'r) Varnish \<Rightarrow> ('w, 'r) apicall" where
  "header_field_copy V s0 =
    bind_api (get_http V (arg32 0 s0) s0) (\<lambda>(w, hp) s.
    bind_api (get_http V (arg32 2 s0) s) (\<lambda>(_, src_hp) s.
      let index = unat (arg32 1 s0); src_index = unat (arg32 3 s0) in
      if is_valid_index hp index then
        if is_valid_index src_hp src_index then
          let src_field = field_array src_hp src_index in
          returns32 (field_length src_field)
            (put_http w (hp\<lparr>field_array := (field_array hp)(index := src_field), field_flags := (field_flags hp)(index := 0)\<rparr>) s)
        else bind_api (unset_in V w hp index s) (\<lambda>_ s. returns32 HDR_INVALID s)
      else if arg32 1 s0 = HDR_INVALID \<or> arg32 3 s0 = HDR_INVALID then returns32 HDR_INVALID s
      else (Inl Out_of_range, s)))"

definition header_field_unset :: "('w, 'r) Varnish \<Rightarrow> ('w, 'r) apicall" where
  "header_field_unset V s0 =
    bind_api (get_http V (arg32 0 s0) s0) (\<lambda>(w, hp) s.
      let index = unat (arg32 1 s0) in
      if is_valid_index hp index \<and> HDR_FIRST \<le> index then
        bind_api (unset_in V w hp index s) (\<lambda>_ s. returns32 (arg32 1 s0) s)
      else if arg32 1 s0 = HDR_INVALID then returns32 HDR_INVALID s
      else (Inl Out_of_range, s))"
section \<open>Iterating over header fields\<close>

definition guest_header_field :: "('w, 'r) Varnish \<Rightarrow> 32 word \<Rightarrow> nat \<Rightarrow> txt_t" where
  "guest_header_field V wh idx = le_bytes 4 (unat wh) @ le_bytes 4 idx @ [0, 1] @ take 2 (vn_padding V @ [0, 0])"

text \<open>The descriptors of the fields that are not empty are stored one after the other; their number is the result.\<close>

fun store_descriptors :: "('w, 'r) Varnish \<Rightarrow> 32 word \<Rightarrow> Http \<Rightarrow> nat list \<Rightarrow> nat \<Rightarrow> nat \<Rightarrow> 'w VM \<Rightarrow> (nat, 'w VM) thrown" where
  "store_descriptors V wh hp [] iterator acount vm = (Inr acount, vm)"
| "store_descriptors V wh hp (idx # idxs) iterator acount vm =
    (if field_length (field_array hp idx) = 0 then store_descriptors V wh hp idxs iterator acount vm
     else case mem_memcpy (vn_pages V) iterator (guest_header_field V wh idx) vm of
         (Inl e, vm1) \<Rightarrow> (Inl e, vm1)
       | (Inr _, vm1) \<Rightarrow> store_descriptors V wh hp idxs (add64 iterator 12) (acount + 1) vm1)"

text \<open>
  The fields that the guest has marked as deleted are removed one by one.  The index is what the guest left in the
  descriptor; the number of fields removed so far is subtracted from it, in 32 bits.
\<close>

fun delete_marked :: "('w, 'r) Varnish \<Rightarrow> Where \<Rightarrow> nat list \<Rightarrow> nat \<Rightarrow> ('w, 'r) apicall" where
  "delete_marked V w [] dcount s = (Inr (), s)"
| "delete_marked V w (addr # addrs) dcount s =
    bind_api (in_memory (mem_read (vn_pages V) 1 (add64 addr 8) (mc_vm (sc_machine s))) s) (\<lambda>deleted s.
      if deleted = 0 then delete_marked V w addrs dcount s
      else
        bind_api (in_memory (mem_read (vn_pages V) 4 (add64 addr 4) (mc_vm (sc_machine s))) s) (\<lambda>idx s.
          case sc_http s w of
            None \<Rightarrow> (Inl Null_pointer, s)
          | Some hp \<Rightarrow>
              if is_valid_index hp idx
              then bind_api (unset_in V w hp (sub32 idx dcount) s) (\<lambda>_ s. delete_marked V w addrs (dcount + 1) s)
              else delete_marked V w addrs dcount s))"

definition keep_registers :: "'w CPU \<Rightarrow> 'w CPU \<Rightarrow> 'w CPU" where
  "keep_registers c0 c = c\<lparr>cpu_regs := cpu_regs c0, cpu_pc := cpu_pc c0, cpu_fcsr := cpu_fcsr c0, cpu_fl := cpu_fl c0\<rparr>"

definition script_preempt :: "('w, 'r) Varnish \<Rightarrow> 64 word \<Rightarrow> 64 word \<Rightarrow> nat \<Rightarrow> nat \<Rightarrow> ('w, 'r) Script \<Rightarrow> ('w, 'r) Script" where
  "script_preempt V func data first acount s =
    (let s1 = vn_preempt V func data first acount s; M1 = sc_machine s1
     in s1\<lparr>sc_machine := M1\<lparr>mc_cpu := keep_registers (mc_cpu (sc_machine s)) (mc_cpu M1)\<rparr>\<rparr>)"

definition guest_free :: "('w, 'r) Varnish \<Rightarrow> nat \<Rightarrow> ('w, 'r) apicall" where
  "guest_free V addr s =
    (case mc_arena (sc_machine s) of
       None \<Rightarrow> (Inl (Machine_error (MachineException SYSTEM_CALL_FAILED 0)), s)
     | Some a \<Rightarrow> (Inr (), s\<lparr>sc_machine := (sc_machine s)\<lparr>mc_arena := Some (snd (arena_free (vn_unknown_free V) (addr mod 2 ^ 32) a))\<rparr>\<rparr>))"

definition guest_alloc :: "nat \<Rightarrow> ('w, 'r) Script \<Rightarrow> (nat, 'w, 'r) answer option" where
  "guest_alloc len s =
    (case mc_arena (sc_machine s) of
       None \<Rightarrow> Some (Inl (Machine_error (MachineException SYSTEM_CALL_FAILED 0)), s)
     | Some a \<Rightarrow>
         map_option (\<lambda>(r, a1). (case r of Inl e \<Rightarrow> Inl (Machine_error e) | Inr p \<Rightarrow> Inr p, s\<lparr>sc_machine := (sc_machine s)\<lparr>mc_arena := Some a1\<rparr>\<rparr>))
           (arena_malloc len a))"

definition foreach_header_field :: "('w, 'r) Varnish \<Rightarrow> ('w, 'r) Script \<Rightarrow> (unit, 'w, 'r) answer option" where
  "foreach_header_field V s0 =
    (case get_http V (arg32 0 s0) s0 of
       (Inl e, s) \<Rightarrow> Some (Inl e, s)
     | (Inr (w, hp), s) \<Rightarrow>
         map_option (\<lambda>r. bind_api r (\<lambda>first s.
           bind_api (in_memory (store_descriptors V (arg32 0 s0) hp [HDR_FIRST ..< field_count hp] first 0 (mc_vm (sc_machine s))) s)
             (\<lambda>acount s.
               bind_api (delete_marked V w (map (\<lambda>i. add64 first (12 * i)) [0 ..< acount]) 0
                   (script_preempt V (arg 1 s0) (arg 2 s0) first acount s)) (\<lambda>_ s.
               bind_api (guest_free V first s) (\<lambda>_ s. returns32 (of_nat acount) s)))))
           (guest_alloc (field_count hp * 12) s))"

section \<open>Regular expressions\<close>

definition regex_compile :: "('w, 'r) Varnish \<Rightarrow> ('w, 'r) apicall" where
  "regex_compile V s0 =
    bind_api (arg_buffer V 0 s0) (\<lambda>pbuffer s.
      let pattern = contents V pbuffer s;
          h = crc32 pattern;
          idx = cache_lookup h (sc_regex s)
      in if 0 \<le> idx then returns32 (of_int idx) s
         else case vn_compile V pattern of
             None \<Rightarrow> (Inl Runtime_error, s)
           | Some re \<Rightarrow>
               (case cache_manage (Some re) h (sc_regex s) of
                  (Inl e, c) \<Rightarrow> (Inl e, s\<lparr>sc_regex := c\<rparr>)
                | (Inr i, c) \<Rightarrow> returns (of_nat i) (s\<lparr>sc_regex := c\<rparr>)))"

definition regex_match :: "('w, 'r) Varnish \<Rightarrow> ('w, 'r) apicall" where
  "regex_match V s0 =
    bind_api (arg_buffer V 1 s0) (\<lambda>buffer s.
      case cache_get (unat (arg32 0 s0)) (sc_regex s) of
        Inl e \<Rightarrow> (Inl e, s)
      | Inr None \<Rightarrow> (Inl Null_pointer, s)
      | Inr (Some vre) \<Rightarrow> returns (if vn_match V vre (contents V buffer s) then 1 else 0) s)"

definition regex_delete :: "('w, 'r) apicall" where
  "regex_delete s = (case cache_free (unat (arg32 0 s)) (sc_regex s) of (r, c) \<Rightarrow> (r, s\<lparr>sc_regex := c\<rparr>))"

section \<open>Decisions\<close>

definition machine_stop :: "('w, 'r) apicall" where
  "machine_stop s = (Inr (), s\<lparr>sc_machine := (sc_machine s)\<lparr>mc_cpu := stop (mc_cpu (sc_machine s))\<rparr>\<rparr>)"

definition script_set_result :: "txt_t \<Rightarrow> 64 word \<Rightarrow> bool \<Rightarrow> ('w, 'r) Script \<Rightarrow> ('w, 'r) Script" where
  "script_set_result res v p s = s\<lparr>sc_want_result := res, sc_want_values := (sc_want_values s)[0 := v], sc_is_paused := p\<rparr>"

definition set_exit_address :: "64 word \<Rightarrow> ('w, 'r) Script \<Rightarrow> ('w, 'r) Script" where
  "set_exit_address addr s =
    (let vm = mc_vm (sc_machine s) in
     s\<lparr>sc_machine := set_vm (vm\<lparr>vm_mem := (vm_mem vm)\<lparr>m_exit_address := unat addr\<rparr>\<rparr>) (sc_machine s)\<rparr>)"

definition set_decision :: "('w, 'r) Varnish \<Rightarrow> ('w, 'r) apicall" where
  "set_decision V s0 =
    (if sc_is_forked s0 then
       bind_api (arg_buffer V 0 s0) (\<lambda>result s.
         machine_stop (script_set_result (contents V result s) (arg 2 s0) (arg 3 s0 \<noteq> 0) s))
     else
       let s1 = s0\<lparr>sc_is_paused := True\<rparr>;
           s2 = (if arg 0 s0 \<noteq> 0 then s1\<lparr>sc_callbacks := (sc_callbacks s1)[1 := arg 0 s0]\<rparr> else s1);
           s3 = (if arg 1 s0 \<noteq> 0 then set_exit_address (arg 1 s0) s2 else s2)
       in machine_stop s3)"

definition backend_decision :: "('w, 'r) apicall" where
  "backend_decision s =
    (let caching = ucast (arg32 0 s); func = arg 1 s; farg = arg 2 s; farglen = arg 3 s
     in machine_stop
          (if func \<noteq> 0
           then s\<lparr>sc_want_result := map (of_nat \<circ> of_char) ''backend'', sc_want_values := [caching, func, farg], sc_is_paused := True\<rparr>
           else s\<lparr>sc_want_result := map (of_nat \<circ> of_char) ''compute'', sc_want_values := [caching, farg, farglen], sc_is_paused := True\<rparr>))"

definition register_callback :: "('w, 'r) apicall" where
  "register_callback s =
    (if arg32 0 s = - 1 then returns 0 (set_exit_address (arg 1 s) s)
     else if length (sc_callbacks s) \<le> unat (arg32 0 s) then (Inl Out_of_range, s)
     else returns 0 (s\<lparr>sc_callbacks := (sc_callbacks s)[unat (arg32 0 s) := arg 1 s]\<rparr>))"

definition register_func :: "('w, 'r) Varnish \<Rightarrow> ('w, 'r) apicall" where
  "register_func V s0 =
    (if 256 < unat (arg32 1 s0) then (Inl Runtime_error, s0)
     else
       bind_api (in_memory (mem_memcpy_out (vn_pages V) (unat (arg 0 s0)) (unat (arg32 1 s0)) (mc_vm (sc_machine s0))) s0) (\<lambda>name s.
         (Inr (), s\<lparr>sc_functions := (sc_functions s)(name \<mapsto> arg 2 s0)\<rparr>)))"

definition signal_call :: "('w, 'r) apicall" where
  "signal_call s = (Inr (), s\<lparr>sc_sighandler := arg 1 s\<rparr>)"

definition is_storage_call :: "('w, 'r) apicall" where
  "is_storage_call s = returns (if sc_is_storage s then 1 else 0) s"

definition purge :: "('w, 'r) apicall" where
  "purge = returns (- 1)"
section \<open>Sequences of calls\<close>

datatype api_call = Find_name | Copy_from | Set_status | Unset_re | Field_get | Field_retrieve | Field_append | Field_set | Field_copy
  | Field_unset | Regex_compile | Regex_match | Regex_delete | Set_decision | Backend_decision | Register_callback | Register_func
  | Signal | Is_storage | Purge

fun api_step :: "('w, 'r) Varnish \<Rightarrow> api_call \<Rightarrow> ('w, 'r) apicall" where
  "api_step V Find_name = http_find_name V"
| "api_step V Copy_from = http_copy_from V"
| "api_step V Set_status = http_set_status V"
| "api_step V Unset_re = http_unset_re V"
| "api_step V Field_get = header_field_get"
| "api_step V Field_retrieve = header_field_retrieve V"
| "api_step V Field_append = header_field_append V"
| "api_step V Field_set = header_field_set V"
| "api_step V Field_copy = header_field_copy V"
| "api_step V Field_unset = header_field_unset V"
| "api_step V Regex_compile = regex_compile V"
| "api_step V Regex_match = regex_match V"
| "api_step V Regex_delete = regex_delete"
| "api_step V Set_decision = set_decision V"
| "api_step V Backend_decision = backend_decision"
| "api_step V Register_callback = register_callback"
| "api_step V Register_func = register_func V"
| "api_step V Signal = signal_call"
| "api_step V Is_storage = is_storage_call"
| "api_step V Purge = purge"

text \<open>A guest computes between its calls, which changes the machine but nothing of Varnish's.\<close>

inductive api_run :: "('w, 'r) Varnish \<Rightarrow> ('w, 'r) Script \<Rightarrow> ('w, 'r) Script \<Rightarrow> bool" for V s where
  start: "api_run V s s"
| computes: "api_run V s s1 \<Longrightarrow> api_run V s (s1\<lparr>sc_machine := M\<rparr>)"
| calls: "api_run V s s1 \<Longrightarrow> api_step V c s1 = (r, s2) \<Longrightarrow> api_run V s s2"

section \<open>Facts about the state\<close>

lemma bind_api_simps [simp]:
  "bind_api (Inl e, s) k = (Inl e, s)" "bind_api (Inr x, s) k = k x s"
  by (simp_all add: bind_api_def)

lemma bind_api_snd:
  assumes "P (snd r)" and "\<And>x s. r = (Inr x, s) \<Longrightarrow> P s \<Longrightarrow> P (snd (k x s))"
  shows "P (snd (bind_api r k))"
  using assms by (cases r; cases "fst r") (auto simp: bind_api_def)

lemma in_memory_sel [simp]: "sc_http (snd (in_memory r s)) = sc_http s" "sc_regex (snd (in_memory r s)) = sc_regex s"
  by (simp_all add: in_memory_def)

lemma arg_buffer_sel [simp]: "sc_http (snd (arg_buffer V i s)) = sc_http s" "sc_regex (snd (arg_buffer V i s)) = sc_regex s"
  by (simp_all add: arg_buffer_def)

lemma WS_Alloc_sel [simp]: "sc_http (snd (WS_Alloc V n s)) = sc_http s" "sc_regex (snd (WS_Alloc V n s)) = sc_regex s"
  by (simp_all add: WS_Alloc_def Let_def case_prod_beta)

lemma returns_sel [simp]: "sc_http (snd (returns v s)) = sc_http s" "sc_http (snd (returns32 u s)) = sc_http s"
  "fst (returns v s) = Inr ()" "fst (returns32 u s) = Inr ()"
  by (simp_all add: returns32_def returns_def)

lemma get_http_cases:
  obtains "get_http V wh s = (Inl Runtime_error, s)"
    | w hp where "get_http V wh s = (Inr (w, hp), s)" and "vn_where V wh = Some w" and "sc_http s w = Some hp"
  by (cases "vn_where V wh"; cases "sc_http s (the (vn_where V wh))") (auto simp: get_http_def)

section \<open>The number of header fields\<close>

text \<open>The HTTP objects of a request are those it started with, and no call makes one larger than its arrays.\<close>

definition fields_ok :: "(Where \<Rightarrow> nat option) \<Rightarrow> ('w, 'r) Script \<Rightarrow> bool" where
  "fields_ok sizes s \<longleftrightarrow>
    (\<forall>w. case sc_http s w of None \<Rightarrow> sizes w = None | Some hp \<Rightarrow> sizes w = Some (fields_max hp) \<and> field_count hp \<le> fields_max hp)"

definition SetH_ok :: "('w, 'r) Varnish \<Rightarrow> bool" where
  "SetH_ok V \<longleftrightarrow> (\<forall>n t hp. field_count (vn_SetH V n t hp) = field_count hp \<and> fields_max (vn_SetH V n t hp) = fields_max hp)"

lemma fields_okD: "fields_ok sizes s \<Longrightarrow> sc_http s w = Some hp \<Longrightarrow> sizes w = Some (fields_max hp) \<and> field_count hp \<le> fields_max hp"
  by (auto simp: fields_ok_def split: option.splits dest: spec [of _ w])

lemma fields_ok_put:
  "fields_ok sizes s \<Longrightarrow> sizes w = Some (fields_max hp) \<Longrightarrow> field_count hp \<le> fields_max hp \<Longrightarrow> fields_ok sizes (put_http w hp s)"
  by (auto simp: fields_ok_def put_http_def)

lemma fields_ok_cong: "sc_http s' = sc_http s \<Longrightarrow> fields_ok sizes s' = fields_ok sizes s"
  by (simp add: fields_ok_def)

lemma fields_ok_returns [simp]:
  "fields_ok sizes (snd (returns v s)) = fields_ok sizes s" "fields_ok sizes (snd (returns32 u s)) = fields_ok sizes s"
  "fields_ok sizes (snd (in_memory m s)) = fields_ok sizes s" "fields_ok sizes (snd (arg_buffer V i s)) = fields_ok sizes s"
  "fields_ok sizes (snd (WS_Alloc V n s)) = fields_ok sizes s" "fields_ok sizes (snd (get_http V wh s)) = fields_ok sizes s"
  "fields_ok sizes (s\<lparr>sc_machine := M\<rparr>) = fields_ok sizes s" "fields_ok sizes (s\<lparr>sc_regex := rc\<rparr>) = fields_ok sizes s"
  "fields_ok sizes (s\<lparr>sc_callbacks := cs\<rparr>) = fields_ok sizes s" "fields_ok sizes (s\<lparr>sc_functions := fs\<rparr>) = fields_ok sizes s"
  "fields_ok sizes (s\<lparr>sc_is_paused := p\<rparr>) = fields_ok sizes s" "fields_ok sizes (s\<lparr>sc_sighandler := h\<rparr>) = fields_ok sizes s"
  "fields_ok sizes (s\<lparr>sc_want_result := t\<rparr>) = fields_ok sizes s" "fields_ok sizes (s\<lparr>sc_want_values := ws\<rparr>) = fields_ok sizes s"
  by (rule fields_ok_cong, simp)+ (simp_all add: get_http_def fields_ok_def split: option.splits)

lemma unset_fields:
  "http_unsetat nd idx hp = Inr hp' \<Longrightarrow> field_count hp' + 1 = field_count hp \<and> fields_max hp' = fields_max hp"
  by (auto simp: http_unsetat_def split: if_splits)

lemma unset_matching_fields:
  assumes "unset_matching V vre i hp m = (r, hp')"
  shows "field_count hp' \<le> field_count hp \<and> fields_max hp' = fields_max hp"
  using assms
proof (induction V vre i hp m rule: unset_matching.induct)
  case (2 V vre i hp m)
  then show ?case
    using unset_fields by (fastforce split: if_splits sum.splits)
qed simp
lemma fields_ok_update:
  assumes "sc_http s w = Some hp" and "fields_ok sizes s" and "fields_max hp' = fields_max hp" and "field_count hp' \<le> fields_max hp"
  shows "fields_ok sizes (put_http w hp' s)"
  using fields_ok_put [OF assms(2), of w hp'] fields_okD [OF assms(2,1)] assms(3,4) by simp

lemma get_http_Inr: "get_http V wh s = (Inr (w, hp), s') \<Longrightarrow> s' = s \<and> sc_http s w = Some hp \<and> vn_where V wh = Some w"
  by (auto simp: get_http_def split: option.splits)

lemma get_field_Inr: "get_field V wh i s = (Inr (w, hp, f), s') \<Longrightarrow> s' = s \<and> sc_http s w = Some hp \<and> i < field_count hp \<and> f = field_array hp i"
  by (auto simp: get_field_def bind_api_def is_valid_index_def dest!: get_http_Inr split: prod.splits sum.splits if_splits)

lemma get_field_fields [simp]: "fields_ok sizes (snd (get_field V wh i s)) = fields_ok sizes s"
  by (cases rule: get_http_cases [of V wh s]) (simp_all add: get_field_def)

lemma bind_fields:
  assumes "fields_ok sizes (snd r)" and "\<And>x s. r = (Inr x, s) \<Longrightarrow> fields_ok sizes s \<Longrightarrow> fields_ok sizes (snd (k x s))"
  shows "fields_ok sizes (snd (bind_api r k))"
  by (rule bind_api_snd [where P = "fields_ok sizes", OF assms])

lemma unset_in_fields:
  assumes "fields_ok sizes s" and "sc_http s w = Some hp"
  shows "fields_ok sizes (snd (unset_in V w hp idx s))"
  using assms fields_okD [OF assms] unset_fields [of "vn_ndebug V" idx hp] fields_ok_put [OF assms(1)]
  by (fastforce simp: unset_in_def split: sum.splits)

lemma api_fields:
  assumes ok: "fields_ok sizes s"
  shows "fields_ok sizes (snd (http_find_name V s))" and "SetH_ok V \<Longrightarrow> fields_ok sizes (snd (http_copy_from V s))"
    and "fields_ok sizes (snd (http_set_status V s))" and "fields_ok sizes (snd (http_unset_re V s))"
    and "fields_ok sizes (snd (header_field_retrieve V s))" and "fields_ok sizes (snd (header_field_append V s))"
    and "SetH_ok V \<Longrightarrow> fields_ok sizes (snd (header_field_set V s))" and "fields_ok sizes (snd (header_field_copy V s))"
    and "fields_ok sizes (snd (header_field_unset V s))"
proof -
  note D = fields_okD [OF ok]
  show "fields_ok sizes (snd (http_find_name V s))"
    unfolding http_find_name_def using ok by (auto intro!: bind_fields simp: Let_def)
  show "fields_ok sizes (snd (http_copy_from V s))" if "SetH_ok V"
  proof -
    have "fields_ok sizes (put_http w (vn_SetH V (field_count hp) t (hp\<lparr>field_count := Suc (field_count hp)\<rparr>)) s)"
      if "sc_http s w = Some hp" "\<not> fields_max hp \<le> field_count hp" for w hp t
      using \<open>SetH_ok V\<close> that(2) by (intro fields_ok_update [OF that(1) ok]) (simp_all add: SetH_ok_def)
    then show ?thesis
      unfolding http_copy_from_def using ok by (auto intro!: bind_fields dest!: get_http_Inr get_field_Inr simp: Let_def)
  qed
  show "fields_ok sizes (snd (http_set_status V s))"
    unfolding http_set_status_def using ok
    by (auto intro!: bind_fields fields_ok_put dest!: get_field_Inr D simp: Let_def split: prod.splits option.splits)
  show "fields_ok sizes (snd (header_field_retrieve V s))"
    unfolding header_field_retrieve_def using ok by (auto intro!: bind_fields simp: Let_def)
  show "fields_ok sizes (snd (header_field_append V s))"
    unfolding header_field_append_def using ok
    by (auto intro!: bind_fields fields_ok_put dest!: get_http_Inr D simp: Let_def)
  show "fields_ok sizes (snd (header_field_set V s))" if "SetH_ok V"
    unfolding header_field_set_def using ok that
    by (auto intro!: bind_fields fields_ok_put dest!: get_http_Inr fields_okD [rotated] simp: Let_def SetH_ok_def)
  have put: "fields_ok sizes (put_http w (hp\<lparr>field_array := fa, field_flags := ff\<rparr>) s)" if "sc_http s w = Some hp" for w hp fa ff
    by (rule fields_ok_put [OF ok]) (use D [OF that] in simp_all)
  show "fields_ok sizes (snd (header_field_copy V s))"
    unfolding header_field_copy_def using ok
    by (auto intro!: bind_fields put unset_in_fields dest!: get_http_Inr simp: Let_def)
  show "fields_ok sizes (snd (header_field_unset V s))"
    unfolding header_field_unset_def using ok
    by (auto intro!: bind_fields unset_in_fields dest!: get_http_Inr simp: Let_def)
  show "fields_ok sizes (snd (http_unset_re V s))"
  proof (cases "cache_get (unat (scast (arg32 1 s) :: 64 word)) (sc_regex s)")
    case (Inl e)
    then show ?thesis
      using ok by (simp add: http_unset_re_def)
  next
    case (Inr re)
    have "fields_ok sizes (put_http w hp' s')" if "sc_http s' w = Some hp" "fields_ok sizes s'" "unset_matching V vre (field_count hp) hp 0 = (x, hp')"
      for w hp hp' s' vre x
      using fields_okD [OF that(2,1)] unset_matching_fields [OF that(3)] that(2) by (auto intro: fields_ok_put)
    then show ?thesis
      unfolding http_unset_re_def Inr using ok
      by (auto intro!: bind_fields dest!: get_http_Inr split: option.splits prod.splits sum.splits)
  qed
qed
lemma stop_fields [simp]: "fields_ok sizes (snd (machine_stop s)) = fields_ok sizes s"
  by (rule fields_ok_cong) (simp add: machine_stop_def)

lemma state_fields [simp]:
  "fields_ok sizes (set_exit_address a s) = fields_ok sizes s" "fields_ok sizes (script_set_result res v p s) = fields_ok sizes s"
  by (rule fields_ok_cong, simp add: set_exit_address_def script_set_result_def Let_def)+

lemma api_step_fields:
  assumes ok: "fields_ok sizes s" and set: "SetH_ok V"
  shows "fields_ok sizes (snd (api_step V c s))"
proof (cases c)
  case Regex_compile
  then show ?thesis
    using ok by (auto intro!: bind_fields simp: regex_compile_def Let_def split: option.splits prod.splits sum.splits)
next
  case Regex_match
  then show ?thesis
    using ok by (auto intro!: bind_fields simp: regex_match_def split: option.splits sum.splits)
next
  case Set_decision
  then show ?thesis
    using ok by (auto intro!: bind_fields simp: set_decision_def Let_def)
next
  case Register_func
  then show ?thesis
    using ok by (auto intro!: bind_fields simp: register_func_def)
qed (use ok set in \<open>simp_all add: api_fields header_field_get_def backend_decision_def register_callback_def signal_call_def
    is_storage_call_def purge_def regex_delete_def Let_def case_prod_beta\<close>)

section \<open>Staying inside of the arrays\<close>

definition in_bounds :: "('a, 'w, 'r) answer \<Rightarrow> bool" where
  "in_bounds r \<longleftrightarrow> fst r \<noteq> Inl Assertion_failed \<and> fst r \<noteq> Inl Host_overflow"

lemma in_bounds_simps [simp]:
  "in_bounds (Inr x, s)" "in_bounds (Inl Runtime_error, s)" "in_bounds (Inl Out_of_range, s)" "in_bounds (Inl Null_pointer, s)"
  "in_bounds (returns v s)" "in_bounds (returns32 u s)" "in_bounds (in_memory m s)" "in_bounds (arg_buffer V i s)"
  "in_bounds (WS_Alloc V n s)" "in_bounds (get_http V wh s)" "in_bounds (machine_stop s)"
  by (auto simp: in_bounds_def in_memory_def arg_buffer_def WS_Alloc_def get_http_def machine_stop_def Let_def case_prod_beta split: sum.splits option.splits)

lemma bind_in_bounds:
  assumes "in_bounds r" and "\<And>x s. r = (Inr x, s) \<Longrightarrow> in_bounds (k x s)"
  shows "in_bounds (bind_api r k)"
  using assms by (cases r; cases "fst r") (auto simp: bind_api_def in_bounds_def)

lemma get_field_in_bounds [simp]: "in_bounds (get_field V wh i s)"
  unfolding get_field_def by (auto intro!: bind_in_bounds)

lemma unset_in_in_bounds: "HDR_FIRST \<le> idx \<Longrightarrow> idx < field_count hp \<Longrightarrow> in_bounds (unset_in V w hp idx s)"
  by (simp add: unset_in_def http_unsetat_def)

lemma unset_matching_in_bounds:
  assumes "i \<le> field_count hp"
  shows "fst (unset_matching V vre i hp m) \<noteq> Inl Assertion_failed \<and> fst (unset_matching V vre i hp m) \<noteq> Inl Host_overflow"
  using assms
proof (induction V vre i hp m rule: unset_matching.induct)
  case (2 V vre i hp m)
  show ?case
  proof (cases "i < HDR_FIRST \<or> \<not> vn_match V vre (field_array hp i)")
    case True
    then show ?thesis
      using 2 by auto
  next
    case False
    obtain hp' where hp': "http_unsetat (vn_ndebug V) i hp = Inr hp'"
      using False 2(3) by (simp add: http_unsetat_def)
    then have "i \<le> field_count hp'"
      using unset_fields [OF hp'] 2(3) by simp
    then show ?thesis
      using False hp' 2(1) by simp
  qed
qed simp

lemma cache_get_error: "cache_get i c = Inl e \<Longrightarrow> e = Out_of_range"
  by (auto simp: cache_get_def split: if_splits)

text \<open>The calls that can leave the arrays of an HTTP object or of a host buffer: only these two, with these arguments.\<close>

fun careful :: "('w, 'r) Varnish \<Rightarrow> api_call \<Rightarrow> ('w, 'r) Script \<Rightarrow> bool" where
  "careful V Field_append s \<longleftrightarrow> arg32 2 s \<noteq> 0xFFFFFFFF"
| "careful V Field_copy s \<longleftrightarrow> HDR_FIRST \<le> unat (arg32 1 s)"
| "careful V _ s \<longleftrightarrow> True"

lemma room_for_zero:
  assumes "len \<noteq> (0xFFFFFFFF :: 32 word)"
  shows "unat (len + 1) = unat len + 1"
proof -
  have "unat len \<noteq> unat (0xFFFFFFFF :: 32 word)"
    using assms unsigned_word_eqI by blast
  then have "unat len + 1 < 2 ^ 32"
    using unsigned_less [of len, where 'a = nat] by simp
  then show ?thesis
    by (simp add: unat_word_ariths)
qed

lemma append_in_bounds:
  assumes "arg32 2 s \<noteq> 0xFFFFFFFF"
  shows "in_bounds (header_field_append V s)"
  unfolding header_field_append_def Let_def using room_for_zero [OF assms] by (auto intro!: bind_in_bounds)

section \<open>What appending stores\<close>

lemma ws_view [simp]:
  "coherent bp (vm\<lparr>vm_ws := x\<rparr>) = coherent bp vm" "reads_master fe bp (vm\<lparr>vm_ws := x\<rparr>) = reads_master fe bp vm"
  "page_view bp (vm\<lparr>vm_ws := x\<rparr>) = page_view bp vm" "byte_at bp (vm\<lparr>vm_ws := x\<rparr>) = byte_at bp vm"
  by (auto simp: coherent_def reads_master_def isolated_def page_view_def byte_at_def find_page_def fun_eq_iff split: option.splits)

text \<open>
  (C26) Appending a header field in a request: a call that returns has either found the HTTP object full, said so and changed
  nothing, or added one field at the end, whose bytes are those of the guest's memory, and
  returned its index; the guest's memory does not change.  A call that throws changes no HTTP object.
\<close>

theorem header_append_stores:
  assumes H: "vn_pages V = fork_handlers fe" and vm: "vm = mc_vm (sc_machine s)" "reads_master fe bp vm" "coherent bp vm"
    and hp: "vn_where V (arg32 0 s) = Some w" "sc_http s w = Some hp"
    and a: "unat (arg 1 s) = addr" "unat (arg32 2 s) = len" "addr + len \<le> 2 ^ 64" "len < 2 ^ 32 - 1"
  shows "case header_field_append V s of
      (Inl e, s') \<Rightarrow> sc_http s' = sc_http s \<and> (e = Runtime_error \<or> (\<exists>m. e = Machine_error m))
    | (Inr _, s') \<Rightarrow>
        page_view bp (mc_vm (sc_machine s')) = page_view bp vm \<and>
        (if field_count hp < fields_max hp
         then sc_http s' = (sc_http s)(w \<mapsto> hp\<lparr>field_count := field_count hp + 1,
               field_array := (field_array hp)(field_count hp := map (byte_at bp vm) [addr ..< addr + len]),
               field_flags := (field_flags hp)(field_count hp := 0)\<rparr>) \<and>
             arg 0 s' = scast (of_nat (field_count hp) :: 32 word)
         else sc_http s' = sc_http s \<and> arg 0 s' = - 1)"
proof -
  have get: "get_http V (arg32 0 s) s = (Inr (w, hp), s)"
    using hp by (simp add: get_http_def)
  have "arg32 2 s \<noteq> 0xFFFFFFFF"
    using a(2,4) by auto
  then have room: "unat (arg32 2 s + 1) = len + 1"
    using room_for_zero a(2) by simp
  obtain ok ws where ws: "vn_ws_alloc V (vm_ws vm) (len + 1) = (ok, ws)"
    by fastforce
  let ?vm0 = "vm\<lparr>vm_ws := ws\<rparr>"
  let ?s0 = "s\<lparr>sc_machine := set_vm ?vm0 (sc_machine s)\<rparr>"
  have al: "WS_Alloc V (len + 1) s = (if ok then Inr () else Inl Runtime_error, ?s0)"
    using ws vm(1) by (simp add: WS_Alloc_def)
  obtain r vm1 where c: "mem_memcpy_out (fork_handlers fe) addr len ?vm0 = (r, vm1)"
    by fastforce
  let ?s1 = "s\<lparr>sc_machine := set_vm vm1 (set_vm ?vm0 (sc_machine s))\<rparr>"
  show ?thesis
  proof (cases "ok \<and> (\<exists>bs. r = Inr bs)")
    case False
    then show ?thesis
      using get room al c a(1,2) H
      by (auto simp: header_field_append_def Let_def in_memory_def split: if_splits sum.splits)
  next
    case True
    then obtain bs where bs: "r = Inr bs" and ok
      by blast
    have v: "page_view bp vm1 = page_view bp vm" "bs = map (byte_at bp vm) [addr ..< addr + len]"
      using fork_memory.memcpy_out_bytes [of fe bp ?vm0 addr len bs vm1] vm(2,3) a(3) c bs by simp_all
    then show ?thesis
      using get room al c a(1,2) H bs \<open>ok\<close>
      by (auto simp: header_field_append_def Let_def in_memory_def put_http_def returns32_def returns_def arg_def HDR_INVALID_def)
  qed
qed

section \<open>Where a guest leaves the arrays\<close>

text \<open>
  Copying a field that does not exist to a protocol field, index 0 to 5, removes the protocol field: the fields behind it move
  down by one, so the first header field takes the place of a protocol field.  With assertions
  compiled in, the process stops instead.
\<close>

theorem header_copy_removes_protocol_field:
  assumes "vn_where V (arg32 0 s) = Some w" "sc_http s w = Some hp" "vn_where V (arg32 2 s) = Some w'" "sc_http s w' = Some src"
    and "unat (arg32 1 s) = idx" "idx < HDR_FIRST" "HDR_FIRST < field_count hp" "field_count src \<le> unat (arg32 3 s)"
  shows "if vn_ndebug V
    then \<exists>hp'. header_field_copy V s = returns32 HDR_INVALID (put_http w hp' s) \<and> field_count hp' + 1 = field_count hp \<and>
      field_array hp' 5 = field_array hp HDR_FIRST
    else fst (header_field_copy V s) = Inl Assertion_failed"
  using assms
  by (auto simp: header_field_copy_def get_http_def is_valid_index_def unset_in_def http_unsetat_def Let_def HDR_FIRST_def)

text \<open>
  Appending a field of \<open>2 ^ 32 - 1\<close> bytes allocates none, because the size is computed in 32 bits, and then copies the
  field to the allocation.
\<close>

theorem header_append_overflows:
  assumes H: "vn_pages V = master_handlers sb se" and acc: "\<forall>q. accessible (mc_vm (sc_machine s)) q"
    and hp: "vn_where V (arg32 0 s) = Some w" "sc_http s w = Some hp" and len: "arg32 2 s = 0xFFFFFFFF"
    and ws: "vn_ws_alloc V (vm_ws (mc_vm (sc_machine s))) 0 = (True, ws)"
  shows "fst (header_field_append V s) = Inl Host_overflow"
proof -
  let ?vm0 = "(mc_vm (sc_machine s))\<lparr>vm_ws := ws\<rparr>"
  have "\<forall>q. accessible ?vm0 q"
    using acc by (simp add: accessible_def find_page_def)
  then obtain bs vm1 where "mem_memcpy_out (master_handlers sb se) (unat (arg 1 s)) 4294967295 ?vm0 = (Inr bs, vm1)"
    using master_memcpy_out_ok by blast
  then show ?thesis
    using hp ws H by (simp add: header_field_append_def get_http_def WS_Alloc_def in_memory_def len Let_def)
qed

text \<open>
  After a guest has marked two descriptors as deleted and set the index of both to 0, removing the second one computes the
  index \<open>- 1\<close>, and memory outside of the arrays is moved.  With assertions compiled in, the process stops at the first.
\<close>

theorem foreach_deletes_outside:
  assumes H: "vn_pages V = H" and vm: "mc_vm (sc_machine s) = vm"
    and marks: "\<forall>a \<in> {a1, a2}. mem_read H 1 (add64 a 8) vm = (Inr 1, vm) \<and> mem_read H 4 (add64 a 4) vm = (Inr 0, vm)"
    and hp: "sc_http s w = Some hp" "1 < field_count hp" "field_count hp < 2 ^ 16"
  shows "fst (delete_marked V w [a1, a2] 0 s) = Inl (if vn_ndebug V then Host_overflow else Assertion_failed)"
proof -
  have same: "in_memory (x, vm) (put_http w hp' s) = (case x of Inl e \<Rightarrow> Inl (Machine_error e) | Inr y \<Rightarrow> Inr y, put_http w hp' s)" for x hp'
    using vm by (cases x) (simp_all add: in_memory_def put_http_def set_vm_def mc_vm_def)
  have same0: "in_memory (x, vm) s = (case x of Inl e \<Rightarrow> Inl (Machine_error e) | Inr y \<Rightarrow> Inr y, s)" for x
    using vm by (cases x) (simp_all add: in_memory_def set_vm_def mc_vm_def)
  have pv: "mc_vm (sc_machine (put_http w hp' s)) = vm" "sc_http (put_http w hp' s) w = Some hp'" for hp'
    using vm by (simp_all add: put_http_def)
  have sub: "sub32 0 0 = 0" "sub32 0 (Suc 0) = 4294967295"
    by (simp_all add: sub32_def)
  have m: "mem_read H 1 (add64 a1 8) vm = (Inr 1, vm)" "mem_read H 4 (add64 a1 4) vm = (Inr 0, vm)"
    "mem_read H 1 (add64 a2 8) vm = (Inr 1, vm)" "mem_read H 4 (add64 a2 4) vm = (Inr 0, vm)"
    using marks by simp_all
  show ?thesis
    using hp by (auto simp: H vm m [simplified] same same0 pv sub unset_in_def http_unsetat_def is_valid_index_def HDR_FIRST_def)
qed
section \<open>Regular expressions\<close>


text \<open>
  A deleted entry keeps the hash 0, which is the hash of the empty pattern: compiling the empty pattern then returns the handle
  of the deleted entry, and matching with it passes a null pointer to the regular expression engine.
\<close>

theorem regex_deleted_handle:
  assumes ok: "cache_ok c" and idx: "idx < m_size c" and first: "\<forall>j < idx. hash (entries c ! j) \<noteq> 0"
    and free: "cache_free idx c = (Inr (), c')"
  shows "cache_lookup (crc32 []) c' = int idx \<and> cache_get idx c' = Inr None"
proof -
  have len: "idx < length (entries c)"
    using ok idx by (simp add: cache_ok_def)
  have c': "m_size c' = m_size c" "entries c' = (entries c)[idx := empty_entry]"
    using free len by (auto simp: cache_free_def)
  have z: "crc32 [] = 0"
    by (simp add: crc32_def crc32_from_def)
  have at: "hash (entries c' ! idx) = 0" "\<And>j. j < idx \<Longrightarrow> hash (entries c' ! j) \<noteq> 0"
    using first len by (simp_all add: c'(2) empty_entry_def)
  have "cache_lookup 0 c' = int idx"
  proof (cases rule: cache_lookup_cases [of 0 c'])
    case 1
    then show ?thesis
      using idx at(1) c'(1) by simp
  next
    case (2 i)
    have "i = idx"
      using 2(3,4) at by (metis linorder_neqE_nat)
    then show ?thesis
      using 2(1) by simp
  qed
  then show ?thesis
    using len z by (simp add: cache_get_def c'(2) empty_entry_def)
qed

section \<open>Witnesses\<close>

lemma memcpy_in_page:
  assumes "create_writable_pageno H (a div PageSize) (length d \<noteq> PageSize) vm = (Inr pg, vm1)" "d \<noteq> []" "a mod PageSize + length d \<le> PageSize"
  shows "mem_memcpy H a d vm = (Inr (), data_upd (pg_data pg) (copy_bytes (a mod PageSize) d) vm1)"
  using assms by (simp add: mem_memcpy.simps [of H a d] mem_memcpy.simps [of H _ "[]"] min_absorb2 Let_def)

definition demo_http :: Http where
  "demo_http = \<lparr> field_array = (\<lambda>i. if i = 6 then [72, 58, 97] else [47]), field_flags = (\<lambda>_. 0), field_count = 7, fields_max = 64, status = 200 \<rparr>"

definition demo_regs :: "64 word list \<Rightarrow> nat VM \<Rightarrow> nat Machine" where
  "demo_regs xs vm =
    \<lparr> mc_cpu = \<lparr> cpu_regs = (\<lambda>r. if 10 \<le> r \<and> r - 10 < length xs then xs ! (r - 10) else 0), cpu_pc = 0, cpu_fcsr = 0, cpu_fl = (\<lambda>_. 0),
        cpu_reservation = 0, cpu_counter = 0, cpu_max_counter = 0, cpu_vm = vm \<rparr>,
      mc_arena = None \<rparr>"

definition demo_script :: "64 word list \<Rightarrow> nat VM \<Rightarrow> (nat, unit) Script" where
  "demo_script xs vm =
    \<lparr> sc_machine = demo_regs xs vm, sc_http = [HDR_REQ \<mapsto> demo_http], sc_regex = Cache_ctor 16, sc_callbacks = replicate 12 0,
      sc_functions = Map.empty, sc_want_result = [], sc_want_values = [0, 0, 0], sc_is_paused = False, sc_is_storage = False,
      sc_is_forked = True, sc_sighandler = 0 \<rparr>"

definition demo_varnish :: "nat PageHandlers \<Rightarrow> bool \<Rightarrow> (nat, unit) Varnish" where
  "demo_varnish H nd =
    \<lparr> vn_where = (\<lambda>n. if n = 0 then Some HDR_REQ else None), vn_pages = H, vn_host = (\<lambda>d. 8192 * d),
      vn_hmem = (\<lambda>vm x. vm_data vm (x div 8192) (x mod 8192)), vn_ws_alloc = (\<lambda>w n. (w < 100, w + 1)), vn_ws_printf = (\<lambda>w n. (Some [48], w)),
      vn_SetH = (\<lambda>n t hp. hp\<lparr>field_array := (field_array hp)(n := t)\<rparr>), vn_compile = (\<lambda>t. Some ()), vn_match = (\<lambda>_ t. t = [97]),
      vn_ndebug = nd, vn_padding = [], vn_unknown_free = default_unknown_free, vn_preempt = (\<lambda>_ _ _ _ s. s) \<rparr>"

lemma demo_script_sel [simp]:
  "sc_http (demo_script xs vm) = [HDR_REQ \<mapsto> demo_http]" "mc_vm (sc_machine (demo_script xs vm)) = vm" "sc_regex (demo_script xs vm) = Cache_ctor 16"
  "i < length xs \<Longrightarrow> arg i (demo_script xs vm) = xs ! i"
  by (simp_all add: demo_script_def demo_regs_def mc_vm_def arg_def sysarg_def reg_def REG_ARG0_def)

lemma demo_varnish_sel [simp]:
  "vn_where (demo_varnish H nd) 0 = Some HDR_REQ" "vn_pages (demo_varnish H nd) = H" "vn_ndebug (demo_varnish H nd) = nd"
  "vn_ws_alloc (demo_varnish H nd) w n = (w < 100, w + 1)" "vn_compile (demo_varnish H nd) t = Some ()"
  by (simp_all add: demo_varnish_def)



theorem header_append_stores_witness:
  "\<exists>r s'. header_field_append (demo_varnish (fork_handlers demo_fork) True) (demo_script [0, 0x10004, 5] (fork_vm demo_memory 0 demo_host)) = (r, s') \<and>
    ((\<exists>e. r = Inl e) \<or> field_array (the (sc_http s' HDR_REQ)) 7 = [11, 12, 13, 14, 15])"
proof -
  let ?V = "demo_varnish (fork_handlers demo_fork) True" and ?vm = "fork_vm demo_memory 0 demo_host"
  let ?s = "demo_script [0, 0x10004, 5] ?vm"
  let ?bp = "\<lambda>p. vm_data demo_host (pg_data (parent_page demo_memory p))"
  have g: "reads_master demo_fork ?bp ?vm" "coherent ?bp ?vm"
    using fork_vm_ready [OF demo_wf, where fe = demo_fork and ws = 0] by (simp_all add: demo_sel)
  have "page_view ?bp ?vm = ?bp"
    by (simp add: page_view_def fun_eq_iff)
  then have "map (byte_at ?bp ?vm) [0x10004 ..< 0x10004 + 5] = [11, 12, 13, 14, 15]"
    by (simp add: upt_rec byte_at_def PageSize_def) (simp add: parent_page_def demo_defs Page_non_owned_def)
  then show ?thesis
    using header_append_stores [where V = ?V and s = ?s and fe = demo_fork and vm = ?vm and bp = ?bp and w = HDR_REQ and hp = demo_http
        and addr = "0x10004" and len = 5] g
    by (auto simp: arg32_def demo_http_def split: prod.splits sum.splits)
qed

theorem header_copy_removes_protocol_field_witness:
  "fst (header_field_copy (demo_varnish (master_handlers 0 0) False) (demo_script [0, 1, 0, 100] demo_host)) = Inl Assertion_failed"
  using header_copy_removes_protocol_field [where V = "demo_varnish (master_handlers 0 0) False" and s = "demo_script [0, 1, 0, 100] demo_host"
      and w = HDR_REQ and w' = HDR_REQ and hp = demo_http and src = demo_http and idx = 1]
  by (simp add: arg32_def HDR_FIRST_def demo_http_def)

theorem header_append_overflows_witness:
  "fst (header_field_append (demo_varnish (master_handlers 0 0) True) (demo_script [0, 0, 0xFFFFFFFF] demo_host)) = Inl Host_overflow"
  using header_append_overflows [where V = "demo_varnish (master_handlers 0 0) True" and s = "demo_script [0, 0, 0xFFFFFFFF] demo_host"
      and sb = 0 and se = 0 and w = HDR_REQ and hp = demo_http and ws = 1] demo_accessible
  by (simp add: arg32_def demo_host_def)

theorem regex_deleted_handle_witness:
  "cache_lookup (crc32 []) (snd (cache_free 0 (snd (cache_manage (Some ()) 5 (Cache_ctor 16))))) = 0"
proof -
  let ?c = "snd (cache_manage (Some ()) 5 (Cache_ctor 16))"
  have "cache_ok ?c"
    by (rule cache_manage_ok [OF Cache_ctor_ok])
  moreover have "0 < m_size ?c" "cache_free 0 ?c = (Inr (), snd (cache_free 0 ?c))"
    by (simp_all add: cache_manage_def cache_free_def Cache_ctor_def CACHE_MAX_def)
  ultimately show ?thesis
    using regex_deleted_handle [of ?c 0 "snd (cache_free 0 ?c)"] by simp
qed

text \<open>A page with two marked descriptors, in the read cache.\<close>

definition demo_marks :: "nat VM" where
  "demo_marks = demo_host\<lparr>vm_mem := demo_memory\<lparr>m_rd_cache := (16, 2)\<rparr>, vm_data := (vm_data demo_host)(2 := (\<lambda>i. if i mod 12 = 8 then 1 else 0))\<rparr>"

lemma load_le_1: "load_le d off (Suc 0) = unat (d off)"
  by simp

lemma load_le_4: "load_le d off 4 = unat (d off) + 256 * (unat (d (off + 1)) + 256 * (unat (d (off + 2)) + 256 * unat (d (off + 3))))"
proof -
  have four: "(4 :: nat) = Suc (Suc (Suc (Suc 0)))"
    by simp
  have "load_le d off (Suc (Suc (Suc (Suc 0)))) = unat (d off) + 256 * (unat (d (off + 1)) + 256 * (unat (d (off + 2)) + 256 * unat (d (off + 3))))"
    by (simp only: load_le.simps mult_0_right add_0_right add.assoc one_add_one) (simp add: add.assoc)
  then show ?thesis
    unfolding four .
qed

theorem foreach_deletes_outside_witness:
  "fst (delete_marked (demo_varnish (master_handlers 0 0) True) HDR_REQ [0x10000, 0x1000C] 0 (demo_script [] demo_marks)) = Inl Host_overflow"
proof -
  have "\<forall>a \<in> {0x10000, 0x1000C}. mem_read (master_handlers 0 0) 1 (add64 a 8) demo_marks = (Inr 1, demo_marks) \<and>
      mem_read (master_handlers 0 0) 4 (add64 a 4) demo_marks = (Inr 0, demo_marks)"
    by (simp add: mem_read_def cached_readable_page_def page_number_def PageSize_def add64_def access_offset_def demo_marks_def load_le_1 load_le_4)
  then show ?thesis
    using foreach_deletes_outside [where V = "demo_varnish (master_handlers 0 0) True" and s = "demo_script [] demo_marks" and w = HDR_REQ
        and H = "master_handlers 0 0" and vm = demo_marks and hp = demo_http and ?a1.0 = "0x10000" and ?a2.0 = "0x1000C"]
    by (simp add: demo_http_def)
qed


end
