(* ===== verification/Backend.thy ===== *)
theory Backend
  imports Script_Api
begin

text \<open>
  Guests as backends (\<open>src/src/backend.cpp\<close>, \<open>riscv_backend.h\<close>, the fetch processor of \<open>vmod_riscv_backend.c\<close> and the request bodies
  of \<open>vmod_riscv_post.c\<close>): the body of a request is copied into the memory of the guest segment by segment, the guest function answers
  with an address and a length, and the bytes there are sent to the client in pieces, without a copy. Both
  directions are shown to transport the bytes. What the guest function does is a parameter.
\<close>

section \<open>Results\<close>

text \<open>
  The buffers of a result are pointers into the pages of the guest; they stand for the bytes there, which do not change while
  the response is sent, because the machine does not run.
\<close>

definition vbuffer_bytes :: "'w VM \<Rightarrow> vBuffer \<Rightarrow> txt_t" where
  "vbuffer_bytes vm b = map (\<lambda>(d, i). vm_data vm d i) (vbuffer_cells b)"

record backend_result =
  br_type :: txt_t
  br_tsize :: "16 word"
  br_status :: "16 word"
  br_content_length :: nat
  br_buffers :: "txt_t list"

definition VMBE_NUM_BUFFERS :: nat where "VMBE_NUM_BUFFERS = 1024"

definition error_result :: backend_result where
  "error_result = \<lparr> br_type = [], br_tsize = 0, br_status = 500, br_content_length = 0, br_buffers = [] \<rparr>"

definition optional_copy :: "('w, 'r) Varnish \<Rightarrow> Buffer \<Rightarrow> ('w, 'r) Script \<Rightarrow> (txt_t, 'w, 'r) answer" where
  "optional_copy V b s =
    (if is_sequential b then (Inr (contents V b s), s)
     else
       bind_api (WS_Alloc V (m_len b mod 2 ^ 32) s) (\<lambda>_ s.
         (Inr (buffer_copy_to (vn_hmem V (mc_vm (sc_machine s))) (m_len b) b), s)))"

text \<open>
  The backend call of a request that has a machine: the guest function is called, which is the argument \<open>vmcall\<close>, and
  leaves status, content type and data in its argument registers.  Every exception gives the error result.
\<close>

definition riscv_backend_call ::
  "('w, 'r) Varnish \<Rightarrow> (('w, 'r) Script \<Rightarrow> (unit, 'w, 'r) answer) \<Rightarrow> ('w, 'r) Script \<Rightarrow> backend_result \<times> ('w, 'r) Script" where
  "riscv_backend_call V vmcall s0 =
    (case
      bind_api (vmcall s0) (\<lambda>_ s1.
      bind_api (arg_buffer V 1 s1) (\<lambda>type s.
      bind_api (optional_copy V type s) (\<lambda>t s.
      bind_api (in_memory (gather_buffers_from_range (vn_pages V) (vn_host V) VMBE_NUM_BUFFERS
          (unat (arg 3 s1)) (unat (arg 4 s1)) [] (mc_vm (sc_machine s))) s) (\<lambda>bufs s.
        (Inr \<lparr> br_type = t, br_tsize = of_nat (m_len type), br_status = ucast (arg32 0 s1), br_content_length = unat (arg 4 s1),
            br_buffers = map (vbuffer_bytes (mc_vm (sc_machine s))) bufs \<rparr>, s))))) of
       (Inl e, s) \<Rightarrow> (error_result, s)
     | (Inr r, s) \<Rightarrow> (r, s))"

section \<open>Sending a result\<close>

datatype vfp_status = VFP_OK | VFP_END

text \<open>
  One call of the fetch processor fills at most \<open>mx\<close> bytes.  The buffer at index \<open>j\<close> is the current one; \<open>None\<close> is
  reading behind the last buffer.
\<close>

function pull_loop :: "txt_t list \<Rightarrow> nat \<Rightarrow> nat \<Rightarrow> txt_t \<Rightarrow> (vfp_status \<times> txt_t \<times> txt_t list \<times> nat) option" where
  "pull_loop bufs j mx written =
    (if j < length bufs then
       let current = bufs ! j;
           len = (if mx < length current then mx else length current);
           written' = written @ take len current;
           bufs' = bufs[j := drop len current]
       in if drop len current = [] then
            if j + 1 = length bufs then Some (VFP_END, written', bufs', j + 1)
            else if mx - len = 0 then Some (VFP_OK, written', bufs', j + 1)
            else pull_loop bufs' (j + 1) (mx - len) written'
          else
            if mx - len = 0 then Some (VFP_OK, written', bufs', j)
            else pull_loop bufs' j (mx - len) written'
     else None)"
  by pat_completeness auto
termination
  by (relation "measure (\<lambda>(bufs, j, mx, written). length bufs - j)") (auto split: if_splits)

declare pull_loop.simps [simp del]

definition pull :: "nat \<Rightarrow> backend_result \<Rightarrow> nat \<Rightarrow> (vfp_status \<times> txt_t \<times> backend_result \<times> nat) option" where
  "pull lp result priv2 =
    (if br_content_length result = 0 then Some (VFP_END, [], result, priv2)
     else map_option (\<lambda>(st, written, bufs, j). (st, written, result\<lparr>br_buffers := bufs\<rparr>, j)) (pull_loop (br_buffers result) priv2 lp []))"

text \<open>A fetch calls the processor with room for some bytes, again and again, until it reports the end.\<close>

fun fetch :: "nat list \<Rightarrow> backend_result \<Rightarrow> nat \<Rightarrow> (txt_t \<times> bool) option" where
  "fetch [] result priv2 = Some ([], False)"
| "fetch (lp # lps) result priv2 =
    (case pull lp result priv2 of
       None \<Rightarrow> None
     | Some (VFP_END, written, _) \<Rightarrow> Some (written, True)
     | Some (VFP_OK, written, result', priv2') \<Rightarrow> map_option (\<lambda>(rest, e). (written @ rest, e)) (fetch lps result' priv2'))"

section \<open>Request bodies\<close>

record Post =
  post_address :: nat
  post_length :: nat
  post_capacity :: nat

definition POST_BUFFER :: nat where "POST_BUFFER = 128 * 1024 * 1024"

definition allocate_post_data :: "nat \<Rightarrow> ('w, 'r) Script \<Rightarrow> nat \<times> ('w, 'r) Script" where
  "allocate_post_data sz s =
    (let vm = mc_vm (sc_machine s); (a, mem) = mmap_allocate sz (vm_mem vm)
     in (a, s\<lparr>sc_machine := set_vm (vm\<lparr>vm_mem := mem\<rparr>) (sc_machine s)\<rparr>))"

text \<open>
  A segment of a request body is copied behind the segments before it; the first one allocates the room.  The result is
  whether the call succeeded.
\<close>

definition riscv_backend_streaming_post :: "('w, 'r) Varnish \<Rightarrow> txt_t \<Rightarrow> Post \<Rightarrow> ('w, 'r) Script \<Rightarrow> bool \<times> Post \<times> ('w, 'r) Script" where
  "riscv_backend_streaming_post V data post s0 =
    (let (post1, s1) =
       (if post_length post = 0
        then (case allocate_post_data (post_capacity post) s0 of (a, s) \<Rightarrow> (post\<lparr>post_address := a\<rparr>, s))
        else (post, s0))
     in case in_memory (mem_memcpy (vn_pages V) (add64 (post_address post1) (post_length post1)) data (mc_vm (sc_machine s1))) s1 of
          (Inl e, s2) \<Rightarrow> (False, post1, s2)
        | (Inr _, s2) \<Rightarrow> (True, post1\<lparr>post_length := post_length post1 + length data\<rparr>, s2))"

fun get_segments :: "('w, 'r) Varnish \<Rightarrow> txt_t list \<Rightarrow> Post \<Rightarrow> ('w, 'r) Script \<Rightarrow> bool \<times> Post \<times> ('w, 'r) Script" where
  "get_segments V [] post s = (True, post, s)"
| "get_segments V (d # ds) post s =
    (if d = [] then get_segments V ds post s
     else case riscv_backend_streaming_post V d post s of
         (True, post', s') \<Rightarrow> get_segments V ds post' s'
       | (False, post', s') \<Rightarrow> (False, post', s'))"

definition riscv_get_body :: "('w, 'r) Varnish \<Rightarrow> txt_t list \<Rightarrow> ('w, 'r) Script \<Rightarrow> bool \<times> Post \<times> ('w, 'r) Script" where
  "riscv_get_body V segments s =
    get_segments V segments \<lparr> post_address = 0, post_length = 0, post_capacity = POST_BUFFER \<rparr> s"

section \<open>What a fetch delivers\<close>

lemma pull_loop_delivers:
  assumes "j < length bufs" and "0 < mx"
  shows "\<exists>st out bufs' j'. pull_loop bufs j mx written = Some (st, written @ out, bufs', j') \<and>
    out @ concat (drop j' bufs') = concat (drop j bufs) \<and> length bufs' = length bufs \<and>
    (case st of VFP_END \<Rightarrow> j' = length bufs | VFP_OK \<Rightarrow> length out = mx \<and> j' < length bufs)"
  using assms
proof (induction bufs j mx written rule: pull_loop.induct)
  case (1 bufs j mx written)
  define len where "len = min mx (length (bufs ! j))"
  have len: "(if mx < length (bufs ! j) then mx else length (bufs ! j)) = len"
    by (simp add: len_def min_def)
  let ?cur = "bufs ! j"
  let ?bufs' = "bufs[j := drop len ?cur]"
  have split: "concat (drop j bufs) = take len ?cur @ drop len ?cur @ concat (drop (j + 1) bufs)"
    using 1(3) by (simp add: Cons_nth_drop_Suc [symmetric])
  have tail: "drop (j + 1) ?bufs' = drop (j + 1) bufs" "concat (drop j ?bufs') = drop len ?cur @ concat (drop (j + 1) bufs)"
    using 1(3) by (simp_all add: Cons_nth_drop_Suc [symmetric])
  have all: "take len ?cur = ?cur" if "drop len ?cur = []"
    using that by simp
  show ?case
  proof (cases "drop len ?cur = []")
    case False
    then have "len = mx" "length (take len ?cur) = mx"
      by (auto simp: len_def)
    then show ?thesis
      using 1(3) False split tail by (subst pull_loop.simps) (simp add: len Let_def)
  next
    case True
    show ?thesis
    proof (cases "j + 1 = length bufs")
      case end': True
      then show ?thesis
        using 1(3) True split tail by (subst pull_loop.simps) (simp add: len Let_def)
    next
      case more: False
      show ?thesis
      proof (cases "mx - len = 0")
        case full: True
        then have "length (take len ?cur) = mx"
          using True by (auto simp: len_def)
        then show ?thesis
          using 1(3) True more full split tail by (subst pull_loop.simps) (simp add: len Let_def)
      next
        case False
        have lc: "len = length ?cur"
          using True by (simp add: len_def)
        have lt: "j + 1 < length ?bufs'" "0 < mx - len"
          using 1(3) more False by simp_all
        obtain st out bufs' j' where r: "pull_loop ?bufs' (j + 1) (mx - len) (written @ take len ?cur) = Some (st, (written @ take len ?cur) @ out, bufs', j')"
          "out @ concat (drop j' bufs') = concat (drop (j + 1) ?bufs')" "length bufs' = length ?bufs'"
          "case st of VFP_END \<Rightarrow> j' = length ?bufs' | VFP_OK \<Rightarrow> length out = mx - len \<and> j' < length ?bufs'"
          using 1(1) [OF 1(3) refl len [symmetric] refl refl True more False lt] by (auto simp: True)
        have "pull_loop bufs j mx written = Some (st, written @ take len ?cur @ out, bufs', j')"
          using 1(3) True more False r(1) lc by (subst pull_loop.simps) (simp add: Let_def)
        moreover have "length (take len ?cur) = len"
          by (simp add: len_def)
        ultimately show ?thesis
          using r(2-4) split tail True False by (auto split: vfp_status.splits)
      qed
    qed
  qed
qed

lemma fetch_delivers:
  assumes "br_content_length r \<noteq> 0" and "j < length (br_buffers r)" and "\<forall>l \<in> set ls. 0 < l"
    and "length (concat (drop j (br_buffers r))) < length ls"
  shows "fetch ls r j = Some (concat (drop j (br_buffers r)), True)"
  using assms
proof (induction ls arbitrary: r j)
  case (Cons l ls)
  obtain st out bufs' j' where p: "pull_loop (br_buffers r) j l [] = Some (st, out, bufs', j')"
    "out @ concat (drop j' bufs') = concat (drop j (br_buffers r))" "length bufs' = length (br_buffers r)"
    "case st of VFP_END \<Rightarrow> j' = length (br_buffers r) | VFP_OK \<Rightarrow> length out = l \<and> j' < length (br_buffers r)"
    using pull_loop_delivers [OF Cons.prems(2), of l "[]"] Cons.prems(3) by auto
  show ?case
  proof (cases st)
    case VFP_END
    then show ?thesis
      using p Cons.prems(1) by (simp add: pull_def)
  next
    case VFP_OK
    have "length (concat (drop j' bufs')) < length ls"
      using p(2,4) VFP_OK Cons.prems(3,4) by (simp add: p(2) [symmetric]) 
    then have "fetch ls (r\<lparr>br_buffers := bufs'\<rparr>) j' = Some (concat (drop j' bufs'), True)"
      using Cons.IH [of "r\<lparr>br_buffers := bufs'\<rparr>" j'] Cons.prems(1,3) p(3,4) VFP_OK by simp
    then show ?thesis
      using p VFP_OK Cons.prems(1) by (simp add: pull_def)
  qed
qed simp

section \<open>Reading in a request\<close>

definition same_view :: "'w ForkEnv \<Rightarrow> (nat \<Rightarrow> PageData) \<Rightarrow> 'w VM \<Rightarrow> 'w VM \<Rightarrow> bool" where
  "same_view fe bp vm vm' \<longleftrightarrow> reads_master fe bp vm' \<and> coherent bp vm' \<and> page_view bp vm' = page_view bp vm \<and> vm_data vm' = vm_data vm"

lemma same_view_trans: "same_view fe bp vm vm1 \<Longrightarrow> same_view fe bp vm1 vm2 \<Longrightarrow> same_view fe bp vm vm2"
  by (simp add: same_view_def)

lemma fork_get_pageno_data: "vm_data (snd (get_pageno (fork_handlers fe) p vm)) = vm_data vm"
  by (simp add: get_pageno_def fork_handlers_def fork_page_readf_def allocate_page_def invalidate_cache_def try_emplace_def Let_def
      split: option.splits)

lemma fork_readable:
  assumes v: "reads_master fe bp vm" "coherent bp vm" and r: "get_readable_pageno (fork_handlers fe) p vm = (Inr pg, vm1)"
  shows "same_view fe bp vm vm1" and "vm_data vm1 (pg_data pg) = page_view bp vm p"
proof -
  obtain pg' vm' where g: "get_pageno (fork_handlers fe) p vm = (Inr pg', vm')" "reads_master fe bp vm'" "coherent bp vm'"
    "page_view bp vm' = page_view bp vm" "vm_data vm' (pg_data pg') = page_view bp vm p"
    by (rule fork_memory.get_pageno_view [OF v])
  then have "vm1 = vm'" "pg = pg'"
    using r by (auto simp: get_readable_pageno_def protection_fault_def split: if_splits)
  then show "same_view fe bp vm vm1" "vm_data vm1 (pg_data pg) = page_view bp vm p"
    using g fork_get_pageno_data [of fe p vm] by (simp_all add: same_view_def)
qed

lemma vbuffer_bytes_simps [simp]:
  "vbuffer_bytes vm [] = []"
  "vbuffer_bytes vm (b @ [(d, off, n)]) = vbuffer_bytes vm b @ map (vm_data vm d) [off ..< off + n]"
  by (simp_all add: vbuffer_bytes_def vbuffer_cells_def comp_def)

lemma bytes_in_page:
  assumes "addr mod PageSize + n \<le> PageSize"
  shows "map (page_view bp vm (page_number addr)) [addr mod PageSize ..< addr mod PageSize + n] = map (byte_at bp vm) [addr ..< addr + n]"
proof (rule nth_equalityI)
  fix i
  assume "i < length (map (page_view bp vm (page_number addr)) [addr mod PageSize ..< addr mod PageSize + n])"
  then show "map (page_view bp vm (page_number addr)) [addr mod PageSize ..< addr mod PageSize + n] ! i = map (byte_at bp vm) [addr ..< addr + n] ! i"
    using page_split [OF assms, of "addr + i"] by (simp add: byte_at_def page_number_def)
qed simp

lemma fork_gather_bytes:
  assumes "reads_master fe bp vm" "coherent bp vm" and "addr + len \<le> 2 ^ 64"
    and "gather_buffers_from_range (fork_handlers fe) host cnt addr len bufs vm = (Inr bufs', vm')"
  shows "same_view fe bp vm vm' \<and>
    concat (map (vbuffer_bytes vm') bufs') = concat (map (vbuffer_bytes vm) bufs) @ map (byte_at bp vm) [addr ..< addr + len] \<and>
    (len \<noteq> 0 \<longrightarrow> bufs' \<noteq> [])"
  using assms
proof (induction len arbitrary: addr bufs vm rule: less_induct)
  case (less len)
  show ?case
  proof (cases "len = 0")
    case True
    then show ?thesis
      using less.prems by (subst (asm) gather_buffers_from_range.simps) (simp add: same_view_def)
  next
    case False
    define off where "off = addr mod PageSize"
    define n where "n = min (PageSize - off) len"
    have n: "off + n \<le> PageSize" "n \<le> len" "0 < n"
      using False by (auto simp: n_def off_def PageSize_def)
    define grow where "grow pg = (if bufs \<noteq> [] \<and> host (pg_data pg) + off = vbuffer_end host (last bufs)
      then butlast bufs @ [last bufs @ [(pg_data pg, off, n)]] else bufs @ [[(pg_data pg, off, n)]])" for pg :: Page
    obtain pg vm1 where g: "get_readable_pageno (fork_handlers fe) (page_number addr) vm = (Inr pg, vm1)"
      and rest: "gather_buffers_from_range (fork_handlers fe) host cnt (add64 addr n) (len - n) (grow pg) vm1 = (Inr bufs', vm')"
      using less.prems(4) False
      by (subst (asm) gather_buffers_from_range.simps) (auto simp: Let_def off_def n_def grow_def split: prod.splits sum.splits if_splits)
    note R = fork_readable [OF less.prems(1,2) g]
    have v1: "reads_master fe bp vm1" "coherent bp vm1" "page_view bp vm1 = page_view bp vm" "vm_data vm1 = vm_data vm"
      using R(1) by (simp_all add: same_view_def)
    have byt: "byte_at bp vm1 = byte_at bp vm"
      by (simp add: byte_at_def fun_eq_iff v1(3))
    have vb: "vbuffer_bytes vm1 = vbuffer_bytes vm"
      by (simp add: vbuffer_bytes_def fun_eq_iff v1(4))
    have new: "map (vm_data vm (pg_data pg)) [off ..< off + n] = map (byte_at bp vm) [addr ..< addr + n]"
      using bytes_in_page [of addr n bp vm] n(1) R(2) v1(4) by (simp add: off_def)
    have grown: "concat (map (vbuffer_bytes vm) (grow pg)) = concat (map (vbuffer_bytes vm) bufs) @ map (byte_at bp vm) [addr ..< addr + n]"
      using new vbuffer_bytes_simps(2) [of vm "[]"] by (cases bufs rule: rev_cases) (simp_all add: grow_def)
    have ge: "grow pg \<noteq> []"
      by (simp add: grow_def)
    have two: "[addr ..< addr + len] = [addr ..< addr + n] @ [addr + n ..< addr + len]"
      using n(2) upt_add_eq_append [of addr "addr + n" "len - n"] by simp
    show ?thesis
    proof (cases "n = len")
      case True
      then have "bufs' = grow pg \<and> vm' = vm1"
        using rest by (subst (asm) gather_buffers_from_range.simps) simp
      then show ?thesis
        using R(1) grown ge vb True by simp
    next
      case lt: False
      then have a: "add64 addr n = addr + n" "len - n < len" "addr + n + (len - n) \<le> 2 ^ 64"
        using less.prems(3) n by (simp_all add: add64_def)
      have ih: "same_view fe bp vm1 vm' \<and>
          concat (map (vbuffer_bytes vm') bufs') = concat (map (vbuffer_bytes vm1) (grow pg)) @ map (byte_at bp vm1) [addr + n ..< addr + n + (len - n)] \<and>
          (len - n \<noteq> 0 \<longrightarrow> bufs' \<noteq> [])"
        by (rule less.IH [OF a(2) v1(1,2) a(3)]) (use rest a(1) in simp)
      then show ?thesis
        using same_view_trans [OF R(1)] grown vb byt two n(2) lt by simp
    qed
  qed
qed

lemma fork_membuffer_loop_view:
  assumes "reads_master fe bp vm" "coherent bp vm" and "membuffer_loop (fork_handlers fe) host p len b vm = (Inr b', vm')"
  shows "same_view fe bp vm vm'"
  using assms
proof (induction "fork_handlers fe" host p len b vm rule: membuffer_loop.induct)
  case (1 host p len b vm)
  show ?case
  proof (cases "m_len b < len")
    case False
    then show ?thesis
      using 1(2-) by (subst (asm) membuffer_loop.simps) (simp add: same_view_def)
  next
    case True
    then obtain pg vm1 where g: "get_readable_pageno (fork_handlers fe) (add64 p 1) vm = (Inr pg, vm1)"
      and rest: "membuffer_loop (fork_handlers fe) host (add64 p 1) len (append_page (host (pg_data pg)) (min PageSize (len - m_len b)) b) vm1 = (Inr b', vm')"
      using 1(4) by (subst (asm) membuffer_loop.simps) (auto simp: Let_def split: prod.splits sum.splits)
    note R = fork_readable(1) [OF 1(2,3) g]
    show ?thesis
      using same_view_trans [OF R 1(1) [OF True refl refl g [symmetric] refl _ _ rest]] R by (simp add: same_view_def)
  qed
qed

lemma fork_membuffer_view:
  assumes "reads_master fe bp vm" "coherent bp vm" and "membuffer (fork_handlers fe) host addr len maxlen vm = (Inr b, vm')"
  shows "same_view fe bp vm vm'"
proof -
  obtain pg vm1 b1 where g: "get_readable_pageno (fork_handlers fe) (page_number addr) vm = (Inr pg, vm1)"
    and l: "membuffer_loop (fork_handlers fe) host (page_number addr) len b1 vm1 = (Inr b, vm')"
    using assms(3) by (auto simp: membuffer_def protection_fault_def Let_def split: prod.splits sum.splits if_splits)
  note R = fork_readable(1) [OF assms(1,2) g]
  show ?thesis
    using same_view_trans [OF R fork_membuffer_loop_view [OF _ _ l]] R by (simp add: same_view_def)
qed

section \<open>Storing a request body\<close>

lemma mmap_view [simp]:
  "coherent bp (vm\<lparr>vm_mem := (vm_mem vm)\<lparr>m_mmap_address := x\<rparr>\<rparr>) = coherent bp vm"
  "reads_master fe bp (vm\<lparr>vm_mem := (vm_mem vm)\<lparr>m_mmap_address := x\<rparr>\<rparr>) = reads_master fe bp vm"
  "byte_at bp (vm\<lparr>vm_mem := (vm_mem vm)\<lparr>m_mmap_address := x\<rparr>\<rparr>) = byte_at bp vm"
  by (auto simp: coherent_def reads_master_def isolated_def page_view_def byte_at_def find_page_def fun_eq_iff split: option.splits)

lemma in_memory_okD: "in_memory r s = (Inr x, s') \<Longrightarrow> r = (Inr x, mc_vm (sc_machine s'))"
  by (cases r) (auto simp: in_memory_def split: sum.splits)

definition written_at :: "nat \<Rightarrow> 'a list \<Rightarrow> (nat \<Rightarrow> 'a) \<Rightarrow> nat \<Rightarrow> 'a" where
  "written_at a xs f = (\<lambda>b. if a \<le> b \<and> b < a + length xs then xs ! (b - a) else f b)"

lemma written_at_append: "written_at (a + length xs) ys (written_at a xs f) = written_at a (xs @ ys) f"
  by (auto simp: written_at_def fun_eq_iff nth_append)

lemma segments_stored:
  assumes "vn_pages V = fork_handlers fe" "reads_master fe bp (mc_vm (sc_machine s))" "coherent bp (mc_vm (sc_machine s))"
    and "post_length post \<noteq> 0" "post_address post + post_length post = a" "a + length (concat segs) \<le> 2 ^ 64"
    and "\<forall>x. a \<le> x \<and> x < a + length (concat segs) \<longrightarrow> bp (x div PageSize) = zero_data"
    and "get_segments V segs post s = (True, post', s')"
  shows "post_address post' = post_address post \<and> post_length post' = post_length post + length (concat segs) \<and>
    byte_at bp (mc_vm (sc_machine s')) = written_at a (concat segs) (byte_at bp (mc_vm (sc_machine s)))"
  using assms
proof (induction segs arbitrary: post s a)
  case Nil
  then show ?case
    by (auto simp: written_at_def fun_eq_iff)
next
  case (Cons d ds)
  show ?case
  proof (cases "d = []")
    case True
    then show ?thesis
      using Cons.IH [OF Cons.prems(1-5)] Cons.prems(6-8) by simp
  next
    case False
    let ?vm = "mc_vm (sc_machine s)"
    let ?post = "post\<lparr>post_length := post_length post + length d\<rparr>"
    have add: "add64 (post_address post) (post_length post) = a"
      using Cons.prems(5,6) False by (simp add: add64_def length_greater_0_conv [symmetric] del: length_greater_0_conv)
    obtain mr vm1 where mr: "mem_memcpy (fork_handlers fe) a d ?vm = (mr, vm1)"
      by fastforce
    then have m: "mem_memcpy (fork_handlers fe) a d ?vm = (Inr (), vm1)"
      and rest: "get_segments V ds ?post (s\<lparr>sc_machine := set_vm vm1 (sc_machine s)\<rparr>) = (True, post', s')"
      using Cons.prems(1,4,8) False add
      by (auto simp: riscv_backend_streaming_post_def Let_def in_memory_def split: sum.splits)
    have z: "bp (x div PageSize) = zero_data" if "a \<le> x" "x < a + length d" for x
      using Cons.prems(7) that by simp
    have v: "reads_master fe bp vm1" "coherent bp vm1" "byte_at bp vm1 = written_at a d (byte_at bp ?vm)"
      using fork_memory.memcpy_bytes [OF Cons.prems(2,3) _ z m] Cons.prems(6) by (simp_all add: written_at_def)
    have "post_address post' = post_address ?post \<and> post_length post' = post_length ?post + length (concat ds) \<and>
        byte_at bp (mc_vm (sc_machine s')) = written_at (a + length d) (concat ds) (byte_at bp vm1)"
      using Cons.IH [OF Cons.prems(1) _ _ _ _ _ _ rest, of "a + length d"] v(1,2) Cons.prems(4-7) by simp
    then show ?thesis
      using v(3) by (simp add: written_at_append)
  qed
qed

section \<open>Properties\<close>

text \<open>
  (C11) The body of a request, however it is split into segments, arrives in the memory of the guest: where the master has nothing in
  the newly mapped range, the range has the bytes of all segments in order and no other byte changes, and the length is
  that of the whole body.
\<close>

theorem post_body_stored:
  assumes H: "vn_pages V = fork_handlers fe" and vm: "vm = mc_vm (sc_machine s)" "reads_master fe bp vm" "coherent bp vm"
    and a: "m_mmap_address (vm_mem vm) = a" "a + length (concat segs) < 2 ^ 64" "concat segs \<noteq> []"
    and zero: "\<forall>x. a \<le> x \<and> x < a + length (concat segs) \<longrightarrow> bp (x div PageSize) = zero_data"
    and body: "riscv_get_body V segs s = (True, post, s')"
  shows "post_address post = a \<and> post_length post = length (concat segs) \<and>
    (\<forall>b. byte_at bp (mc_vm (sc_machine s')) b =
      (if a \<le> b \<and> b < a + length (concat segs) then concat segs ! (b - a) else byte_at bp vm b))"
proof -
  define post0 where "post0 = \<lparr> post_address = 0, post_length = 0, post_capacity = POST_BUFFER \<rparr>"
  have "get_segments V segs post0 s = (True, post, s')"
    using body by (simp add: riscv_get_body_def post0_def)
  with a(2,3) zero
  have "post_address post = a \<and> post_length post = length (concat segs) \<and> byte_at bp (mc_vm (sc_machine s')) = written_at a (concat segs) (byte_at bp vm)"
  proof (induction segs)
    case (Cons d ds)
    show ?case
    proof (cases "d = []")
      case True
      then show ?thesis
        using Cons by simp
    next
      case False
      let ?vm0 = "vm\<lparr>vm_mem := snd (mmap_allocate POST_BUFFER (vm_mem vm))\<rparr>"
      let ?s0 = "s\<lparr>sc_machine := set_vm ?vm0 (sc_machine s)\<rparr>"
      let ?post = "\<lparr> post_address = a, post_length = length d, post_capacity = POST_BUFFER \<rparr>"
      have v0: "reads_master fe bp ?vm0" "coherent bp ?vm0" "byte_at bp ?vm0 = byte_at bp vm"
        using vm(2,3) by (simp_all add: mmap_allocate_def)
      have alloc: "allocate_post_data POST_BUFFER s = (a, ?s0)"
        using vm(1) a(1) by (simp add: allocate_post_data_def mmap_allocate_def Let_def)
      have add: "add64 a 0 = a"
        using Cons.prems(1) by (simp add: add64_def)
      obtain mr vm1 where mr: "mem_memcpy (fork_handlers fe) a d ?vm0 = (mr, vm1)"
        by fastforce
      then have m: "mem_memcpy (fork_handlers fe) a d ?vm0 = (Inr (), vm1)"
        and rest: "get_segments V ds ?post (?s0\<lparr>sc_machine := set_vm vm1 (sc_machine ?s0)\<rparr>) = (True, post, s')"
        using Cons.prems(4) False alloc add H
        by (auto simp: riscv_backend_streaming_post_def post0_def Let_def in_memory_def split: sum.splits)
      have z: "bp (x div PageSize) = zero_data" if "a \<le> x" "x < a + length d" for x
        using Cons.prems(3) that by simp
      have v: "reads_master fe bp vm1" "coherent bp vm1" "byte_at bp vm1 = written_at a d (byte_at bp vm)"
        using fork_memory.memcpy_bytes [OF v0(1,2) _ z m] Cons.prems(1) unfolding v0(3) by (simp_all add: written_at_def)
      have "post_address post = a \<and> post_length post = length d + length (concat ds) \<and>
          byte_at bp (mc_vm (sc_machine s')) = written_at (a + length d) (concat ds) (byte_at bp vm1)"
        using segments_stored [OF H _ _ _ _ _ _ rest, of bp "a + length d"] v(1,2) Cons.prems(1,3) False by simp
      then show ?thesis
        using v(3) by (simp add: written_at_append)
    qed
  qed simp
  then show ?thesis
    by (simp add: written_at_def)
qed

text \<open>Once the first segment has allocated the room, its size does not matter: segments are stored behind its end as well.\<close>

lemma capacity_not_checked:
  assumes "post_length post \<noteq> 0"
  shows "riscv_backend_streaming_post V d (post\<lparr>post_capacity := c\<rparr>) s =
    (case riscv_backend_streaming_post V d post s of (ok, post', s') \<Rightarrow> (ok, post'\<lparr>post_capacity := c\<rparr>, s'))"
  using assms by (auto simp: riscv_backend_streaming_post_def Let_def split: prod.splits sum.splits)


section \<open>Witnesses\<close>

definition demo_loaned :: Page where
  "demo_loaned = Page_non_owned (default_attr\<lparr>pa_user_defined := 1, pa_non_owning := True, pa_is_cow := True, pa_write := False\<rparr>) 2"

definition demo_request :: "nat VM" where
  "demo_request = snd (allocate_page 16 demo_loaned (fork_vm demo_memory 0 demo_host))"

lemma demo_request_read:
  "get_readable_pageno (fork_handlers demo_fork) 16 (fork_vm demo_memory 0 demo_host) = (Inr demo_loaned, demo_request)"
  "get_readable_pageno (fork_handlers demo_fork) 16 demo_request = (Inr demo_loaned, demo_request)"
proof -
  have f: "find_page 16 demo_request = Some demo_loaned"
    by (simp add: demo_request_def allocate_page_fresh)
  have "page_readf_handler (fork_handlers demo_fork) 16 (fork_vm demo_memory 0 demo_host) = (Inr demo_loaned, demo_request)"
    by (simp add: fork_handlers_def fork_page_readf_def demo_request_def demo_loaned_def allocate_page_fresh parent_page_def demo_sel demo_page_def
        Page_non_owned_def default_attr_def Let_def)
  then show "get_readable_pageno (fork_handlers demo_fork) 16 (fork_vm demo_memory 0 demo_host) = (Inr demo_loaned, demo_request)"
    by (simp add: get_readable_pageno_def get_pageno_def) (simp add: demo_loaned_def Page_non_owned_def default_attr_def)
  show "get_readable_pageno (fork_handlers demo_fork) 16 demo_request = (Inr demo_loaned, demo_request)"
    using f by (simp add: get_readable_pageno_def get_pageno_def) (simp add: demo_loaned_def Page_non_owned_def default_attr_def)
qed


lemma demo_page_fault:
  assumes "find_page p vm = None" "vm_ws vm = 0"
  shows "\<exists>pg vm1. create_writable_pageno (fork_handlers demo_fork) p True vm = (Inr pg, vm1) \<and> find_page p vm1 = Some pg \<and> pa_write (pg_attr pg)"
  using assms
  by (simp add: create_writable_pageno_def fork_handlers_def fork_page_fault_def demo_fork_def new_page_data_def allocate_page_fresh Let_def find_page_def)
    (simp add: put_page_def set_pages_def update_conv' invalidate_cache_def Page_non_owned_def default_attr_def Let_def)

theorem post_body_stored_witness:
  "\<exists>post s'. riscv_get_body (demo_varnish (fork_handlers demo_fork) True) [[1, 2], [], [3]] (demo_script [] (fork_vm demo_memory 0 demo_host)) = (True, post, s') \<and>
     post_length post = 3 \<and> byte_at (\<lambda>p. vm_data demo_host (pg_data (parent_page demo_memory p))) (mc_vm (sc_machine s')) 0x50000002 = 3"
proof -
  let ?V = "demo_varnish (fork_handlers demo_fork) True" and ?vm = "fork_vm demo_memory 0 demo_host"
  let ?s = "demo_script [] ?vm"
  let ?bp = "\<lambda>p. vm_data demo_host (pg_data (parent_page demo_memory p))"
  have g: "reads_master demo_fork ?bp ?vm" "coherent ?bp ?vm"
    using fork_vm_ready [OF demo_wf, where fe = demo_fork and ws = 0] by (simp_all add: demo_sel)
  have a: "m_mmap_address (vm_mem ?vm) = 0x50000000"
    by (simp add: fork_vm_def machine_loader_def demo_memory_def)
  let ?mapped = "?vm\<lparr>vm_mem := snd (mmap_allocate POST_BUFFER (vm_mem ?vm))\<rparr>"
  obtain pg vm1 where c: "create_writable_pageno (fork_handlers demo_fork) 0x50000 True ?mapped = (Inr pg, vm1)" "find_page 0x50000 vm1 = Some pg" "pa_write (pg_attr pg)"
    using demo_page_fault [of "0x50000" ?mapped] by (auto simp: find_page_def mmap_allocate_def fork_vm_def machine_loader_def)
  let ?vm2 = "data_upd (pg_data pg) (copy_bytes 0 [1, 2]) vm1"
  have m1: "mem_memcpy (fork_handlers demo_fork) 0x50000000 [1, 2] ?mapped = (Inr (), ?vm2)"
    using memcpy_in_page [of _ "0x50000000" "[1, 2]"] c(1) by (simp add: PageSize_def)
  have "create_writable_pageno (fork_handlers demo_fork) 0x50000 True ?vm2 = (Inr pg, ?vm2)"
    using c(2,3) by (simp add: create_writable_pageno_def data_upd_def find_page_def)
  then have m2: "mem_memcpy (fork_handlers demo_fork) 0x50000002 [3] ?vm2 = (Inr (), data_upd (pg_data pg) (copy_bytes 2 [3]) ?vm2)"
    using memcpy_in_page [of _ "0x50000002" "[3]"] by (simp add: PageSize_def)
  obtain post s' where r: "riscv_get_body ?V [[1, 2], [], [3]] ?s = (True, post, s')"
    using m1 m2 a
    by (simp add: riscv_get_body_def riscv_backend_streaming_post_def allocate_post_data_def mmap_allocate_def in_memory_def add64_def Let_def)
  have z: "\<forall>x. 0x50000000 \<le> x \<and> x < 0x50000000 + length (concat [[1, 2], [], [3 :: 8 word]]) \<longrightarrow> ?bp (x div PageSize) = zero_data"
    by (auto simp: parent_page_def demo_memory_def cow_page_def zero_id_def PageSize_def) (simp add: demo_host_def)
  show ?thesis
    using post_body_stored [where V = ?V and fe = demo_fork and vm = ?vm and s = ?s and bp = ?bp and a = "0x50000000" and segs = "[[1, 2], [], [3]]"
        and post = post and s' = s'] g a z r
    by simp
qed

end
