(* ===== verification/Script_Calls.thy ===== *)
theory Script_Calls
  imports Script_Api
begin

text \<open>
  The system calls that need more of Varnish than HTTP objects (\<open>src/src/script_functions.cpp\<close>, \<open>script_sha256.cpp\<close>, the hashing and
  printing of \<open>script.cpp\<close>, and \<open>varnish_interface.c\<close>): printing, hashes, synthetic responses, cacheability, the choice of a
  backend and substitution by regular expressions. The state is that of a task: the script with the method that runs and what
  the calls change in Varnish. Hash functions and the regular expression engine are parameters.
\<close>

unbundle bit_operations_syntax

section \<open>State\<close>

datatype Method = MET_RECV | MET_HASH | MET_SYNTH | MET_HIT | MET_MISS | MET_DELIVER | MET_BACKEND_FETCH | MET_BACKEND_RESPONSE | MET_BACKEND_ERROR | MET_OTHER

text \<open>
  A script in a task of Varnish: the method that runs, whether there is a request and a busy object and whether the latter is
  uncacheable, the directors, the backend chosen, the hash under construction, the body of a synthetic response and the text printed.
\<close>

record ('w, 'r, 'h) Task =
  tk_script :: "('w, 'r) Script"
  tk_method :: Method
  tk_req :: bool
  tk_bo :: bool
  tk_uncacheable :: bool
  tk_directors :: "nat Cache"
  tk_backend :: "nat option"
  tk_sha :: "'h option"
  tk_synth :: txt_t
  tk_printed :: "txt_t list"
  tk_last_newline :: bool

text \<open>What the handlers call in Varnish: hashing, substitution, the status line and formatted header fields.\<close>

record ('w, 'r, 'h) Task_env =
  te_varnish :: "('w, 'r) Varnish"
  te_sha_size :: nat
  te_sha_init :: 'h
  te_sha_update :: "'h \<Rightarrow> txt_t \<Rightarrow> 'h"
  te_sha_final :: "'h \<Rightarrow> txt_t"
  te_regsub :: "bool \<Rightarrow> txt_t \<Rightarrow> 'r \<Rightarrow> txt_t \<Rightarrow> txt_t option"
  te_SetStatus :: "nat \<Rightarrow> Http \<Rightarrow> Http"
  te_content_length :: "nat \<Rightarrow> Http \<Rightarrow> Http"
  te_content_type :: "txt_t \<Rightarrow> Http \<Rightarrow> Http"

type_synonym ('w, 'r, 'h) taskcall = "('w, 'r, 'h) Task \<Rightarrow> (api_error + unit) \<times> ('w, 'r, 'h) Task"

definition in_script :: "(unit, 'w, 'r) answer \<Rightarrow> ('w, 'r, 'h) taskcall" where
  "in_script a T = (fst a, T\<lparr>tk_script := snd a\<rparr>)"

definition bind_task :: "('a, 'w, 'r) answer \<Rightarrow> ('w, 'r, 'h) Task \<Rightarrow> ('a \<Rightarrow> ('w, 'r, 'h) taskcall) \<Rightarrow> (api_error + unit) \<times> ('w, 'r, 'h) Task" where
  "bind_task a T k = (case a of (Inl e, s) \<Rightarrow> (Inl e, T\<lparr>tk_script := s\<rparr>) | (Inr x, s) \<Rightarrow> k x (T\<lparr>tk_script := s\<rparr>))"

section \<open>Output\<close>

definition fail_call :: "('w, 'r, 'h) Task_env \<Rightarrow> ('w, 'r, 'h) taskcall" where
  "fail_call E T =
    bind_task (arg_buffer (te_varnish E) 0 (tk_script T)) T (\<lambda>_ T.
      (Inl Runtime_error, T\<lparr>tk_script := snd (machine_stop (tk_script T))\<rparr>))"

text \<open>The last character of the text is read; there is none in an empty text.\<close>

definition script_print :: "txt_t \<Rightarrow> ('w, 'r, 'h) taskcall" where
  "script_print txt T =
    (if txt = [] then (Inl Host_overflow, T)
     else (Inr (), T\<lparr>tk_printed := tk_printed T @ [txt], tk_last_newline := (last txt = 10)\<rparr>))"

definition print_call :: "('w, 'r, 'h) Task_env \<Rightarrow> ('w, 'r, 'h) taskcall" where
  "print_call E T =
    bind_task (arg_buffer (te_varnish E) 0 (tk_script T)) T (\<lambda>buffer T.
      case script_print (contents (te_varnish E) buffer (tk_script T)) T of
        (Inl e, T') \<Rightarrow> (Inl e, T')
      | (Inr _, T') \<Rightarrow> in_script (returns (of_nat (m_len buffer)) (tk_script T')) T')"

definition shm_log :: "('w, 'r, 'h) Task_env \<Rightarrow> ('w, 'r) apicall" where
  "shm_log E s0 =
    bind_api (in_memory (membuffer (vn_pages (te_varnish E)) (vn_host (te_varnish E)) (unat (arg 0 s0)) (unat (arg32 1 s0)) (16 * 2 ^ 20)
        (mc_vm (sc_machine s0))) s0) (\<lambda>buffer s.
      if is_sequential buffer then returns32 (arg32 1 s0) s else returns32 (- 1) s)"

section \<open>Hashes\<close>

text \<open>Lengths are passed as \<open>int\<close>.\<close>

definition hash_buffer :: "('w, 'r, 'h) Task_env \<Rightarrow> txt_t \<Rightarrow> ('w, 'r, 'h) taskcall" where
  "hash_buffer E txt T =
    (case tk_sha T of
       Some h \<Rightarrow> (Inr (), T\<lparr>tk_sha := Some (te_sha_update E h txt)\<rparr>)
     | None \<Rightarrow>
         if \<not> tk_req T then (Inl Runtime_error, T)
         else
           (case WS_Alloc (te_varnish E) (te_sha_size E) (tk_script T) of
              (Inl e, s) \<Rightarrow> (Inl e, T\<lparr>tk_script := s\<rparr>)
            | (Inr _, s) \<Rightarrow> (Inr (), T\<lparr>tk_script := s, tk_sha := Some (te_sha_update E (te_sha_init E) txt)\<rparr>)))"

definition hash_data :: "('w, 'r, 'h) Task_env \<Rightarrow> ('w, 'r, 'h) taskcall" where
  "hash_data E T =
    bind_task (arg_buffer (te_varnish E) 0 (tk_script T)) T (\<lambda>buffer T. hash_buffer E (contents (te_varnish E) buffer (tk_script T)) T)"

definition apply_hash :: "('w, 'r, 'h) Task_env \<Rightarrow> ('w, 'r, 'h) Task \<Rightarrow> txt_t option" where
  "apply_hash E T = (if tk_req T then map_option (te_sha_final E) (tk_sha T) else None)"

text \<open>
  The loop over the ranges of the buffer runs a function object that has a copy of the context: it is the copy that is updated.
  The value of the loop is what the copy ends with; the caller keeps its own context.
\<close>

definition buffer_foreach :: "(nat \<Rightarrow> 8 word) \<Rightarrow> ('c \<Rightarrow> txt_t \<Rightarrow> 'c) \<Rightarrow> 'c \<Rightarrow> Buffer \<Rightarrow> 'c" where
  "buffer_foreach hmem f c b = foldl f c (map (host_bytes hmem) (m_data b # m_overflow b))"

definition sha256 :: "('w, 'r, 'h) Task_env \<Rightarrow> ('w, 'r, 'h) taskcall" where
  "sha256 E T =
    bind_task (arg_buffer (te_varnish E) 0 (tk_script T)) T (\<lambda>buffer T.
      let s = tk_script T; V = te_varnish E in
      if arg32 3 s \<noteq> 32 then in_script (returns32 0 s) T
      else
        let ctx = te_sha_init E;
            copied = buffer_foreach (vn_hmem V (mc_vm (sc_machine s))) (te_sha_update E) ctx buffer;
            result = te_sha_final E ctx
        in bind_task (in_memory (mem_memcpy (vn_pages V) (unat (arg 2 s)) result (mc_vm (sc_machine s))) s) T (\<lambda>_ T.
             in_script (returns32 32 (tk_script T)) T))"

section \<open>Responses\<close>

definition synth :: "('w, 'r, 'h) Task_env \<Rightarrow> ('w, 'r, 'h) taskcall" where
  "synth E T0 =
    (let V = te_varnish E; s0 = tk_script T0 in
     if tk_method T0 = MET_SYNTH \<or> tk_method T0 = MET_BACKEND_ERROR then
       (case sc_http s0 HDR_RESP of
          None \<Rightarrow> (Inl Runtime_error, T0)
        | Some hp \<Rightarrow>
            bind_task (arg_buffer V 1 s0) T0 (\<lambda>type T.
            bind_task (arg_buffer V 3 (tk_script T)) T (\<lambda>data T.
              let st = unat (ucast (arg 0 s0) :: 16 word); s = tk_script T in
              if st < 100 then (Inl Runtime_error, T)
              else
                let hp' = te_content_type E (contents V type s) (te_content_length E (m_len data) (te_SetStatus E st hp))
                in (Inr (), T\<lparr>tk_script := snd (machine_stop (put_http HDR_RESP hp' s)), tk_synth := contents V data s\<rparr>))))
     else if tk_method T0 = MET_RECV then
       let s = script_set_result (map (of_nat \<circ> of_char) ''synth'') 100 True s0;
           c = mc_cpu (sc_machine s)
       in (Inr (), T0\<lparr>tk_script := snd (machine_stop (s\<lparr>sc_machine := (sc_machine s)\<lparr>mc_cpu := c\<lparr>cpu_pc := cpu_pc c - 4\<rparr>\<rparr>\<rparr>))\<rparr>)
     else (Inl Runtime_error, T0))"

definition riscv_SetCacheable :: "bool \<Rightarrow> ('w, 'r, 'h) Task \<Rightarrow> ('w, 'r, 'h) Task" where
  "riscv_SetCacheable c T = (if tk_uncacheable T \<and> c then T else T\<lparr>tk_uncacheable := \<not> c\<rparr>)"

definition riscv_GetCacheable :: "('w, 'r, 'h) Task \<Rightarrow> bool" where
  "riscv_GetCacheable T = (\<not> tk_uncacheable T)"

definition cacheable :: "('w, 'r, 'h) taskcall" where
  "cacheable T =
    (if tk_method T = MET_BACKEND_RESPONSE then
       let s = tk_script T;
           T' = (if arg32 0 s \<noteq> 0 then riscv_SetCacheable (arg32 1 s \<noteq> 0) T else T)
       in in_script (returns (if \<not> riscv_GetCacheable T' then 1 else 0) s) T'
     else in_script (returns32 0 (tk_script T)) T)"

definition riscv_SetBackend :: "nat option \<Rightarrow> ('w, 'r, 'h) Task \<Rightarrow> 64 word \<times> ('w, 'r, 'h) Task" where
  "riscv_SetBackend dir T = (if tk_req T \<or> tk_bo T then (0, T\<lparr>tk_backend := dir\<rparr>) else (- 1, T))"

definition set_backend :: "('w, 'r, 'h) taskcall" where
  "set_backend T =
    (case cache_get (unat (scast (arg32 0 (tk_script T)) :: 64 word)) (tk_directors T) of
       Inl e \<Rightarrow> (Inl e, T)
     | Inr dir \<Rightarrow> (case riscv_SetBackend dir T of (r, T') \<Rightarrow> in_script (returns r (tk_script T')) T'))"

section \<open>Substitution\<close>

text \<open>The string at a host address: the bytes up to the next zero.\<close>

partial_function (option) c_string :: "(nat \<Rightarrow> 8 word) \<Rightarrow> nat \<Rightarrow> txt_t option" where
  "c_string hmem p = (if hmem p = 0 then Some [] else Option.bind (c_string hmem (p + 1)) (\<lambda>cs. Some (hmem p # cs)))"

text \<open>
  A buffer of one range is passed as the pointer to its bytes, without its length; others are copied into a string first.
\<close>

definition buffer_c_str :: "(nat \<Rightarrow> 8 word) \<Rightarrow> bool \<Rightarrow> Buffer \<Rightarrow> txt_t option" where
  "buffer_c_str hmem direct b = (if direct then c_string hmem (fst (m_data b)) else Some (cstr (buffer_to_string hmem b)))"

definition regex_subst :: "('w, 'r, 'h) Task_env \<Rightarrow> ('w, 'r) apicall" where
  "regex_subst E s0 =
    (let V = te_varnish E in
     bind_api (arg_buffer V 1 s0) (\<lambda>tbuffer s.
     bind_api (arg_buffer V 3 s) (\<lambda>sbuffer s.
       case cache_get (unat (arg32 0 s0)) (sc_regex s) of
         Inl e \<Rightarrow> (Inl e, s)
       | Inr None \<Rightarrow> (Inl Null_pointer, s)
       | Inr (Some re) \<Rightarrow>
           let maxlen = arg32 6 s0;
               direct = (is_sequential tbuffer \<and> is_sequential sbuffer);
               hmem = vn_hmem V (mc_vm (sc_machine s))
           in case (buffer_c_str hmem direct tbuffer, buffer_c_str hmem direct sbuffer) of
                (Some subject, Some subst) \<Rightarrow>
                  (case te_regsub E (maxlen AND 0x80000000 \<noteq> 0) subject re subst of
                     None \<Rightarrow> returns (- 1) s
                   | Some result \<Rightarrow>
                       let len = min (unat (maxlen AND 0x7FFFFFFF)) (length result + 1)
                       in bind_api (in_memory (mem_memcpy (vn_pages V) (unat (arg 5 s0)) (take len (result @ [0])) (mc_vm (sc_machine s))) s)
                            (\<lambda>_ s. returns (of_nat len - 1) s))
              | _ \<Rightarrow> (Inl Host_overflow, s))))"

definition regex_subst_hdr :: "('w, 'r, 'h) Task_env \<Rightarrow> ('w, 'r) apicall" where
  "regex_subst_hdr E s0 =
    (let V = te_varnish E in
     bind_api (arg_buffer V 3 s0) (\<lambda>substb s.
       case cache_get (unat (arg32 0 s0)) (sc_regex s) of
         Inl e \<Rightarrow> (Inl e, s)
       | Inr re \<Rightarrow>
           if arg32 2 s0 = HDR_INVALID then returns (- 1) s
           else
             bind_api (get_field V (arg32 1 s0) (unat (arg32 2 s0)) s) (\<lambda>(w, hp, field) s.
               case (re, buffer_c_str (vn_hmem V (mc_vm (sc_machine s))) (is_sequential substb) substb) of
                 (None, _) \<Rightarrow> (Inl Null_pointer, s)
               | (_, None) \<Rightarrow> (Inl Host_overflow, s)
               | (Some vre, Some subst) \<Rightarrow>
                   (case te_regsub E (arg32 5 s0 \<noteq> 0) (cstr field) vre subst of
                      None \<Rightarrow> returns (- 1) s
                    | Some result \<Rightarrow>
                        returns (of_nat (length result)) (put_http w (vn_SetH V (unat (arg32 2 s0)) result hp) s)))))"

section \<open>Properties\<close>

text \<open>
  The hash that a guest asks for does not depend on its data: a call that succeeds stores the hash of the empty string at the
  destination, whatever buffer was passed, because the loop over the buffer updates a copy of the context.
\<close>

theorem sha256_hashes_nothing:
  assumes H: "vn_pages (te_varnish E) = master_handlers sb se" and buf: "arg_buffer (te_varnish E) 0 (tk_script T) = (Inr b, s1)"
    and coh: "coherent no_base (mc_vm (sc_machine s1))"
    and dst: "unat (arg 2 s1) = dst" "arg32 3 s1 = 32" "dst + 32 \<le> 2 ^ 64" "length (te_sha_final E (te_sha_init E)) = 32"
    and c: "sha256 E T = (Inr (), T')"
  shows "\<forall>i < 32. byte_at no_base (mc_vm (sc_machine (tk_script T'))) (dst + i) = te_sha_final E (te_sha_init E) ! i"
proof -
  let ?res = "te_sha_final E (te_sha_init E)"
  obtain mr vm2 where m: "mem_memcpy (master_handlers sb se) dst ?res (mc_vm (sc_machine s1)) = (mr, vm2)"
    by fastforce
  have ok: "mr = Inr ()" "mc_vm (sc_machine (tk_script T')) = vm2"
    using c buf H m dst(1,2)
    by (auto simp: sha256_def bind_task_def in_memory_def in_script_def returns32_def returns_def Let_def split: sum.splits)
  have "byte_at no_base vm2 = (\<lambda>x. if dst \<le> x \<and> x < dst + length ?res then ?res ! (x - dst) else byte_at no_base (mc_vm (sc_machine s1)) x)"
    using master_memory.memcpy_bytes [OF _ coh, of dst ?res] m ok(1) dst(3,4) by simp
  then show ?thesis
    using ok(2) dst(4) by simp
qed

lemma c_string_prefix:
  assumes "c_string hmem p = Some cs" and "\<forall>i < n. hmem (p + i) \<noteq> 0"
  shows "\<exists>rest. cs = map hmem [p ..< p + n] @ rest \<and> c_string hmem (p + n) = Some rest"
  using assms
proof (induction n arbitrary: p cs)
  case (Suc n)
  then obtain cs' where cs': "c_string hmem (p + 1) = Some cs'" "cs = hmem p # cs'"
    by (subst (asm) c_string.simps) (auto split: if_splits bind_splits)
  have "hmem (p + 1 + i) \<noteq> 0" if "i < n" for i
    using Suc.prems(2) [rule_format, of "Suc i"] that by simp
  then obtain rest where "cs' = map hmem [p + 1 ..< p + 1 + n] @ rest" "c_string hmem (p + 1 + n) = Some rest"
    using Suc.IH [OF cs'(1)] by auto
  moreover have "[p ..< p + Suc n] = p # [p + 1 ..< p + 1 + n]"
    by (simp add: upt_conv_Cons del: upt_Suc)
  ultimately show ?case
    using cs'(2) by (simp del: upt_Suc)
qed simp

text \<open>
  The string that a substitution gets for a buffer of one range is the contents of the buffer only if the byte of host memory behind
  the range is zero: otherwise the host reads on behind the buffer, and the string is longer than the buffer.
\<close>

theorem substitution_reads_behind_buffer:
  assumes "is_sequential b" and "\<forall>x \<in> set (buffer_to_string hmem b). x \<noteq> 0" and "buffer_c_str hmem True b = Some cs"
  shows "if hmem (fst (m_data b) + snd (m_data b)) = 0 then cs = buffer_to_string hmem b
    else \<exists>rest. cs = buffer_to_string hmem b @ hmem (fst (m_data b) + snd (m_data b)) # rest"
proof -
  obtain p n where pn: "m_data b = (p, n)"
    by (rule prod.exhaust)
  have str: "buffer_to_string hmem b = map hmem [p ..< p + n]"
    using assms(1) pn by (simp add: buffer_to_string_def host_bytes_def)
  have nz: "\<forall>i < n. hmem (p + i) \<noteq> 0"
    using assms(2) unfolding str by simp
  obtain rest where r: "cs = map hmem [p ..< p + n] @ rest" "c_string hmem (p + n) = Some rest"
    using c_string_prefix [OF _ nz, of cs] assms(3) pn by (auto simp: buffer_c_str_def)
  show ?thesis
    unfolding str pn using r(1) r(2) [unfolded c_string.simps [of hmem "p + n"]] by (auto split: if_splits bind_splits)
qed

text \<open>Asked whether the response is cacheable, the call answers whether it is not.\<close>

lemma cacheable_answers_uncacheable:
  assumes "tk_method T = MET_BACKEND_RESPONSE" "arg32 0 (tk_script T) = 0" "cacheable T = (r, T')"
  shows "arg 0 (tk_script T') = (if tk_uncacheable T then 1 else 0)"
  using assms by (auto simp: cacheable_def riscv_GetCacheable_def in_script_def returns_def arg_def Let_def)

text \<open>A response that was made uncacheable stays so.\<close>

lemma uncacheable_stays: "tk_uncacheable T \<Longrightarrow> tk_uncacheable (snd (cacheable T))"
  by (auto simp: cacheable_def riscv_SetCacheable_def in_script_def Let_def)

section \<open>Witnesses\<close>

definition demo_env :: "(nat, unit, nat) Task_env" where
  "demo_env = \<lparr> te_varnish = demo_varnish (master_handlers 0 0) True, te_sha_size = 104, te_sha_init = 0,
     te_sha_update = (\<lambda>h txt. h + length txt), te_sha_final = (\<lambda>h. replicate 32 (of_nat h)), te_regsub = (\<lambda>_ _ _ _. None),
     te_SetStatus = (\<lambda>_ hp. hp), te_content_length = (\<lambda>_ hp. hp), te_content_type = (\<lambda>_ hp. hp) \<rparr>"

definition demo_task :: "64 word list \<Rightarrow> (nat, unit, nat) Task" where
  "demo_task xs = \<lparr> tk_script = demo_script xs demo_host, tk_method = MET_RECV, tk_req = True, tk_bo = False, tk_uncacheable = False,
     tk_directors = Cache_ctor 16, tk_backend = None, tk_sha = None, tk_synth = [], tk_printed = [], tk_last_newline = True \<rparr>"

theorem sha256_hashes_nothing_witness:
  "\<exists>T'. sha256 demo_env (demo_task [0x10001, 3, 0x10100, 32]) = (Inr (), T') \<and> byte_at no_base (mc_vm (sc_machine (tk_script T'))) 0x10105 = 0"
proof -
  let ?T = "demo_task [0x10001, 3, 0x10100, 32]" and ?H = "master_handlers 0 0 :: nat PageHandlers"
  have r: "get_readable_pageno ?H 16 demo_host = (Inr demo_page, demo_host)"
    by (simp add: get_readable_pageno_def get_pageno_def find_page_def demo_sel) (simp add: demo_defs Page_non_owned_def default_attr_def)
  obtain b where m: "membuffer ?H (vn_host (te_varnish demo_env)) 0x10001 3 (16 * 2 ^ 20) demo_host = (Inr b, demo_host)"
    using r by (simp add: membuffer_def page_number_def PageSize_def Let_def append_page_def empty_buffer_def membuffer_loop.simps)
  define s1 where "s1 = (tk_script ?T)\<lparr>sc_machine := set_vm demo_host (sc_machine (tk_script ?T))\<rparr>"
  have buf: "arg_buffer (te_varnish demo_env) 0 (tk_script ?T) = (Inr b, s1)"
    using m by (simp add: arg_buffer_def in_memory_def demo_task_def demo_env_def s1_def)
  have s1: "mc_vm (sc_machine s1) = demo_host" "arg 2 s1 = 0x10100" "arg32 3 s1 = 32"
    by (simp_all add: s1_def demo_task_def arg32_def) (simp_all add: arg_def sysarg_def set_vm_def reg_def demo_script_def demo_regs_def REG_ARG0_def)
  have c: "create_writable_pageno ?H 16 True demo_host = (Inr demo_page, demo_host)"
    by (simp add: create_writable_pageno_def find_page_def demo_sel) (simp add: demo_defs Page_non_owned_def default_attr_def)
  have cp: "\<exists>vm. mem_memcpy ?H 0x10100 (te_sha_final demo_env (te_sha_init demo_env)) demo_host = (Inr (), vm)"
    using memcpy_in_page [of ?H "0x10100" "replicate 32 0" demo_host] c by (simp add: PageSize_def demo_env_def)
  then obtain T' where T': "sha256 demo_env ?T = (Inr (), T')"
    using buf s1 by (auto simp: sha256_def bind_task_def in_memory_def in_script_def returns32_def returns_def Let_def demo_env_def)
  have "\<forall>i < 32. byte_at no_base (mc_vm (sc_machine (tk_script T'))) (0x10100 + i) = te_sha_final demo_env (te_sha_init demo_env) ! i"
    by (rule sha256_hashes_nothing [OF _ buf _ _ s1(3) _ _ T', of 0 0]) (use demo_coherent s1 in \<open>simp_all add: demo_env_def\<close>)
  from this [rule_format, of 5] show ?thesis
    using T' by (simp add: demo_env_def)
qed

theorem substitution_reads_behind_buffer_witness:
  "\<exists>rest. buffer_c_str (\<lambda>x. if x < 105 then 97 else 0) True \<lparr> m_data = (100, 3), m_overflow = [], m_len = 3 \<rparr> = Some ([97, 97, 97] @ 97 # rest)"
proof -
  let ?h = "\<lambda>x :: nat. if x < 105 then 97 else 0 :: 8 word" and ?b = "\<lparr> m_data = (100, 3), m_overflow = [], m_len = 3 \<rparr>"
  have s: "buffer_to_string ?h ?b = [97, 97, 97]"
    by (simp add: buffer_to_string_def is_sequential_def host_bytes_def upt_rec)
  have "buffer_c_str ?h True ?b = Some [97, 97, 97, 97, 97]"
    by (simp add: buffer_c_str_def c_string.simps)
  then show ?thesis
    using substitution_reads_behind_buffer [of ?b ?h "[97, 97, 97, 97, 97]"] s by (auto simp: is_sequential_def)
qed

end
