(* ===== verification/Tenancy.thy ===== *)
theory Tenancy
  imports Crc32
begin

text \<open>
  Tenants (\<open>src/src/tenant.hpp\<close>, \<open>tenancy.cpp\<close>, the loading part of \<open>sandbox_tenant.cpp\<close>, and \<open>live_update.cpp\<close>): their
  configuration from JSON, how they are found by name, how their programs are loaded, and how a
  running tenant is updated with a new program, with the state of the old one handed over. A tenant is shown to keep
  its name and file along every sequence of operations; what the hash of the name does not tell apart, what a failing
  update leaves behind and what concurrent updates do to the arguments is shown as well. JSON, files, building of
  instances and running of guests are parameters.
\<close>

unbundle bit_operations_syntax

section \<open>Configuration\<close>

record TenantGroup =
  max_instructions :: "64 word"
  max_memory_mb :: "32 word"
  max_heap_mb :: "32 word"
  max_backends :: nat
  max_regex :: nat
  verbose :: bool
  argv :: "string list"

definition default_group :: TenantGroup where
  "default_group = \<lparr> max_instructions = 20000000, max_memory_mb = 32, max_heap_mb = 512, max_backends = 8, max_regex = 32,
     verbose = False, argv = [] \<rparr>"

record TenantConfig =
  cfg_name :: string
  cfg_filename :: string
  cfg_group :: TenantGroup

definition max_memory :: "TenantConfig \<Rightarrow> 64 word" where
  "max_memory c = push_bit 20 (ucast (max_memory_mb (cfg_group c)))"

definition max_heap :: "TenantConfig \<Rightarrow> 64 word" where
  "max_heap c = push_bit 20 (ucast (max_heap_mb (cfg_group c)))"

text \<open>
  Parsed JSON is a parameter: whether an object has a key, and the value at a key as an integer, a string or a list of
  strings, or \<open>None\<close> where the library throws.
\<close>

record 'j Json =
  j_contains :: "'j \<Rightarrow> string \<Rightarrow> bool"
  j_uint32 :: "'j \<Rightarrow> string \<Rightarrow> 32 word option"
  j_uint64 :: "'j \<Rightarrow> string \<Rightarrow> 64 word option"
  j_string :: "'j \<Rightarrow> string \<Rightarrow> string option"
  j_strings :: "'j \<Rightarrow> string \<Rightarrow> string list option"

text \<open>An override that throws leaves the group with the overrides before it.\<close>

definition override_with :: "bool \<Rightarrow> 'v option \<Rightarrow> ('v \<Rightarrow> TenantGroup \<Rightarrow> TenantGroup) \<Rightarrow> bool \<times> TenantGroup \<Rightarrow> bool \<times> TenantGroup" where
  "override_with has v upd r =
    (if fst r \<and> has then (case v of None \<Rightarrow> (False, snd r) | Some x \<Rightarrow> (True, upd x (snd r))) else r)"

definition configure_tenant :: "'j Json \<Rightarrow> 'j \<Rightarrow> TenantGroup \<Rightarrow> bool \<times> TenantGroup" where
  "configure_tenant J obj grp =
    override_with (j_contains J obj ''arguments'') (j_strings J obj ''arguments'') (\<lambda>v. argv_update (\<lambda>_. v))
      (override_with (j_contains J obj ''max_instructions'') (j_uint64 J obj ''max_instructions'') (\<lambda>v. max_instructions_update (\<lambda>_. v))
        (override_with (j_contains J obj ''max_heap'') (j_uint32 J obj ''max_heap'') (\<lambda>v. max_heap_mb_update (\<lambda>_. v))
          (override_with (j_contains J obj ''max_memory'') (j_uint32 J obj ''max_memory'') (\<lambda>v. max_memory_mb_update (\<lambda>_. v))
            (True, grp))))"

section \<open>The tenants\<close>

record 'i SandboxTenant =
  config :: TenantConfig
  program :: "'i option"
  debug_program :: "'i option"

text \<open>The map of the tenants, whether the VCL was failed, and the pairs of group and tenant that were reported as missing.\<close>

record 'i Tenants =
  tenants :: "32 word \<rightharpoonup> 'i SandboxTenant"
  vrt_failed :: bool
  missing_groups :: "(string \<times> string) list"

definition name_hash :: "string \<Rightarrow> 32 word" where
  "name_hash name = NOT (crc32_from CRC32C 0xFFFFFFFF (map of_char name))"

definition load_tenant :: "TenantConfig \<Rightarrow> 'i Tenants \<Rightarrow> 'i Tenants" where
  "load_tenant c T =
    (let hash = name_hash (cfg_name c) in
     if tenants T hash = None
     then T\<lparr>tenants := (tenants T)(hash \<mapsto> \<lparr> config = c, program = None, debug_program = None \<rparr>)\<rparr>
     else T\<lparr>vrt_failed := True\<rparr>)"

definition set_group :: "TenantGroup \<Rightarrow> 'i SandboxTenant \<Rightarrow> 'i SandboxTenant" where
  "set_group g t = t\<lparr>config := (config t)\<lparr>cfg_group := g\<rparr>\<rparr>"

fun init_items :: "'j Json \<Rightarrow> (string \<times> 'j) list \<Rightarrow> (string \<rightharpoonup> TenantGroup) \<Rightarrow> 'i Tenants \<Rightarrow> bool \<times> 'i Tenants" where
  "init_items J [] groups T = (True, T)"
| "init_items J ((key, obj) # items) groups T =
    (if j_contains J obj ''filename'' then
       case (if j_contains J obj ''group'' then j_string J obj ''group'' else Some ''test'') of
         None \<Rightarrow> (False, T)
       | Some grname \<Rightarrow>
           (case groups grname of
              None \<Rightarrow> init_items J items groups (T\<lparr>missing_groups := missing_groups T @ [(grname, key)]\<rparr>)
            | Some g \<Rightarrow>
                (case configure_tenant J obj g of
                   (False, _) \<Rightarrow> (False, T)
                 | (True, grp) \<Rightarrow>
                     (case j_string J obj ''filename'' of
                        None \<Rightarrow> (False, T)
                      | Some f \<Rightarrow>
                          init_items J items groups (load_tenant \<lparr> cfg_name = key, cfg_filename = f, cfg_group = grp \<rparr> T))))
     else
       case tenants T (name_hash key) of
         Some t \<Rightarrow>
           (case configure_tenant J obj (cfg_group (config t)) of
              (ok, g) \<Rightarrow>
                let T' = T\<lparr>tenants := (tenants T)(name_hash key \<mapsto> set_group g t)\<rparr>
                in if ok then init_items J items groups T' else (False, T'))
       | None \<Rightarrow>
           (case configure_tenant J obj (case groups key of None \<Rightarrow> default_group | Some g \<Rightarrow> g) of
              (ok, g) \<Rightarrow> if ok then init_items J items (groups(key \<mapsto> g)) T else (False, T)))"

definition init_tenants :: "'j Json \<Rightarrow> (string \<times> 'j) list option \<Rightarrow> 'i Tenants \<Rightarrow> 'i Tenants" where
  "init_tenants J parsed T =
    (case parsed of
       None \<Rightarrow> T\<lparr>vrt_failed := True\<rparr>
     | Some items \<Rightarrow>
         (case init_items J items [''test'' \<mapsto> default_group] T of
            (ok, T') \<Rightarrow> if ok then T' else T'\<lparr>vrt_failed := True\<rparr>))"

definition tenant_find :: "string \<Rightarrow> 'i Tenants \<Rightarrow> 'i SandboxTenant option" where
  "tenant_find name T = tenants T (name_hash name)"

definition tenant_append_main_argument :: "string \<Rightarrow> string \<Rightarrow> 'i Tenants \<Rightarrow> 'i Tenants" where
  "tenant_append_main_argument name a T =
    (case tenant_find name T of
       None \<Rightarrow> T
     | Some t \<Rightarrow>
         let g = cfg_group (config t)
         in T\<lparr>tenants := (tenants T)(name_hash name \<mapsto> set_group (g\<lparr>argv := argv g @ [a]\<rparr>) t)\<rparr>)"

section \<open>Loading programs\<close>

fun find_sub :: "string \<Rightarrow> string \<Rightarrow> nat option" where
  "find_sub pat [] = (if pat = [] then Some 0 else None)"
| "find_sub pat (c # cs) = (if take (length pat) (c # cs) = pat then Some 0 else map_option Suc (find_sub pat cs))"

definition replace_var :: "string \<Rightarrow> string option \<Rightarrow> string \<Rightarrow> string" where
  "replace_var var val str =
    (case find_sub var str of
       None \<Rightarrow> str
     | Some i \<Rightarrow> (case val of None \<Rightarrow> str | Some v \<Rightarrow> take i str @ v @ drop (i + length var) str))"

definition apply_dollar_vars :: "string option \<Rightarrow> string option \<Rightarrow> string \<Rightarrow> string" where
  "apply_dollar_vars home cwd str = replace_var ''$PWD'' cwd (replace_var ''$HOME'' home str)"

datatype Program_source = Build_cpp string | Build_rust string | Elf_file string

text \<open>The building branches use the configured name, without the variables replaced.\<close>

definition load_source :: "string option \<Rightarrow> string option \<Rightarrow> TenantConfig \<Rightarrow> Program_source" where
  "load_source home cwd c =
    (let f = cfg_filename c in
     if 4 < length f \<and> drop (length f - 4) f = ''.cpp'' then Build_cpp f
     else if 5 < length f \<and> take 5 f = ''rust:'' then Build_rust (drop 5 f)
     else Elf_file (apply_dollar_vars home cwd f))"

definition load :: "string option \<Rightarrow> string option \<Rightarrow> (Program_source \<Rightarrow> TenantConfig \<Rightarrow> 'i option) \<Rightarrow> 'i SandboxTenant \<Rightarrow> 'i SandboxTenant" where
  "load home cwd build t = t\<lparr>program := build (load_source home cwd (config t)) (config t)\<rparr>"

definition finalize_tenants_impl ::
  "string option \<Rightarrow> string option \<Rightarrow> (Program_source \<Rightarrow> TenantConfig \<Rightarrow> 'i option) \<Rightarrow> 'i Tenants \<Rightarrow> 'i Tenants" where
  "finalize_tenants_impl home cwd build T =
    T\<lparr>tenants := (\<lambda>h. map_option (\<lambda>t. if program t = None then load home cwd build t else t) (tenants T h))\<rparr>"
section \<open>Live updates\<close>

text \<open>An instance has the entry points that its program registered, and a storage machine.\<close>

record 's MachineInstance =
  callback_entries :: "64 word list"
  storage :: 's

datatype update_exn = Out_of_memory | Machine_exception | Std_exception

datatype update_output = Empty_file | Not_applied | Machine_message | Std_message | Could_not_write | Update_successful

text \<open>
  What the machines do is a parameter: calling a function with arguments, the first two argument registers, allocating guest
  memory and copying from the memory of another machine.
\<close>

record 's Machines =
  vm_call :: "64 word \<Rightarrow> 64 word list \<Rightarrow> 's \<Rightarrow> 's"
  vm_sysargs :: "'s \<Rightarrow> 64 word \<times> 32 word"
  vm_guest_alloc :: "32 word \<Rightarrow> 's \<Rightarrow> (update_exn + 64 word) \<times> 's"
  vm_memcpy :: "64 word \<Rightarrow> 's \<Rightarrow> 64 word \<Rightarrow> 32 word \<Rightarrow> 's \<Rightarrow> (update_exn + unit) \<times> 's"

definition transfer_state ::
  "'s Machines \<Rightarrow> 's MachineInstance option \<Rightarrow> 's MachineInstance \<Rightarrow> (update_exn + unit) \<times> 's MachineInstance" where
  "transfer_state M old inst =
    (case old of
       None \<Rightarrow> (Inr (), inst)
     | Some o' \<Rightarrow>
         let luaddr = callback_entries o' ! 10; resaddr = callback_entries inst ! 11 in
         if luaddr \<noteq> 0 \<and> resaddr \<noteq> 0 then
           let old_machine = vm_call M luaddr [] (storage o');
               (data_addr, data_len) = vm_sysargs M old_machine
           in case vm_guest_alloc M data_len (storage inst) of
                (Inl e, s1) \<Rightarrow> (Inl e, inst\<lparr>storage := s1\<rparr>)
              | (Inr dst_data, s1) \<Rightarrow>
                  (case vm_memcpy M dst_data old_machine data_addr data_len s1 of
                     (Inl e, s2) \<Rightarrow> (Inl e, inst\<lparr>storage := s2\<rparr>)
                   | (Inr _, s2) \<Rightarrow> (Inr (), inst\<lparr>storage := vm_call M resaddr [dst_data, ucast data_len] s2\<rparr>))
         else (Inr (), inst))"

definition exn_output :: "update_exn \<Rightarrow> update_output" where
  "exn_output e = (case e of Out_of_memory \<Rightarrow> Not_applied | Machine_exception \<Rightarrow> Machine_message | Std_exception \<Rightarrow> Std_message)"

text \<open>
  An update answers with its output and leaves the tenant with the new program, or the new program for debugging.  Its
  arguments give what constructing an instance from a binary does, and whether writing the binary to the file of the tenant succeeds.
\<close>

definition riscv_update ::
  "'s Machines \<Rightarrow> ('b list \<Rightarrow> bool \<Rightarrow> TenantConfig \<Rightarrow> update_exn + 's MachineInstance) \<Rightarrow> (string \<Rightarrow> 'b list \<Rightarrow> bool) \<Rightarrow>
   'b list \<Rightarrow> bool \<Rightarrow> 's MachineInstance SandboxTenant \<Rightarrow> update_output \<times> 's MachineInstance SandboxTenant" where
  "riscv_update M mk writes data is_debug vrm =
    (if data = [] then (Empty_file, vrm)
     else case mk data is_debug (config vrm) of
         Inl e \<Rightarrow> (exn_output e, vrm)
       | Inr inst \<Rightarrow>
           let old = (if is_debug then debug_program vrm else program vrm);
               (r, inst') = transfer_state M old inst;
               vrm' = (if is_debug then vrm\<lparr>debug_program := Some inst'\<rparr> else vrm\<lparr>program := Some inst'\<rparr>)
           in case r of
                Inl e \<Rightarrow> (exn_output e, vrm')
              | Inr _ \<Rightarrow>
                  if \<not> is_debug \<and> \<not> writes (cfg_filename (config vrm)) data then (Could_not_write, vrm')
                  else (Update_successful, vrm'))"

definition set_argv :: "string list \<Rightarrow> 'i SandboxTenant \<Rightarrow> 'i SandboxTenant" where
  "set_argv a t = set_group ((cfg_group (config t))\<lparr>argv := a\<rparr>) t"

definition riscv_update_file ::
  "'s Machines \<Rightarrow> ('b list \<Rightarrow> bool \<Rightarrow> TenantConfig \<Rightarrow> update_exn + 's MachineInstance) \<Rightarrow> (string \<Rightarrow> 'b list option) \<Rightarrow>
   string option \<Rightarrow> string option \<Rightarrow> string \<Rightarrow> string option \<Rightarrow> 's MachineInstance SandboxTenant \<Rightarrow>
   bool \<times> 's MachineInstance SandboxTenant" where
  "riscv_update_file M mk file_loader home cwd filename append_argument vrm =
    (case file_loader (apply_dollar_vars home cwd filename) of
       None \<Rightarrow> (False, vrm)
     | Some binary \<Rightarrow>
         let old_argv = argv (cfg_group (config vrm));
             vrm1 = (case append_argument of None \<Rightarrow> vrm | Some a \<Rightarrow> set_argv (old_argv @ [a]) vrm)
         in case mk binary False (config vrm1) of
              Inl e \<Rightarrow> (False, set_argv old_argv vrm1)
            | Inr inst \<Rightarrow>
                let vrm2 = set_argv old_argv vrm1;
                    (r, inst') = transfer_state M (program vrm2) inst
                in (case r of Inl e \<Rightarrow> False | Inr _ \<Rightarrow> True, vrm2\<lparr>program := Some inst'\<rparr>))"
section \<open>Sequences of operations\<close>

text \<open>What a VCL does with its tenants, in any order: configurations, arguments, loading and updates.\<close>

inductive tenancy_run ::
  "'j Json \<Rightarrow> (string \<Rightarrow> 'b list option) \<Rightarrow> 's MachineInstance Tenants \<Rightarrow> 's MachineInstance Tenants \<Rightarrow> bool" for J ld T where
  start: "tenancy_run J ld T T"
| configures: "tenancy_run J ld T T1 \<Longrightarrow> tenancy_run J ld T (init_tenants J parsed T1)"
| appends: "tenancy_run J ld T T1 \<Longrightarrow> tenancy_run J ld T (tenant_append_main_argument name a T1)"
| finalizes: "tenancy_run J ld T T1 \<Longrightarrow> tenancy_run J ld T (finalize_tenants_impl home cwd build T1)"
| updates: "tenancy_run J ld T T1 \<Longrightarrow> tenant_find name T1 = Some t \<Longrightarrow>
    riscv_update M mk writes (data :: 'b list) dbg t = (out, t') \<Longrightarrow>
    tenancy_run J ld T (T1\<lparr>tenants := (tenants T1)(name_hash name \<mapsto> t')\<rparr>)"
| updates_file: "tenancy_run J ld T T1 \<Longrightarrow> tenant_find name T1 = Some t \<Longrightarrow>
    riscv_update_file M mk ld home cwd filename a t = (ok, t') \<Longrightarrow>
    tenancy_run J ld T (T1\<lparr>tenants := (tenants T1)(name_hash name \<mapsto> t')\<rparr>)"

text \<open>Two tenants with the same name and file.\<close>

definition same_tenant :: "'i SandboxTenant \<Rightarrow> 'i SandboxTenant \<Rightarrow> bool" where
  "same_tenant t t' \<longleftrightarrow> cfg_name (config t') = cfg_name (config t) \<and> cfg_filename (config t') = cfg_filename (config t)"

definition keeps_tenants :: "'i Tenants \<Rightarrow> 'i Tenants \<Rightarrow> bool" where
  "keeps_tenants T T' \<longleftrightarrow>
    (\<forall>h t. tenants T h = Some t \<longrightarrow> (\<exists>t'. tenants T' h = Some t' \<and> same_tenant t t')) \<and>
    (\<forall>h t'. tenants T' h = Some t' \<and> tenants T h = None \<longrightarrow> name_hash (cfg_name (config t')) = h)"

lemma same_tenant_refl [simp]: "same_tenant t t"
  by (simp add: same_tenant_def)

lemma same_tenant_set [simp]: "same_tenant t (set_group g t)" "same_tenant t (set_argv a t)" "same_tenant t (load home cwd build t)"
  by (simp_all add: same_tenant_def set_group_def set_argv_def load_def)

lemma tenant_keeps_refl [simp]: "keeps_tenants T T"
  by (auto simp: keeps_tenants_def)

lemma tenant_keeps_trans: "keeps_tenants T1 T2 \<Longrightarrow> keeps_tenants T2 T3 \<Longrightarrow> keeps_tenants T1 T3"
  unfolding keeps_tenants_def same_tenant_def
proof (intro conjI allI impI, goal_cases)
  case (1 h t)
  then show ?case
    by (elim conjE allE [where x = h]) auto
next
  case (2 h t)
  then show ?case
    by (cases "tenants T2 h") fastforce+
qed

lemma keeps_report [simp]:
  "keeps_tenants T (T'\<lparr>vrt_failed := b\<rparr>) = keeps_tenants T T'" "keeps_tenants T (T'\<lparr>missing_groups := m\<rparr>) = keeps_tenants T T'"
  by (simp_all add: keeps_tenants_def)

lemma keeps_put:
  assumes "tenants T h = Some t" and "same_tenant t t'"
  shows "keeps_tenants T (T\<lparr>tenants := (tenants T)(h \<mapsto> t')\<rparr>)"
  using assms by (auto simp: keeps_tenants_def)

lemma keeps_load: "keeps_tenants T (load_tenant c T)"
  by (auto simp: keeps_tenants_def load_tenant_def Let_def)

lemma init_items_keeps: "keeps_tenants T (snd (init_items J items groups T))"
proof (induction items arbitrary: groups T)
  case (Cons item items)
  obtain key obj where item: "item = (key, obj)"
    by (rule prod.exhaust)
  have put: "keeps_tenants T (snd (init_items J items groups (T\<lparr>tenants := (tenants T)(name_hash key \<mapsto> set_group g t)\<rparr>)))"
    if "tenants T (name_hash key) = Some t" for g t groups
    by (rule tenant_keeps_trans [OF keeps_put [OF that same_tenant_set(1)] Cons])
  have rep: "keeps_tenants T (snd (init_items J items groups (T\<lparr>missing_groups := m\<rparr>)))" for m groups
    by (rule tenant_keeps_trans [OF _ Cons]) simp
  have ld: "keeps_tenants T (snd (init_items J items groups (load_tenant c T)))" for c groups
    by (rule tenant_keeps_trans [OF keeps_load Cons])
  show ?case
  proof (cases "j_contains J obj ''filename''")
    case True
    then show ?thesis
      unfolding item by (simp add: rep ld split: option.split prod.split bool.split)
  next
    case False
    then show ?thesis
      unfolding item by (simp add: put Cons keeps_put [OF _ same_tenant_set(1)] Let_def split: option.split prod.split)
  qed
qed simp

lemma riscv_update_same: "riscv_update M mk writes data dbg t = (out, t') \<Longrightarrow> same_tenant t t'"
  by (auto simp: riscv_update_def same_tenant_def Let_def split: if_splits sum.splits prod.splits)

lemma riscv_update_file_same: "riscv_update_file M mk ld home cwd f a t = (ok, t') \<Longrightarrow> same_tenant t t'"
  by (auto simp: riscv_update_file_def same_tenant_def set_argv_def set_group_def Let_def split: option.splits sum.splits prod.splits)

lemma tenancy_run_keeps: "tenancy_run J ld T T' \<Longrightarrow> keeps_tenants T T'"
proof (induction rule: tenancy_run.induct)
  case (configures T1 parsed)
  have "keeps_tenants T1 (init_tenants J parsed T1)"
    using init_items_keeps [of T1 J] by (auto simp: init_tenants_def split: option.splits prod.splits) (metis snd_conv)+
  then show ?case
    using configures.IH tenant_keeps_trans by blast
next
  case (appends T1 name a)
  have "keeps_tenants T1 (tenant_append_main_argument name a T1)"
    by (auto simp: tenant_append_main_argument_def tenant_find_def Let_def intro!: keeps_put split: option.splits)
  then show ?case
    using appends.IH tenant_keeps_trans by blast
next
  case (finalizes T1 home cwd build)
  have "keeps_tenants T1 (finalize_tenants_impl home cwd build T1)"
    by (auto simp: keeps_tenants_def finalize_tenants_impl_def)
  then show ?case
    using finalizes.IH tenant_keeps_trans by blast
next
  case (updates T1 name t M mk writes data dbg out t')
  then show ?case
    using tenant_keeps_trans [OF updates.IH keeps_put [of T1 "name_hash name" t t']] riscv_update_same [OF updates.hyps(3)]
    by (simp add: tenant_find_def)
next
  case (updates_file T1 name t M mk home cwd f a ok t')
  then show ?case
    using tenant_keeps_trans [OF updates_file.IH keeps_put [of T1 "name_hash name" t t']] riscv_update_file_same [OF updates_file.hyps(3)]
    by (simp add: tenant_find_def)
qed simp
lemma load_tenant_sel [simp]: "missing_groups (load_tenant c T) = missing_groups T" "vrt_failed T \<Longrightarrow> vrt_failed (load_tenant c T)"
  by (simp_all add: load_tenant_def Let_def)

lemma init_items_reports:
  "(vrt_failed T \<longrightarrow> vrt_failed (snd (init_items J items groups T))) \<and>
   (\<exists>m. missing_groups (snd (init_items J items groups T)) = missing_groups T @ m)"
proof (induction J items groups T rule: init_items.induct)
  case (2 J key obj items groups T)
  show ?case
  proof (cases "j_contains J obj ''filename''")
    case True
    then show ?thesis
      using 2(1,2) by (fastforce split: option.splits prod.splits bool.splits)
  next
    case False
    then show ?thesis
      using 2(3,4) by (fastforce simp: Let_def split: option.splits prod.splits)
  qed
qed simp

lemma keeps_at:
  assumes "keeps_tenants T T'" and "tenants T h = Some t"
  shows "\<exists>t'. tenants T' h = Some t' \<and> cfg_name (config t') = cfg_name (config t) \<and> cfg_filename (config t') = cfg_filename (config t)"
  using assms by (auto simp: keeps_tenants_def same_tenant_def)

lemma init_items_finds:
  assumes "init_items J items groups T = (True, T')" and "(key, obj) \<in> set items" and "j_contains J obj ''filename''"
    and "\<not> vrt_failed T'" and "missing_groups T' = missing_groups T"
  shows "\<exists>t f. tenants T' (name_hash key) = Some t \<and> cfg_name (config t) = key \<and> j_string J obj ''filename'' = Some f \<and>
    cfg_filename (config t) = f"
  using assms
proof (induction items arbitrary: groups T)
  case (Cons item items)
  obtain k o' where item: "item = (k, o')"
    by (rule prod.exhaust)
  have missing: False if "init_items J items groups' (T\<lparr>missing_groups := missing_groups T @ [x]\<rparr>) = (True, T')" for groups' x
    using init_items_reports [of "T\<lparr>missing_groups := missing_groups T @ [x]\<rparr>" J items groups'] that Cons.prems(5) by simp
  show ?case
  proof (cases "j_contains J o' ''filename''")
    case True
    obtain f g where f: "j_string J o' ''filename'' = Some f"
      and rest: "init_items J items groups (load_tenant \<lparr> cfg_name = k, cfg_filename = f, cfg_group = g \<rparr> T) = (True, T')"
      using Cons.prems(1) True missing by (auto simp: item split: option.splits prod.splits bool.splits)
    let ?c = "\<lparr> cfg_name = k, cfg_filename = f, cfg_group = g \<rparr>"
    show ?thesis
    proof (cases "(key, obj) = (k, o')")
      case True
      have "\<not> vrt_failed (load_tenant ?c T)"
        using init_items_reports [of "load_tenant ?c T" J items groups] rest Cons.prems(4) by auto
      then have "tenants (load_tenant ?c T) (name_hash k) = Some \<lparr> config = ?c, program = None, debug_program = None \<rparr>"
        by (auto simp: load_tenant_def Let_def split: if_splits)
      then show ?thesis
        using keeps_at [OF init_items_keeps, of "load_tenant ?c T" _ _ J items groups] rest f True by fastforce
    next
      case False
      then show ?thesis
        using Cons.IH [OF rest _ Cons.prems(3,4)] Cons.prems(2,5) item by auto
    qed
  next
    case False
    then have "(key, obj) \<in> set items"
      using Cons.prems(2,3) item by auto
    moreover obtain groups' T1 where "init_items J items groups' T1 = (True, T')" "missing_groups T1 = missing_groups T"
      using Cons.prems(1) False by (auto simp: item Let_def split: option.splits prod.splits if_splits)
    ultimately show ?thesis
      using Cons.IH [OF _ _ Cons.prems(3,4)] Cons.prems(5) by auto
  qed
qed simp

section \<open>Properties\<close>

text \<open>
  (C22) Whatever sequence of configurations, arguments, loading and updates a VCL executes, a tenant that was found by a name is
  found by it ever after, with the same name and the same program file; and every tenant is filed under the hash of its own name.
\<close>

theorem tenants_keep_identity:
  assumes run: "tenancy_run J ld T T'" and filed: "\<forall>h t. tenants T h = Some t \<longrightarrow> name_hash (cfg_name (config t)) = h"
  shows "(\<forall>name t. tenant_find name T = Some t \<longrightarrow>
      (\<exists>t'. tenant_find name T' = Some t' \<and> cfg_name (config t') = cfg_name (config t) \<and> cfg_filename (config t') = cfg_filename (config t))) \<and>
    (\<forall>name t'. tenant_find name T' = Some t' \<longrightarrow> name_hash (cfg_name (config t')) = name_hash name)"
proof -
  have keeps: "keeps_tenants T T'"
    by (rule tenancy_run_keeps [OF run])
  have "name_hash (cfg_name (config t')) = h" if "tenants T' h = Some t'" for h t'
  proof (cases "tenants T h")
    case (Some t)
    then show ?thesis
      using keeps_at [OF keeps Some] filed that by auto
  qed (use keeps that in \<open>auto simp: keeps_tenants_def\<close>)
  then show ?thesis
    using keeps_at [OF keeps] by (auto simp: tenant_find_def)
qed

text \<open>
  (C23) A configuration that reports no failure and no missing group has registered every tenant it names: the tenant is found
  by its name and has the configured program file.
\<close>

theorem configured_tenants_found:
  assumes "init_tenants J (Some items) T = T'" and "(key, obj) \<in> set items" and "j_contains J obj ''filename''"
    and "\<not> vrt_failed T'" and "missing_groups T' = missing_groups T"
  shows "\<exists>t. tenant_find key T' = Some t \<and> cfg_name (config t) = key \<and> j_string J obj ''filename'' = Some (cfg_filename (config t))"
proof -
  have "init_items J items [''test'' \<mapsto> default_group] T = (True, T')"
    using assms(1,4) by (auto simp: init_tenants_def split: prod.splits if_splits)
  then show ?thesis
    using init_items_finds assms(2-) unfolding tenant_find_def by fastforce
qed

text \<open>
  (C24) Updating a tenant from a file: when the instance cannot be built, the tenant is as before; when it can, the tenant runs
  the new instance, which was built with the extra argument at the end of the main arguments. In both cases
  the configuration of the tenant, its arguments included, is as before.
\<close>

theorem update_file_restores_arguments:
  assumes "ld (apply_dollar_vars home cwd f) = Some binary" and "riscv_update_file M mk ld home cwd f (Some a) t = (ok, t')"
  shows "config t' = config t \<and> debug_program t' = debug_program t \<and>
    (case mk binary False ((config t)\<lparr>cfg_group := (cfg_group (config t))\<lparr>argv := argv (cfg_group (config t)) @ [a]\<rparr>\<rparr>) of
       Inl e \<Rightarrow> \<not> ok \<and> program t' = program t
     | Inr inst \<Rightarrow> program t' = Some (snd (transfer_state M (program t) inst)) \<and> (ok \<longleftrightarrow> (\<exists>u. fst (transfer_state M (program t) inst) = Inr u)))"
  using assms
  by (auto simp: riscv_update_file_def set_argv_def set_group_def Let_def split: sum.splits prod.splits)

text \<open>
  An update that reports that it ran out of memory and was not applied may have been applied: when the memory runs out while
  the state of the old program is copied, the tenant already runs the new one.
\<close>

theorem update_reported_not_applied:
  assumes "data \<noteq> []" and "mk data False (config t) = Inr inst" and "transfer_state M (program t) inst = (Inl Out_of_memory, inst')"
  shows "riscv_update M mk writes data False t = (Not_applied, t\<lparr>program := Some inst'\<rparr>)"
  using assms by (simp add: riscv_update_def exn_output_def)
text \<open>
  Tenants are told apart by a hash of 32 bits alone: with the one tenant \<open>uidffrr\<close> configured, the name \<open>vjcgjqx\<close> finds that
  tenant too, and a configuration of both fails and leaves the first.
\<close>

theorem tenant_find_collision:
  "tenant_find ''vjcgjqx'' (load_tenant \<lparr> cfg_name = ''uidffrr'', cfg_filename = f, cfg_group = g \<rparr> \<lparr> tenants = Map.empty, vrt_failed = False, missing_groups = [] \<rparr>) =
     Some \<lparr> config = \<lparr> cfg_name = ''uidffrr'', cfg_filename = f, cfg_group = g \<rparr>, program = None, debug_program = None \<rparr> \<and>
   vrt_failed (load_tenant \<lparr> cfg_name = ''vjcgjqx'', cfg_filename = f', cfg_group = g' \<rparr>
     (load_tenant \<lparr> cfg_name = ''uidffrr'', cfg_filename = f, cfg_group = g \<rparr> \<lparr> tenants = Map.empty, vrt_failed = False, missing_groups = [] \<rparr>))"
proof -
  have "name_hash ''uidffrr'' = name_hash ''vjcgjqx''"
    by (simp add: name_hash_def crc32_from_step gen_crc32_table_def crc_rounds_numeral CRC32C_def)
  then show ?thesis
    by (simp add: tenant_find_def load_tenant_def)
qed

text \<open>A group is known from its entry on: a tenant that comes before its group is reported as missing it and is not registered.\<close>

lemma tenant_before_its_group:
  assumes "j_contains J obj ''filename''" "j_contains J obj ''group''" "j_string J obj ''group'' = Some gr" "gr \<noteq> ''test''"
    and "\<not> j_contains J gobj ''filename''" "configure_tenant J gobj default_group = (True, g)" "tenants T (name_hash gr) = None"
  shows "init_tenants J (Some [(name, obj), (gr, gobj)]) T = T\<lparr>missing_groups := missing_groups T @ [(gr, name)]\<rparr>"
  using assms by (simp add: init_tenants_def)

section \<open>Concurrent updates\<close>

text \<open>
  Several threads may update one tenant from files. Each loads the argument vector, stores an extended copy and, once the
  instance is built, stores what it loaded; the loads and stores are atomic, and between them the other threads run.
\<close>

datatype updater = Idle | Loaded "string list" | Extended "string list" | Restored

inductive argv_step :: "(nat \<Rightarrow> string) \<Rightarrow> string list \<times> (nat \<Rightarrow> updater) \<Rightarrow> string list \<times> (nat \<Rightarrow> updater) \<Rightarrow> bool" for a where
  loads: "pc i = Idle \<Longrightarrow> argv_step a (v, pc) (v, pc(i := Loaded v))"
| extends: "pc i = Loaded old \<Longrightarrow> argv_step a (v, pc) (old @ [a i], pc(i := Extended old))"
| restores: "pc i = Extended old \<Longrightarrow> argv_step a (v, pc) (old, pc(i := Restored))"

lemma single_updater_restores:
  assumes "(argv_step a)\<^sup>*\<^sup>* (v0, (\<lambda>_. Restored)(i := Idle)) (v, pc)"
  shows "(\<forall>j. j \<noteq> i \<longrightarrow> pc j = Restored) \<and> (case pc i of Idle \<Rightarrow> v = v0 | Loaded old \<Rightarrow> v = v0 \<and> old = v0 | Extended old \<Rightarrow> old = v0 | Restored \<Rightarrow> v = v0)"
  using assms
proof (induction "(v, pc)" arbitrary: v pc rule: rtranclp_induct)
  case (step y)
  obtain w pc0 where y: "y = (w, pc0)"
    by (rule prod.exhaust)
  have only: "j = i" if "pc0 j \<noteq> Restored" for j
    using step(3) [OF y] that by auto
  from step(2) show ?case
    unfolding y
  proof cases
    case (loads j)
    then show ?thesis
      using only [of j] step(3) [OF y] by auto
  next
    case (extends j old)
    then show ?thesis
      using only [of j] step(3) [OF y] by auto
  next
    case (restores j)
    then show ?thesis
      using only [of j] step(3) [OF y] by auto
  qed
qed auto

text \<open>
  (C25) One update at a time leaves the main arguments as they were. Two updates that overlap may not: the second
  loads the vector while the first has extended it, and stores it last, so the argument of the first stays.
\<close>

theorem concurrent_updates_keep_argument:
  "(\<forall>v pc. (argv_step a)\<^sup>*\<^sup>* (v0, (\<lambda>_. Restored)(i := Idle)) (v, pc) \<longrightarrow> pc i = Restored \<longrightarrow> v = v0) \<and>
   (argv_step a)\<^sup>*\<^sup>* (v0, (\<lambda>_. Restored)(0 := Idle, 1 := Idle)) (v0 @ [a 0], \<lambda>_. Restored)"
proof (intro conjI allI impI)
  fix v pc
  assume "(argv_step a)\<^sup>*\<^sup>* (v0, (\<lambda>_. Restored)(i := Idle)) (v, pc)" and "pc i = Restored"
  then show "v = v0"
    using single_updater_restores [of a v0 i v pc] by simp
next
  let ?P = "\<lambda>x y. (\<lambda>_. Restored)(0 := x, 1 := y) :: nat \<Rightarrow> updater"
  have s1: "argv_step a (v0, ?P Idle Idle) (v0, ?P (Loaded v0) Idle)"
    using argv_step.loads [of "?P Idle Idle" 0 a v0] by (simp add: fun_upd_twist)
  have s2: "argv_step a (v0, ?P (Loaded v0) Idle) (v0 @ [a 0], ?P (Extended v0) Idle)"
    using argv_step.extends [of "?P (Loaded v0) Idle" 0 v0 a v0] by (simp add: fun_upd_twist)
  have s3: "argv_step a (v0 @ [a 0], ?P (Extended v0) Idle) (v0 @ [a 0], ?P (Extended v0) (Loaded (v0 @ [a 0])))"
    using argv_step.loads [of "?P (Extended v0) Idle" 1 a "v0 @ [a 0]"] by simp
  have s4: "argv_step a (v0 @ [a 0], ?P (Extended v0) (Loaded (v0 @ [a 0]))) ((v0 @ [a 0]) @ [a 1], ?P (Extended v0) (Extended (v0 @ [a 0])))"
    using argv_step.extends [of "?P (Extended v0) (Loaded (v0 @ [a 0]))" 1 "v0 @ [a 0]" a "v0 @ [a 0]"] by simp
  have s5: "argv_step a ((v0 @ [a 0]) @ [a 1], ?P (Extended v0) (Extended (v0 @ [a 0]))) (v0, ?P Restored (Extended (v0 @ [a 0])))"
    using argv_step.restores [of "?P (Extended v0) (Extended (v0 @ [a 0]))" 0 v0 a "(v0 @ [a 0]) @ [a 1]"] by (simp add: fun_upd_twist)
  have s6: "argv_step a (v0, ?P Restored (Extended (v0 @ [a 0]))) (v0 @ [a 0], ?P Restored Restored)"
    using argv_step.restores [of "?P Restored (Extended (v0 @ [a 0]))" 1 "v0 @ [a 0]" a v0] by simp
  have end_pc: "?P Restored Restored = (\<lambda>_. Restored)"
    by auto
  note into = converse_rtranclp_into_rtranclp [where r = "argv_step a"]
  show "(argv_step a)\<^sup>*\<^sup>* (v0, ?P Idle Idle) (v0 @ [a 0], \<lambda>_. Restored)"
    by (rule into [OF s1 into [OF s2 into [OF s3 into [OF s4 into [OF s5 into [OF s6 [unfolded end_pc] rtranclp.rtrancl_refl]]]]]])
qed

section \<open>Witnesses\<close>

definition demo_json :: "(string \<times> string) list Json" where
  "demo_json = \<lparr> j_contains = (\<lambda>obj k. map_of obj k \<noteq> None), j_uint32 = (\<lambda>_ _. None), j_uint64 = (\<lambda>_ _. None),
     j_string = map_of, j_strings = (\<lambda>_ _. None) \<rparr>"

definition demo_items :: "(string \<times> (string \<times> string) list) list" where
  "demo_items = [(''other'', []), (''site'', [(''filename'', ''/bin/site''), (''group'', ''other'')])]"

definition demo_tenants :: "nat MachineInstance Tenants" where
  "demo_tenants = \<lparr> tenants = Map.empty, vrt_failed = False, missing_groups = [] \<rparr>"

definition demo_instance :: "64 word \<Rightarrow> nat MachineInstance" where
  "demo_instance a = \<lparr> callback_entries = replicate 12 a, storage = 0 \<rparr>"

definition demo_vms :: "nat Machines" where
  "demo_vms = \<lparr> vm_call = (\<lambda>_ _ s. s + 1), vm_sysargs = (\<lambda>_. (4096, 8)), vm_guest_alloc = (\<lambda>n s. (Inr 8192, s)),
     vm_memcpy = (\<lambda>_ _ _ _ s. (Inl Out_of_memory, s)) \<rparr>"

definition demo_tenant :: "nat MachineInstance SandboxTenant" where
  "demo_tenant = \<lparr> config = \<lparr> cfg_name = ''site'', cfg_filename = ''/bin/site'', cfg_group = default_group \<rparr>,
     program = Some (demo_instance 64), debug_program = None \<rparr>"

lemma demo_configured:
  "init_tenants demo_json (Some demo_items) demo_tenants = demo_tenants\<lparr>tenants := [name_hash ''site'' \<mapsto>
     \<lparr> config = \<lparr> cfg_name = ''site'', cfg_filename = ''/bin/site'', cfg_group = default_group \<rparr>, program = None, debug_program = None \<rparr>]\<rparr>"
  by (simp add: init_tenants_def demo_json_def demo_items_def demo_tenants_def configure_tenant_def override_with_def load_tenant_def)

theorem tenants_keep_identity_witness:
  "\<exists>t'. tenant_find ''site'' (init_tenants demo_json (Some [(''site'', [(''filename'', ''/bin/evil'')])]) (init_tenants demo_json (Some demo_items) demo_tenants)) = Some t' \<and>
     cfg_name (config t') = ''site'' \<and> cfg_filename (config t') = ''/bin/site''"
proof -
  let ?T = "init_tenants demo_json (Some demo_items) demo_tenants"
  have run: "tenancy_run demo_json (\<lambda>f. Some [f]) ?T (init_tenants demo_json (Some [(''site'', [(''filename'', ''/bin/evil'')])]) ?T)"
    by (intro tenancy_run.intros)
  have "\<forall>h t. tenants ?T h = Some t \<longrightarrow> name_hash (cfg_name (config t)) = h"
    unfolding demo_configured by simp
  moreover have "tenant_find ''site'' ?T = Some \<lparr> config = \<lparr> cfg_name = ''site'', cfg_filename = ''/bin/site'', cfg_group = default_group \<rparr>,
      program = None, debug_program = None \<rparr>"
    unfolding demo_configured by (simp add: tenant_find_def)
  ultimately show ?thesis
    using tenants_keep_identity [OF run] by fastforce
qed

theorem configured_tenants_found_witness:
  "\<exists>t. tenant_find ''site'' (init_tenants demo_json (Some demo_items) demo_tenants) = Some t \<and> cfg_filename (config t) = ''/bin/site''"
proof -
  let ?o = "[(''filename'', ''/bin/site''), (''group'', ''other'')]"
  have "(''site'', ?o) \<in> set demo_items" "j_contains demo_json ?o ''filename''" "j_string demo_json ?o ''filename'' = Some ''/bin/site''"
    by (simp_all add: demo_json_def demo_items_def)
  moreover have "\<not> vrt_failed (init_tenants demo_json (Some demo_items) demo_tenants)"
    "missing_groups (init_tenants demo_json (Some demo_items) demo_tenants) = missing_groups demo_tenants"
    unfolding demo_configured by (simp_all add: demo_tenants_def)
  ultimately show ?thesis
    using configured_tenants_found [OF refl] by fastforce
qed

theorem update_file_restores_arguments_witness:
  "\<exists>t'. riscv_update_file demo_vms (\<lambda>b d c. Inr (demo_instance 0)) (\<lambda>f. Some f) None None ''/bin/new'' (Some ''x'') demo_tenant = (True, t') \<and>
     config t' = config demo_tenant"
  using update_file_restores_arguments [of "\<lambda>f. Some f" None None "''/bin/new''" _ demo_vms "\<lambda>b d c. Inr (demo_instance 0)" "''x''" demo_tenant]
  by (cases "riscv_update_file demo_vms (\<lambda>b d c. Inr (demo_instance 0)) (\<lambda>f. Some f) None None ''/bin/new'' (Some ''x'') demo_tenant")
    (auto simp: transfer_state_def demo_tenant_def demo_instance_def)

theorem update_reported_not_applied_witness:
  "riscv_update demo_vms (\<lambda>b d c. Inr (demo_instance 64)) (\<lambda>_ _. True) [1 :: nat] False demo_tenant =
     (Not_applied, demo_tenant\<lparr>program := Some (demo_instance 64)\<rparr>)"
  by (rule update_reported_not_applied [where inst = "demo_instance 64"]) (simp_all add: transfer_state_def demo_tenant_def demo_instance_def demo_vms_def Let_def)

lemma demo_update:
  "(argv_step (\<lambda>_. ''x''))\<^sup>*\<^sup>* ([''y''], (\<lambda>_. Restored)(0 := Idle)) ([''y''], \<lambda>_. Restored)"
proof -
  let ?P = "\<lambda>x. (\<lambda>_. Restored)(0 := x) :: nat \<Rightarrow> updater" and ?a = "\<lambda>_. ''x''"
  have "argv_step ?a ([''y''], ?P Idle) ([''y''], ?P (Loaded [''y'']))"
    using argv_step.loads [of "?P Idle" 0 ?a "[''y'']"] by simp
  moreover have "argv_step ?a ([''y''], ?P (Loaded [''y''])) ([''y'', ''x''], ?P (Extended [''y'']))"
    using argv_step.extends [of "?P (Loaded [''y''])" 0 "[''y'']" ?a "[''y'']"] by simp
  moreover have "argv_step ?a ([''y'', ''x''], ?P (Extended [''y''])) ([''y''], \<lambda>_. Restored)"
    using argv_step.restores [of "?P (Extended [''y''])" 0 "[''y'']" ?a "[''y'', ''x'']"] by (simp add: fun_upd_idem)
  ultimately show ?thesis
    by (meson converse_rtranclp_into_rtranclp rtranclp.rtrancl_refl)
qed

theorem concurrent_updates_keep_argument_witness:
  "(\<exists>v. (argv_step (\<lambda>_. ''x''))\<^sup>*\<^sup>* ([''y''], (\<lambda>_. Restored)(0 := Idle)) (v, \<lambda>_. Restored) \<and> v = [''y'']) \<and>
   (argv_step (\<lambda>_. ''x''))\<^sup>*\<^sup>* ([''y''], (\<lambda>_. Restored)(0 := Idle, 1 := Idle)) ([''y'', ''x''], \<lambda>_. Restored)"
  using concurrent_updates_keep_argument [of "\<lambda>_. ''x''" "[''y'']" 0] demo_update by auto

end
