(* ===== verification/Lifetime.thy ===== *)
theory Lifetime
  imports Prelude
begin

text \<open>
  Lifetime of program instances (\<open>SandboxTenant::vmfork\<close> and \<open>SandboxFreeFunction\<close> in \<open>src/src/sandbox_tenant.cpp\<close>, the exchanges
  in \<open>live_update.cpp\<close>, the handlers that \<open>remote_call\<close> in \<open>script_functions.cpp\<close> installs, and \<open>riscv_delete\<close> in
  \<open>varnish_cpp_interface.cpp\<close>): the shared pointers of tenants and open requests with their use counts. An instance is
  shown to live exactly as long as a tenant or a request refers to it.
\<close>

section \<open>Shared pointers\<close>

text \<open>
  The shared pointers to an instance are those in the tenants and those in the scripts of open requests.  The state
  has what each of them points to, the use counts, the instances created and destroyed so far, and per instance
  the script that the page fault handler of its storage machine refers to.
\<close>

datatype ('h, 'k) ptr = Program 'h | Debug_program 'h | Inst_ref 'k

record ('h, 'k) Refs =
  holds :: "('h, 'k) ptr \<rightharpoonup> nat"
  use_count :: "nat \<Rightarrow> nat"
  created :: "nat set"
  destroyed :: "nat set"
  fault_script :: "nat \<Rightarrow> 'k option"

definition retain :: "nat \<Rightarrow> ('h, 'k) Refs \<Rightarrow> ('h, 'k) Refs" where
  "retain i S = S\<lparr>use_count := (use_count S)(i := use_count S i + 1)\<rparr>"

definition release :: "nat \<Rightarrow> ('h, 'k) Refs \<Rightarrow> ('h, 'k) Refs" where
  "release i S =
    (let n = use_count S i - 1
     in S\<lparr>use_count := (use_count S)(i := n), destroyed := (if n = 0 then insert i (destroyed S) else destroyed S)\<rparr>)"

definition release_opt :: "nat option \<Rightarrow> ('h, 'k) Refs \<Rightarrow> ('h, 'k) Refs" where
  "release_opt x S = (case x of None \<Rightarrow> S | Some i \<Rightarrow> release i S)"

definition make_shared :: "nat \<Rightarrow> ('h, 'k) Refs \<Rightarrow> ('h, 'k) Refs" where
  "make_shared i S = S\<lparr>use_count := (use_count S)(i := 1), created := insert i (created S)\<rparr>"

section \<open>Operations\<close>

text \<open>A request that has a machine keeps it, whichever tenant it asks for.\<close>

definition vmfork :: "bool \<Rightarrow> bool \<Rightarrow> 'h \<Rightarrow> bool \<Rightarrow> 'k \<Rightarrow> ('h, 'k) Refs \<Rightarrow> nat option \<times> ('h, 'k) Refs" where
  "vmfork ws_ok ctor_ok h debug k S =
    (case holds S (Inst_ref k) of
       Some i \<Rightarrow> (Some i, S)
     | None \<Rightarrow>
         (case holds S (if debug then Debug_program h else Program h) of
            None \<Rightarrow> (None, S)
          | Some i \<Rightarrow>
              let S1 = retain i S in
              if \<not> ws_ok then (None, release i S1)
              else if \<not> ctor_ok then (None, release i S1)
              else (Some i, S1\<lparr>holds := (holds S1)(Inst_ref k \<mapsto> i)\<rparr>)))"

definition SandboxFreeFunction :: "'k \<Rightarrow> ('h, 'k) Refs \<Rightarrow> ('h, 'k) Refs" where
  "SandboxFreeFunction k S = release_opt (holds S (Inst_ref k)) (S\<lparr>holds := (holds S)(Inst_ref k := None)\<rparr>)"

definition load_program :: "nat \<Rightarrow> 'h \<Rightarrow> ('h, 'k) Refs \<Rightarrow> ('h, 'k) Refs" where
  "load_program i h S =
    (let S1 = make_shared i S
     in release_opt (holds S (Program h)) (S1\<lparr>holds := (holds S1)(Program h \<mapsto> i)\<rparr>))"

text \<open>
  An update makes an instance, exchanges it for the old one, and drops its own two pointers, to the old and to the new one.
\<close>

definition exchange_program :: "nat \<Rightarrow> 'h \<Rightarrow> bool \<Rightarrow> ('h, 'k) Refs \<Rightarrow> ('h, 'k) Refs" where
  "exchange_program i h debug S =
    (let p = (if debug then Debug_program h else Program h);
         S1 = retain i (make_shared i S);
         old = holds S1 p;
         S2 = S1\<lparr>holds := (holds S1)(p \<mapsto> i)\<rparr>
     in release i (release_opt old S2))"

text \<open>
  A remote call gives the storage machine handlers that refer to the calling script, and resets the one for reading pages, but not
  the one for page faults.
\<close>

definition remote_call_handlers :: "'k \<Rightarrow> ('h, 'k) Refs \<Rightarrow> ('h, 'k) Refs" where
  "remote_call_handlers k S =
    (case holds S (Inst_ref k) of None \<Rightarrow> S | Some i \<Rightarrow> S\<lparr>fault_script := (fault_script S)(i \<mapsto> k)\<rparr>)"

text \<open>Deleting the machine of a request runs its destructor and leaves it as the machine of the request.\<close>

definition riscv_delete :: "'k \<Rightarrow> ('h, 'k) Refs \<Rightarrow> ('h, 'k) Refs" where
  "riscv_delete k S = release_opt (holds S (Inst_ref k)) S"

definition no_refs :: "('h, 'k) Refs" where
  "no_refs = \<lparr> holds = Map.empty, use_count = (\<lambda>_. 0), created = {}, destroyed = {}, fault_script = (\<lambda>_. None) \<rparr>"

inductive refs_run :: "('h, 'k) Refs \<Rightarrow> bool" where
  start: "refs_run no_refs"
| forks: "refs_run S \<Longrightarrow> refs_run (snd (vmfork ws_ok ctor_ok h debug k S))"
| ends: "refs_run S \<Longrightarrow> refs_run (SandboxFreeFunction k S)"
| loads: "refs_run S \<Longrightarrow> i \<notin> created S \<Longrightarrow> refs_run (load_program i h S)"
| updates: "refs_run S \<Longrightarrow> i \<notin> created S \<Longrightarrow> refs_run (exchange_program i h debug S)"
| calls: "refs_run S \<Longrightarrow> refs_run (remote_call_handlers k S)"

section \<open>Counts\<close>

definition owners :: "('h, 'k) Refs \<Rightarrow> nat \<Rightarrow> ('h, 'k) ptr set" where
  "owners S i = {p. holds S p = Some i}"

text \<open>
  The counts are right up to pointers that an operation holds itself: \<open>e i\<close> of them point to \<open>i\<close>.
\<close>

definition counted :: "(nat \<Rightarrow> nat) \<Rightarrow> ('h, 'k) Refs \<Rightarrow> bool" where
  "counted e S \<longleftrightarrow> finite (dom (holds S)) \<and> (\<forall>i. use_count S i = card (owners S i) + e i) \<and>
    (\<forall>i. i \<in> destroyed S \<longleftrightarrow> i \<in> created S \<and> use_count S i = 0) \<and> (\<forall>i. use_count S i \<noteq> 0 \<longrightarrow> i \<in> created S)"

abbreviation counted0 :: "('h, 'k) Refs \<Rightarrow> bool" where "counted0 \<equiv> counted (\<lambda>_. 0)"

lemma finite_owners: "counted e S \<Longrightarrow> finite (owners S i)"
  unfolding counted_def owners_def by (auto intro: finite_subset [of _ "dom (holds S)"])

lemma owners_put:
  "owners (S\<lparr>holds := (holds S)(p := x)\<rparr>) i = (if x = Some i then insert p (owners S i) else owners S i - {p})"
  by (auto simp: owners_def)

lemma counted_retain:
  assumes "counted e S" and "use_count S i \<noteq> 0"
  shows "counted (e(i := e i + 1)) (retain i S)"
  using assms by (auto simp: counted_def retain_def owners_def)

lemma counted_release:
  assumes "counted e S" and "e i \<noteq> 0"
  shows "counted (e(i := e i - 1)) (release i S)"
  using assms by (auto simp: counted_def release_def owners_def Let_def)

lemma counted_make_shared:
  assumes "counted e S" and "i \<notin> created S"
  shows "counted (e(i := 1)) (make_shared i S)"
proof -
  have "use_count S i = 0" "card (owners S i) = 0"
    using assms by (auto simp: counted_def)
  then show ?thesis
    using assms by (auto simp: counted_def make_shared_def owners_def)
qed

definition one :: "nat option \<Rightarrow> nat \<Rightarrow> nat" where
  "one x i = (if x = Some i then 1 else 0)"

lemma one_upd: "(\<lambda>_. 0)(i := 1) = one (Some i)"
  by (auto simp: one_def)

lemma counted_put:
  assumes c: "counted e S" and e: "\<And>i. one x i \<le> e i"
  shows "counted (\<lambda>i. e i - one x i + one (holds S p) i) (S\<lparr>holds := (holds S)(p := x)\<rparr>)"
proof -
  have n: "card (owners S i) + e i = card (owners (S\<lparr>holds := (holds S)(p := x)\<rparr>) i) + (e i - one x i + one (holds S p) i)" for i
  proof -
    have p: "p \<in> owners S i \<longleftrightarrow> holds S p = Some i"
      by (simp add: owners_def)
    show ?thesis
      unfolding owners_put using card_Suc_Diff1 [OF finite_owners [OF c], of p i] finite_owners [OF c, of i] e [of i] p
      by (auto simp: one_def card_insert_if insert_absorb split: if_splits)
  qed
  have "finite (dom ((holds S)(p := x)))"
    using c by (auto simp: counted_def)
  moreover have "use_count S i = card (owners (S\<lparr>holds := (holds S)(p := x)\<rparr>) i) + (e i - one x i + one (holds S p) i)" for i
    using c n [of i] by (simp add: counted_def)
  moreover have "\<forall>i. i \<in> destroyed S \<longleftrightarrow> i \<in> created S \<and> use_count S i = 0" "\<forall>i. use_count S i \<noteq> 0 \<longrightarrow> i \<in> created S"
    using c by (simp_all add: counted_def)
  ultimately show ?thesis
    unfolding counted_def by (intro conjI) simp_all
qed

lemma counted_release_opt:
  assumes "counted (\<lambda>i. e i + one x i) S"
  shows "counted e (release_opt x S)"
proof (cases x)
  case None
  then show ?thesis
    using assms by (simp add: release_opt_def one_def)
next
  case (Some j)
  have "(\<lambda>i. e i + one x i)(j := e j + one x j - 1) = e"
    using Some by (auto simp: one_def)
  then show ?thesis
    using counted_release [OF assms, of j] Some by (simp add: release_opt_def one_def)
qed

lemma counted_vmfork:
  assumes c: "counted0 S"
  shows "counted0 (snd (vmfork ws_ok ctor_ok h debug k S))"
proof (cases "holds S (Inst_ref k)")
  case None
  let ?p = "if debug then Debug_program h else Program h"
  show ?thesis
  proof (cases "holds S ?p")
    case (Some i)
    have "owners S i \<noteq> {}"
      using Some by (auto simp: owners_def)
    then have "use_count S i \<noteq> 0"
      using c finite_owners [OF c, of i] by (simp add: counted_def)
    then have r: "counted (one (Some i)) (retain i S)"
      using counted_retain [OF c, of i] by (simp add: one_upd del: One_nat_def)
    have "counted0 (release i (retain i S))"
      using counted_release_opt [of "\<lambda>_. 0" "Some i"] r by (simp add: release_opt_def)
    moreover have "holds (retain i S) (Inst_ref k) = None"
      using None by (simp add: retain_def)
    then have "counted0 ((retain i S)\<lparr>holds := (holds (retain i S))(Inst_ref k \<mapsto> i)\<rparr>)"
      using counted_put [OF r, of "Some i" "Inst_ref k"] by (simp add: one_def)
    ultimately show ?thesis
      using None Some by (simp add: vmfork_def Let_def)
  qed (use None c in \<open>simp add: vmfork_def\<close>)
qed (use c in \<open>simp add: vmfork_def\<close>)

lemma counted_end:
  assumes "counted0 S"
  shows "counted0 (SandboxFreeFunction k S)"
  using counted_release_opt [of "\<lambda>_. 0" "holds S (Inst_ref k)"] counted_put [OF assms, of None "Inst_ref k"]
  by (simp add: SandboxFreeFunction_def one_def)

lemma counted_load:
  assumes c: "counted0 S" and new: "i \<notin> created S"
  shows "counted0 (load_program i h S)"
proof -
  have "counted (one (Some i)) (make_shared i S)"
    using counted_make_shared [OF c new] by (simp only: one_upd)
  from counted_put [OF this, of "Some i" "Program h"]
  have "counted (\<lambda>j. 0 + one (holds S (Program h)) j) ((make_shared i S)\<lparr>holds := (holds (make_shared i S))(Program h \<mapsto> i)\<rparr>)"
    by (simp add: make_shared_def)
  then show ?thesis
    using counted_release_opt [of "\<lambda>_. 0" "holds S (Program h)"] by (simp add: load_program_def Let_def)
qed

lemma counted_exchange:
  assumes c: "counted0 S" and new: "i \<notin> created S"
  shows "counted0 (exchange_program i h debug S)"
proof -
  let ?p = "if debug then Debug_program h else Program h"
  let ?S1 = "retain i (make_shared i S)"
  have "counted ((\<lambda>_. 0)(i := 1)) (make_shared i S)"
    by (rule counted_make_shared [OF c new])
  then have s1: "counted ((\<lambda>_. 0)(i := 1, i := 2)) ?S1"
    using counted_retain [of "(\<lambda>_. 0)(i := 1)" "make_shared i S" i] by (simp add: make_shared_def numeral_2_eq_2)
  have h: "holds ?S1 = holds S"
    by (simp add: retain_def make_shared_def)
  have "(\<lambda>j. ((\<lambda>_. 0)(i := 1, i := 2)) j - one (Some i) j + one (holds ?S1 ?p) j) = (\<lambda>j. one (Some i) j + one (holds S ?p) j)"
    by (auto simp: one_def h)
  then have "counted (\<lambda>j. one (Some i) j + one (holds S ?p) j) (?S1\<lparr>holds := (holds ?S1)(?p \<mapsto> i)\<rparr>)"
    using counted_put [OF s1, of "Some i" ?p] by (simp add: one_def)
  from counted_release_opt [OF this]
  have "counted (\<lambda>j. 0 + one (Some i) j) (release_opt (holds S ?p) (?S1\<lparr>holds := (holds ?S1)(?p \<mapsto> i)\<rparr>))"
    by simp
  from counted_release_opt [OF this] show ?thesis
    by (simp add: exchange_program_def Let_def h release_opt_def [of "Some i"])
qed

lemma counted_call: "counted0 S \<Longrightarrow> counted0 (remote_call_handlers k S)"
  by (auto simp: remote_call_handlers_def counted_def owners_def split: option.splits)

lemma refs_run_counted: "refs_run S \<Longrightarrow> counted0 S"
proof (induction rule: refs_run.induct)
  case start
  then show ?case
    by (simp add: counted_def no_refs_def owners_def)
qed (simp_all add: counted_vmfork counted_end counted_load counted_exchange counted_call)

lemma held_alive:
  assumes c: "counted0 S" and "holds S p = Some i"
  shows "i \<in> created S" "i \<notin> destroyed S"
proof -
  have "owners S i \<noteq> {}"
    using assms(2) by (auto simp: owners_def)
  then have "use_count S i \<noteq> 0"
    using c finite_owners [OF c, of i] by (simp add: counted_def)
  then show "i \<in> created S" "i \<notin> destroyed S"
    using c by (simp_all add: counted_def)
qed

lemma unheld_destroyed: "counted0 S \<Longrightarrow> i \<in> created S \<Longrightarrow> \<forall>p. holds S p \<noteq> Some i \<Longrightarrow> i \<in> destroyed S"
  by (simp add: counted_def owners_def)

section \<open>Properties\<close>

text \<open>
  (C12) Whatever sequence of forks, request ends, program loads, updates and remote calls the module executes, the instance of every open
  request and of every tenant is alive, and an instance that nothing refers to any more has been destroyed.
\<close>

theorem instances_live_while_used:
  assumes "refs_run S"
  shows "(\<forall>p i. holds S p = Some i \<longrightarrow> i \<in> created S \<and> i \<notin> destroyed S) \<and>
    (\<forall>i \<in> created S. (\<forall>p. holds S p \<noteq> Some i) \<longrightarrow> i \<in> destroyed S)"
  using held_alive [OF refs_run_counted [OF assms]] unheld_destroyed [OF refs_run_counted [OF assms]] by blast

text \<open>
  A remote call leaves the storage machine with a page fault handler that refers to the script of the request: after
  the request has ended, the storage machine is alive and its handler refers to a script that is not.
\<close>

theorem fault_handler_outlives_request:
  assumes "refs_run S" and "holds S (Inst_ref k) = Some i" and "holds S (Program h) = Some i"
  shows "\<exists>S'. refs_run S' \<and> S' = SandboxFreeFunction k (remote_call_handlers k S) \<and>
    fault_script S' i = Some k \<and> holds S' (Inst_ref k) = None \<and> i \<notin> destroyed S'"
proof -
  let ?S' = "SandboxFreeFunction k (remote_call_handlers k S)"
  have run: "refs_run ?S'"
    using assms(1) by (intro refs_run.intros)
  have "holds ?S' (Program h) = Some i" "holds ?S' (Inst_ref k) = None" "fault_script ?S' i = Some k"
    using assms(2,3)
    by (simp_all add: SandboxFreeFunction_def remote_call_handlers_def release_opt_def release_def Let_def)
  then show ?thesis
    using run held_alive(2) [OF refs_run_counted [OF run]] by blast
qed

text \<open>
  Deleting the machine of a request by hand and ending the request destroys the instance that the tenant still uses, where
  no other request does: the destructor of the script runs twice.
\<close>

theorem delete_destroys_used_instance:
  assumes "use_count S i = 2" and "holds S (Inst_ref k) = Some i" and "holds S (Program h) = Some i"
  shows "holds (SandboxFreeFunction k (riscv_delete k S)) (Program h) = Some i \<and> i \<in> destroyed (SandboxFreeFunction k (riscv_delete k S))"
  using assms by (simp add: SandboxFreeFunction_def riscv_delete_def release_opt_def release_def Let_def)

section \<open>Witnesses\<close>

definition demo_refs :: "(nat, nat) Refs" where
  "demo_refs = snd (vmfork True True 0 False 7 (load_program 3 0 no_refs))"

lemma demo_refs_run:
  "refs_run demo_refs" "holds demo_refs (Inst_ref 7) = Some 3" "holds demo_refs (Program 0) = Some 3" "use_count demo_refs 3 = 2"
proof -
  show "refs_run demo_refs"
    unfolding demo_refs_def by (intro refs_run.intros) (simp add: no_refs_def)
  show "holds demo_refs (Inst_ref 7) = Some 3" "holds demo_refs (Program 0) = Some 3" "use_count demo_refs 3 = 2"
    by (simp_all add: demo_refs_def load_program_def no_refs_def vmfork_def retain_def make_shared_def release_opt_def Let_def)
qed

theorem instances_live_while_used_witness: "3 \<notin> destroyed demo_refs \<and> 3 \<in> created demo_refs"
  using instances_live_while_used [OF demo_refs_run(1)] demo_refs_run(2) by blast

theorem fault_handler_outlives_request_witness:
  "fault_script (SandboxFreeFunction 7 (remote_call_handlers 7 demo_refs)) 3 = Some 7 \<and>
   holds (SandboxFreeFunction 7 (remote_call_handlers 7 demo_refs)) (Inst_ref 7) = None"
  using fault_handler_outlives_request [OF demo_refs_run(1-3)] by blast

theorem delete_destroys_used_instance_witness:
  "3 \<in> destroyed (SandboxFreeFunction 7 (riscv_delete 7 demo_refs)) \<and> holds (SandboxFreeFunction 7 (riscv_delete 7 demo_refs)) (Program 0) = Some 3"
  using delete_destroys_used_instance [OF demo_refs_run(4,2,3)] by simp

end
